(* ===== verification/JsPrelude.thy ===== *)
theory JsPrelude
  imports Main "HOL-Library.While_Combinator"
begin

text \<open>
  The shared ground of the development: the outcome of a JavaScript computation
  (\<open>res\<close>: a value, a thrown error, or a loop that never ends), the sequencing of such
  computations, the collections of simplification facts the components add to, and the
  generic facts on lists, options and loops that more than one component uses.
\<close>

named_theorems js_defs \<open>definitions of the standard-library functions, for evaluation\<close>
named_theorems luxon_defs \<open>definitions of the date library, for evaluation\<close>
named_theorems cron_defs \<open>definitions of the cron parser and matcher, for evaluation\<close>

subsection \<open>Outcomes\<close>

text \<open>
  The errors of the program, by the class that is thrown, with the message where the code
  composes one.
\<close>

datatype js_error =
    Error string
  | RangeError string
  | TypeError string
  | InvalidDateTimeError string
  | InvalidIntervalError string
  | InvalidDurationError string
  | ConflictingSpecificationError string
  | InvalidUnitError string
  | InvalidArgumentError string
  | ZoneIsAbstractError

text \<open>
  \<open>Ok v\<close>: the call returns \<open>v\<close>. \<open>Throw e\<close>: it throws \<open>e\<close>. \<open>Hang\<close>: a loop of it
  never ends.
\<close>

datatype 'a res = Ok (res_val: 'a) | Throw js_error | Hang

primrec rbind :: "'a res \<Rightarrow> ('a \<Rightarrow> 'b res) \<Rightarrow> 'b res" where
  "rbind (Ok v) f = f v"
| "rbind (Throw e) f = Throw e"
| "rbind Hang f = Hang"

primrec rmap :: "('a \<Rightarrow> 'b) \<Rightarrow> 'a res \<Rightarrow> 'b res" where
  "rmap f (Ok v) = Ok (f v)"
| "rmap f (Throw e) = Throw e"
| "rmap f Hang = Hang"

text \<open>\<open>mapM f xs\<close>: \<open>f\<close> applied to the elements from left to right; the first call that
  does not return decides the outcome.\<close>

fun mapM :: "('a \<Rightarrow> 'b res) \<Rightarrow> 'a list \<Rightarrow> 'b list res" where
  "mapM f [] = Ok []"
| "mapM f (x # xs) = rbind (f x) (\<lambda>y. rbind (mapM f xs) (\<lambda>ys. Ok (y # ys)))"

text \<open>\<open>foldM f xs s\<close>: a \<open>forEach\<close> or \<open>for..of\<close> loop whose body may throw.\<close>

fun foldM :: "('a \<Rightarrow> 's \<Rightarrow> 's res) \<Rightarrow> 'a list \<Rightarrow> 's \<Rightarrow> 's res" where
  "foldM f [] s = Ok s"
| "foldM f (x # xs) s = rbind (f x s) (foldM f xs)"

text \<open>Whether a call returns.\<close>

definition is_Ok :: "'a res \<Rightarrow> bool" where
  "is_Ok r = (case r of Ok _ \<Rightarrow> True | _ \<Rightarrow> False)"

lemma is_Ok_simps [simp]: "is_Ok (Ok v)" "\<not> is_Ok (Throw e)" "\<not> is_Ok Hang"
  by (simp_all add: is_Ok_def)

lemma is_Ok_val: "is_Ok r \<Longrightarrow> r = Ok (res_val r)"
  by (cases r) simp_all

definition res_of_loop :: "'a option \<Rightarrow> 'a res" where
  "res_of_loop r = (case r of None \<Rightarrow> Hang | Some v \<Rightarrow> Ok v)"

lemma res_of_loop_simps [simp]:
  "res_of_loop None = Hang" "res_of_loop (Some v) = Ok v"
  by (simp_all add: res_of_loop_def)

lemma rbind_eq_Ok [simp]: "rbind m f = Ok v \<longleftrightarrow> (\<exists>u. m = Ok u \<and> f u = Ok v)"
  by (cases m) auto

lemma rbind_eq_Hang [simp]: "rbind m f = Hang \<longleftrightarrow> m = Hang \<or> (\<exists>u. m = Ok u \<and> f u = Hang)"
  by (cases m) auto

lemma rbind_eq_Throw [simp]:
  "rbind m f = Throw e \<longleftrightarrow> m = Throw e \<or> (\<exists>u. m = Ok u \<and> f u = Throw e)"
  by (cases m) auto

lemma rmap_rmap: "rmap f (rmap g m) = rmap (\<lambda>x. f (g x)) m"
  by (cases m) simp_all

lemma rmap_eq_Ok [simp]: "rmap f m = Ok v \<longleftrightarrow> (\<exists>u. m = Ok u \<and> f u = v)"
  by (cases m) auto

lemma rmap_eq_Hang [simp]: "rmap f m = Hang \<longleftrightarrow> m = Hang"
  by (cases m) auto

lemma if_Throw_eq_Ok [simp]:
  "(if c then Throw e else r) = Ok v \<longleftrightarrow> \<not> c \<and> r = Ok v"
  "(if c then r else Throw e) = Ok v \<longleftrightarrow> c \<and> r = Ok v"
  by auto

lemma rbind_assoc: "rbind (rbind m f) g = rbind m (\<lambda>x. rbind (f x) g)"
  by (cases m) auto

lemma mapM_eq_Ok: "mapM f xs = Ok ys \<longleftrightarrow> list_all2 (\<lambda>x y. f x = Ok y) xs ys"
  by (induction xs arbitrary: ys) (auto simp: list_all2_Cons1)

lemma mapM_Ok_map: "(\<And>x. x \<in> set xs \<Longrightarrow> f x = Ok (g x)) \<Longrightarrow> mapM f xs = Ok (map g xs)"
  by (induction xs) auto

lemma mapM_not_Hang: "(\<And>x. x \<in> set xs \<Longrightarrow> f x \<noteq> Hang) \<Longrightarrow> mapM f xs \<noteq> Hang"
  by (induction xs) auto

lemma mapM_Hang: "mapM f xs = Hang \<Longrightarrow> \<exists>x \<in> set xs. f x = Hang"
  by (induction xs) auto

lemma foldM_not_Hang: "(\<And>x s. x \<in> set xs \<Longrightarrow> f x s \<noteq> Hang) \<Longrightarrow> foldM f xs s \<noteq> Hang"
  by (induction xs arbitrary: s) auto

lemma foldM_Ok_fold:
  "(\<And>x s. x \<in> set xs \<Longrightarrow> f x s = Ok (g x s)) \<Longrightarrow> foldM f xs s = Ok (fold g xs s)"
  by (induction xs arbitrary: s) auto

lemma rbind_cong: "(\<And>u. m = Ok u \<Longrightarrow> f u = g u) \<Longrightarrow> rbind m f = rbind m g"
  by (cases m) auto

lemma foldM_append: "foldM f (xs @ ys) s = rbind (foldM f xs s) (foldM f ys)"
  by (induction xs arbitrary: s) (auto simp: rbind_assoc intro: rbind_cong)

text \<open>An invariant of the loop's state carries through a \<open>foldM\<close> that returns.\<close>

lemma foldM_invariant:
  assumes "foldM f xs s = Ok t" and "P s"
    and "\<And>x s t. x \<in> set xs \<Longrightarrow> P s \<Longrightarrow> f x s = Ok t \<Longrightarrow> P t"
  shows "P t"
  using assms
proof (induction xs arbitrary: s)
  case Nil
  then show ?case by simp
next
  case (Cons x xs)
  from Cons.prems(1) obtain u where u: "f x s = Ok u" "foldM f xs u = Ok t" by auto
  have "P u" using Cons.prems(3) [OF _ Cons.prems(2) u(1)] by simp
  with u(2) show ?case
    by (rule Cons.IH) (use Cons.prems(3) in auto)
qed

text \<open>A loop body that may \<open>break\<close>: \<open>Next s\<close> goes on, \<open>Stop s\<close> leaves the loop (and, when passed
  on, the loops around it).\<close>

datatype 's ctl = Next (ctl_state: 's) | Stop (ctl_state: 's)

fun foldB :: "('a \<Rightarrow> 's \<Rightarrow> 's ctl res) \<Rightarrow> 'a list \<Rightarrow> 's \<Rightarrow> 's ctl res" where
  "foldB f [] s = Ok (Next s)"
| "foldB f (x # xs) s =
     rbind (f x s) (\<lambda>r. case r of Next t \<Rightarrow> foldB f xs t | Stop t \<Rightarrow> Ok (Stop t))"

text \<open>\<open>find\<close> with a test that may throw or hang: whether an element is found.\<close>

fun existsM :: "('a \<Rightarrow> bool res) \<Rightarrow> 'a list \<Rightarrow> bool res" where
  "existsM f [] = Ok False"
| "existsM f (x # xs) = rbind (f x) (\<lambda>b. if b then Ok True else existsM f xs)"

lemma existsM_Ok: "(\<And>x. x \<in> set xs \<Longrightarrow> f x = Ok (P x)) \<Longrightarrow> existsM f xs = Ok (list_ex P xs)"
  by (induction xs) auto

lemma foldB_append:
  "foldB f (xs @ ys) s = rbind (foldB f xs s) (\<lambda>r. case r of Next t \<Rightarrow> foldB f ys t | Stop t \<Rightarrow> Ok (Stop t))"
proof (induction xs arbitrary: s)
  case (Cons x xs)
  then show ?case by (cases "f x s") (auto split: ctl.split)
qed simp

lemma foldB_cong:
  "(\<And>x s. x \<in> set xs \<Longrightarrow> f x s = g x s) \<Longrightarrow> foldB f xs s = foldB g xs s"
  by (induction xs arbitrary: s) (auto intro!: rbind_cong split: ctl.split)

subsection \<open>Loops that may not end\<close>

lemma while_option_None_invariant:
  assumes "P s" and "\<And>s. P s \<Longrightarrow> b s \<and> P (c s)"
  shows "while_option b c s = None"
proof -
  have "P ((c ^^ k) s)" for k
    by (induction k) (use assms in auto)
  with assms(2) have "b ((c ^^ k) s)" for k by blast
  then show ?thesis by (simp add: while_option_def)
qed

subsection \<open>Lists\<close>

text \<open>\<open>Array.prototype.find\<close> returns the first element that satisfies the predicate, or
  \<open>undefined\<close> (\<open>None\<close>).\<close>

lemma find_eq_None: "find P xs = None \<longleftrightarrow> (\<forall>x \<in> set xs. \<not> P x)"
  by (auto simp: find_None_iff)

lemma find_not_None: "find P xs \<noteq> None \<longleftrightarrow> (\<exists>x \<in> set xs. P x)"
  by (auto simp: find_None_iff)

lemma find_SomeD: "find P xs = Some x \<Longrightarrow> x \<in> set xs \<and> P x"
  by (auto simp: find_Some_iff in_set_conv_nth)

text \<open>Removing repetitions while keeping the first occurrence of each element, as the
  \<open>Set\<close>-based \<open>dedupe\<close> helpers of the program do.\<close>

fun nub_acc :: "'a list \<Rightarrow> 'a list \<Rightarrow> 'a list" where
  "nub_acc seen [] = []"
| "nub_acc seen (x # xs) =
     (if x \<in> set seen then nub_acc seen xs else x # nub_acc (x # seen) xs)"

lemma set_nub_acc: "set (nub_acc seen xs) = set xs - set seen"
  by (induction xs arbitrary: seen) auto

lemma distinct_nub_acc: "distinct (nub_acc seen xs)"
  by (induction xs arbitrary: seen) (auto simp: set_nub_acc)

lemma nub_acc_distinct: "distinct xs \<Longrightarrow> set xs \<inter> set seen = {} \<Longrightarrow> nub_acc seen xs = xs"
  by (induction xs arbitrary: seen) auto

lemma takeWhile_sorted_filter:
  "sorted_wrt (\<lambda>a b. P b \<longrightarrow> P a) xs \<Longrightarrow> takeWhile P xs = filter P xs"
  by (induction xs) (auto simp: filter_empty_conv)

lemma dropWhile_sorted_filter:
  "sorted_wrt (\<lambda>a b. P a \<longrightarrow> P b) xs \<Longrightarrow> dropWhile (\<lambda>x. \<not> P x) xs = filter P xs"
  by (induction xs) (auto simp: filter_id_conv)

end
