(* ===== verification/JsString.thy ===== *)
theory JsString
  imports JsPrelude
begin

text \<open>
  The part of the JavaScript standard library on strings that the program calls
  (\<open>String.prototype.trim\<close>, \<open>split\<close>, \<open>toLowerCase\<close>, \<open>padStart\<close>,
  \<open>parseInt\<close> and the conversion of an integer to a string), and the facts about
  decimal numerals that the parsers and the ISO output share.

  A string is a list of characters with codes below 256: the Latin-1 part of what a
  JavaScript string can hold. Integers are unbounded: \<open>parseInt\<close> of more digits than a
  double holds would round in JavaScript.
\<close>

abbreviation code :: "char \<Rightarrow> nat" where "code c \<equiv> of_char c"

subsection \<open>White space, lower case, splitting\<close>

text \<open>The white space of \<open>trim\<close> and of the regular expression class \<open>\s\<close> among the
  characters below 256: tab, line feed, vertical tab, form feed, carriage return, space and
  no-break space.\<close>

definition is_space :: "char \<Rightarrow> bool" where
  [js_defs]: "is_space c \<longleftrightarrow> code c \<in> {9, 10, 11, 12, 13, 32, 160}"

definition trim :: "string \<Rightarrow> string" where
  [js_defs]: "trim s = rev (dropWhile is_space (rev (dropWhile is_space s)))"

definition lower_char :: "char \<Rightarrow> char" where
  [js_defs]: "lower_char c =
     (if (65 \<le> code c \<and> code c \<le> 90) \<or> (192 \<le> code c \<and> code c \<le> 222 \<and> code c \<noteq> 215)
      then char_of (code c + 32) else c)"

definition toLowerCase :: "string \<Rightarrow> string" where
  [js_defs]: "toLowerCase s = map lower_char s"

text \<open>\<open>s.split(sep)\<close> for a separator of one character.\<close>

fun split :: "char \<Rightarrow> string \<Rightarrow> string list" where
  "split sep [] = [[]]"
| "split sep (c # cs) =
     (if c = sep then [] # split sep cs
      else (case split sep cs of [] \<Rightarrow> [[c]] | p # ps \<Rightarrow> (c # p) # ps))"

text \<open>\<open>s.split(/\s+/)\<close>: a maximal run of white space separates two parts.\<close>

function split_spaces :: "string \<Rightarrow> string list" where
  "split_spaces s =
     (case dropWhile (\<lambda>c. \<not> is_space c) s of
        [] \<Rightarrow> [s]
      | _ # rest \<Rightarrow> takeWhile (\<lambda>c. \<not> is_space c) s # split_spaces (dropWhile is_space rest))"
  by pat_completeness auto
termination
proof (relation "measure length")
  fix s x rest
  assume "dropWhile (\<lambda>c. \<not> is_space c) s = x # rest"
  then have "length (x # rest) \<le> length s" by (metis length_dropWhile_le)
  then show "(dropWhile is_space rest, s) \<in> measure length"
    using length_dropWhile_le [of is_space rest] by simp
qed simp

declare split_spaces.simps [simp del]

text \<open>The substring tests of the program look for one character (\<open>indexOf(c) >= 0\<close>) or for
  a last character (\<open>endsWith(c)\<close>).\<close>

definition has_char :: "char \<Rightarrow> string \<Rightarrow> bool" where
  [js_defs]: "has_char c s \<longleftrightarrow> c \<in> set s"

definition ends_with_char :: "char \<Rightarrow> string \<Rightarrow> bool" where
  [js_defs]: "ends_with_char c s \<longleftrightarrow> (case rev s of [] \<Rightarrow> False | d # _ \<Rightarrow> d = c)"

subsection \<open>Decimal numerals\<close>

definition is_digit :: "char \<Rightarrow> bool" where
  [js_defs]: "is_digit c \<longleftrightarrow> 48 \<le> code c \<and> code c \<le> 57"

definition digit_val :: "char \<Rightarrow> nat" where
  [js_defs]: "digit_val c = code c - 48"

definition digit_char :: "nat \<Rightarrow> char" where
  [js_defs]: "digit_char n = char_of (48 + n)"

fun digits_val :: "nat \<Rightarrow> string \<Rightarrow> nat" where
  "digits_val acc [] = acc"
| "digits_val acc (c # cs) = digits_val (10 * acc + digit_val c) cs"

fun show_nat :: "nat \<Rightarrow> string" where
  "show_nat n = (if n < 10 then [digit_char n] else show_nat (n div 10) @ [digit_char (n mod 10)])"

declare show_nat.simps [simp del]

text \<open>\<open>"" + i\<close> for an integer \<open>i\<close>.\<close>

definition show_int :: "int \<Rightarrow> string" where
  [js_defs]: "show_int i = (if i < 0 then ''-'' @ show_nat (nat (- i)) else show_nat (nat i))"

text \<open>\<open>parseInt(s, 10)\<close> skips white space, reads an optional sign and the longest run of
  digits, and is \<open>NaN\<close> (\<open>None\<close>) when there is no digit. \<open>scan_int\<close> keeps the sign
  apart from the magnitude: JavaScript distinguishes \<open>-0\<close> from \<open>0\<close>.\<close>

definition scan_int :: "string \<Rightarrow> (bool \<times> nat) option" where
  [js_defs]: "scan_int s =
     (let t = dropWhile is_space s;
          neg = (case t of c # _ \<Rightarrow> c = CHR ''-'' | [] \<Rightarrow> False);
          u = (case t of c # cs \<Rightarrow> if c = CHR ''-'' \<or> c = CHR ''+'' then cs else t | [] \<Rightarrow> []);
          ds = takeWhile is_digit u
      in if ds = [] then None else Some (neg, digits_val 0 ds))"

definition parseInt :: "string \<Rightarrow> int option" where
  [js_defs]: "parseInt s =
     (case scan_int s of None \<Rightarrow> None
      | Some (neg, n) \<Rightarrow> Some (if neg then - int n else int n))"

text \<open>\<open>s.padStart(n, c)\<close>.\<close>

definition pad_start :: "string \<Rightarrow> nat \<Rightarrow> char \<Rightarrow> string" where
  [js_defs]: "pad_start s n c = replicate (n - length s) c @ s"

subsection \<open>Facts\<close>

lemma digit_char_digit [simp]: "n < 10 \<Longrightarrow> is_digit (digit_char n)"
  by (simp add: is_digit_def digit_char_def)

lemma digit_val_char [simp]: "n < 10 \<Longrightarrow> digit_val (digit_char n) = n"
  by (simp add: digit_val_def digit_char_def)

lemma digit_not_space [simp]: "is_digit c \<Longrightarrow> \<not> is_space c"
  by (auto simp: is_digit_def is_space_def)

lemma digit_not_sign [simp]:
  "is_digit c \<Longrightarrow> c \<noteq> CHR ''-''" "is_digit c \<Longrightarrow> c \<noteq> CHR ''+''"
  by (auto simp: is_digit_def)

lemma digits_val_append:
  "digits_val acc (xs @ ys) = digits_val (digits_val acc xs) ys"
  by (induction xs arbitrary: acc) auto

lemma digits_val_zeros [simp]: "digits_val 0 (replicate n (CHR ''0'') @ s) = digits_val 0 s"
  by (induction n) (auto simp: digit_val_def)

lemma show_nat_digits: "c \<in> set (show_nat n) \<Longrightarrow> is_digit c"
proof (induction n rule: show_nat.induct)
  case (1 n)
  then show ?case by (cases "n < 10") (auto simp: show_nat.simps [of n])
qed

lemma show_nat_not_Nil [simp]: "show_nat n \<noteq> []"
  by (simp add: show_nat.simps [of n])

lemma digits_val_show_nat [simp]: "digits_val 0 (show_nat n) = n"
proof (induction n rule: show_nat.induct)
  case (1 n)
  then show ?case
    by (cases "n < 10") (auto simp: show_nat.simps [of n] digits_val_append)
qed

lemma takeWhile_all: "(\<And>c. c \<in> set s \<Longrightarrow> P c) \<Longrightarrow> takeWhile P s = s"
  by (simp add: takeWhile_eq_all_conv)

text \<open>Reading a run of digits, with or without leading zeros.\<close>

lemma parseInt_digits:
  assumes "ds \<noteq> []" and "\<And>c. c \<in> set ds \<Longrightarrow> is_digit c"
  shows "parseInt ds = Some (int (digits_val 0 ds))"
proof -
  from assms obtain c cs where ds: "ds = c # cs" "is_digit c" by (cases ds) auto
  with assms(2) show ?thesis
    by (auto simp: parseInt_def scan_int_def Let_def takeWhile_all)
qed

lemma parseInt_show_int [simp]: "parseInt (show_int i) = Some i"
proof (cases "i < 0")
  case True
  then show ?thesis
    by (simp add: parseInt_def scan_int_def show_int_def Let_def is_space_def takeWhile_all
        show_nat_digits)
next
  case False
  have "parseInt (show_nat (nat i)) = Some (int (nat i))"
    using parseInt_digits [OF show_nat_not_Nil show_nat_digits, of "nat i"] by simp
  with False show ?thesis by (simp add: show_int_def)
qed

lemma show_nat_length_bound: "n < 10 ^ k \<Longrightarrow> 0 < k \<Longrightarrow> length (show_nat n) \<le> k"
proof (induction n arbitrary: k rule: show_nat.induct)
  case (1 n)
  show ?case
  proof (cases "n < 10")
    case True
    with 1 show ?thesis by (simp add: show_nat.simps [of n])
  next
    case False
    with 1 obtain m where k: "k = Suc m" "0 < m"
      by (cases k; cases "k - 1") auto
    with 1 have "n div 10 < 10 ^ m" by (simp add: less_mult_imp_div_less mult.commute)
    with False 1 k show ?thesis by (simp add: show_nat.simps [of n])
  qed
qed

text \<open>Splitting and joining: no part contains the separator, and no part is lost.\<close>

lemma split_not_Nil [simp]: "split sep s \<noteq> []"
  by (induction s) (auto split: list.splits)

lemma split_no_sep: "p \<in> set (split sep s) \<Longrightarrow> sep \<notin> set p"
  by (induction s arbitrary: p) (auto split: list.splits if_splits)

lemma split_none: "sep \<notin> set s \<Longrightarrow> split sep s = [s]"
  by (induction s) auto

lemma split_app: "sep \<notin> set s \<Longrightarrow> split sep (s @ sep # t) = s # split sep t"
  by (induction s) (auto split: list.splits)

lemma length_split: "length (split sep s) = Suc (count_list s sep)"
  by (induction s) (auto split: list.splits)

lemma set_split: "p \<in> set (split sep s) \<Longrightarrow> set p \<subseteq> set s"
proof (induction s arbitrary: p)
  case (Cons a s)
  then show ?case by (cases "split sep s") (fastforce split: if_splits)+
qed simp

lemma set_trim: "set (trim s) \<subseteq> set s"
  by (auto simp: trim_def dest!: set_dropWhileD)

lemma trim_id:
  assumes "s = [] \<or> \<not> is_space (hd s) \<and> \<not> is_space (last s)"
  shows "trim s = s"
proof (cases "s = []")
  case False
  with assms have "dropWhile is_space s = s" "dropWhile is_space (rev s) = rev s"
    by (auto simp: dropWhile_eq_self_iff hd_rev)
  then show ?thesis by (simp add: trim_def)
qed (simp add: trim_def)

lemma trim_no_space: "(\<And>c. c \<in> set s \<Longrightarrow> \<not> is_space c) \<Longrightarrow> trim s = s"
  by (rule trim_id) (cases s; auto)

lemma show_int_no_space: "c \<in> set (show_int i) \<Longrightarrow> \<not> is_space c"
  by (auto simp: show_int_def is_space_def [of "CHR ''-''"] split: if_splits dest: show_nat_digits)

lemma split_spaces_word:
  assumes "\<And>c. c \<in> set w \<Longrightarrow> \<not> is_space c"
  shows "split_spaces w = [w]"
proof -
  have "dropWhile (\<lambda>c. \<not> is_space c) w = []" using assms by (simp add: dropWhile_eq_Nil_conv)
  then show ?thesis by (subst split_spaces.simps) (simp only: list.case)
qed

lemma split_spaces_app:
  assumes "\<And>c. c \<in> set w \<Longrightarrow> \<not> is_space c" and "t = [] \<or> \<not> is_space (hd t)"
  shows "split_spaces (w @ CHR '' '' # t) = w # split_spaces t"
proof -
  have sp: "is_space (CHR '' '')" by (simp add: is_space_def)
  have "dropWhile (\<lambda>c. \<not> is_space c) (w @ CHR '' '' # t) = CHR '' '' # t"
    using assms(1) sp by (subst dropWhile_append2) auto
  moreover have "takeWhile (\<lambda>c. \<not> is_space c) (w @ CHR '' '' # t) = w"
    using assms(1) sp by (subst takeWhile_append2) auto
  moreover have "dropWhile is_space t = t" using assms(2) by (cases t) auto
  ultimately show ?thesis by (subst split_spaces.simps) simp
qed

end
