(* ===== verification/CronParser.thy ===== *)
theory CronParser
  imports JsString
begin

text \<open>
  The cron expression parser of \<open>ui/js/bundle.js\<close> (module 5, \<open>@datasert/cronjs-parser\<close>),
  which the job page calls to check what the user types and to list the next runs.

  A cron expression has seven fields; a parsed field says which values match. An absent
  property of the parsed object is \<open>None\<close> (or \<open>False\<close> for the flags): JavaScript treats the
  empty array as true, so \<open>Some []\<close> and \<open>None\<close> are different. Object literals are looked up by
  their own keys only; a name JavaScript objects inherit (\<open>constructor\<close>) is no number either
  way and ends in an error in the code as well.
\<close>

subsection \<open>Fields and parsed expressions\<close>

datatype fld = SECOND | MINUTE | HOUR | DAY_OF_MONTH | MONTH | DAY_OF_WEEK | YEAR

definition fld_name :: "fld \<Rightarrow> string" where
  [cron_defs]: "fld_name f = (case f of SECOND \<Rightarrow> ''second'' | MINUTE \<Rightarrow> ''minute'' | HOUR \<Rightarrow> ''hour''
     | DAY_OF_MONTH \<Rightarrow> ''day_of_month'' | MONTH \<Rightarrow> ''month'' | DAY_OF_WEEK \<Rightarrow> ''day_of_week''
     | YEAR \<Rightarrow> ''year'')"

definition FIELDS :: "fld list" where
  [cron_defs]: "FIELDS = [SECOND, MINUTE, HOUR, DAY_OF_MONTH, MONTH, DAY_OF_WEEK, YEAR]"

instantiation fld :: enum
begin

definition enum_fld :: "fld list" where
  "enum_fld = FIELDS"

definition enum_all_fld :: "(fld \<Rightarrow> bool) \<Rightarrow> bool" where
  "enum_all_fld P \<longleftrightarrow> list_all P FIELDS"

definition enum_ex_fld :: "(fld \<Rightarrow> bool) \<Rightarrow> bool" where
  "enum_ex_fld P \<longleftrightarrow> list_ex P FIELDS"

instance
proof
  have mem: "f \<in> set FIELDS" for f by (cases f) (simp_all add: FIELDS_def)
  then show "UNIV = set (enum_class.enum :: fld list)" by (auto simp: enum_fld_def)
  show "distinct (enum_class.enum :: fld list)" by (simp add: enum_fld_def FIELDS_def)
  show "enum_class.enum_all P \<longleftrightarrow> Ball UNIV P" for P :: "fld \<Rightarrow> bool"
    using mem by (auto simp: enum_all_fld_def list_all_iff)
  show "enum_class.enum_ex P \<longleftrightarrow> Bex UNIV P" for P :: "fld \<Rightarrow> bool"
    using mem by (auto simp: enum_ex_fld_def list_ex_iff)
qed

end

record field_info =
  info_min :: int
  info_max :: int
  info_alias :: "(string \<times> int) list"

definition FIELD_INFO :: "fld \<Rightarrow> field_info" where
  [cron_defs]: "FIELD_INFO f = (case f of
       SECOND \<Rightarrow> \<lparr>info_min = 0, info_max = 59, info_alias = []\<rparr>
     | MINUTE \<Rightarrow> \<lparr>info_min = 0, info_max = 59, info_alias = []\<rparr>
     | HOUR \<Rightarrow> \<lparr>info_min = 0, info_max = 23, info_alias = []\<rparr>
     | DAY_OF_MONTH \<Rightarrow> \<lparr>info_min = 1, info_max = 31, info_alias = []\<rparr>
     | MONTH \<Rightarrow> \<lparr>info_min = 1, info_max = 12, info_alias =
         [(''jan'', 1), (''feb'', 2), (''mar'', 3), (''apr'', 4), (''may'', 5), (''jun'', 6),
          (''jul'', 7), (''aug'', 8), (''sep'', 9), (''oct'', 10), (''nov'', 11), (''dec'', 12)]\<rparr>
     | DAY_OF_WEEK \<Rightarrow> \<lparr>info_min = 0, info_max = 7, info_alias =
         [(''7'', 0), (''sun'', 0), (''mon'', 1), (''tue'', 2), (''wed'', 3), (''thu'', 4),
          (''fri'', 5), (''sat'', 6)]\<rparr>
     | YEAR \<Rightarrow> \<lparr>info_min = 1970, info_max = 3000, info_alias = []\<rparr>)"

record cron_range =
  r_from :: int
  r_to :: int

record cron_step =
  s_from :: int
  s_to :: int
  s_step :: int

record nth_day =
  n_day_of_week :: int
  n_instance :: int

record cron_field =
  f_all :: bool
  f_omit :: bool
  f_values :: "int list option"
  f_ranges :: "cron_range list option"
  f_steps :: "cron_step list option"
  f_nthDays :: "nth_day list option"
  f_lastDay :: bool
  f_lastWeekday :: bool
  f_nearestWeekdays :: "int list option"
  f_lastDays :: "int list option"

definition empty_field :: cron_field where
  [cron_defs]: "empty_field = \<lparr>f_all = False, f_omit = False, f_values = None, f_ranges = None,
     f_steps = None, f_nthDays = None, f_lastDay = False, f_lastWeekday = False,
     f_nearestWeekdays = None, f_lastDays = None\<rparr>"

type_synonym cron_expr = "fld \<Rightarrow> cron_field"

record cron_exprs =
  pattern :: string
  expressions :: "cron_expr list"

text \<open>The \<open>hasSeconds\<close> option may be absent, a boolean or a string.\<close>

datatype opt_value = OUndefined | OBool bool | OString string

definition isTrue :: "opt_value \<Rightarrow> bool" where
  [cron_defs]: "isTrue v = (case v of OUndefined \<Rightarrow> False | OBool b \<Rightarrow> b | OString s \<Rightarrow> s = ''true'')"

definition PREDEFINED_EXPRS :: "(string \<times> string) list" where
  [cron_defs]: "PREDEFINED_EXPRS =
     [(''@yearly'', ''0 0 1 1 ?''), (''@monthly'', ''0 0 1 * ?''), (''@weekly'', ''0 0 ? * 0''),
      (''@daily'', ''0 0 * * ?''), (''@hourly'', ''0 * * * ?'')]"

subsection \<open>Helpers\<close>

definition dedupe :: "'a list \<Rightarrow> 'a list" where
  [cron_defs]: "dedupe inArray = nub_acc [] inArray"

definition splitAndCleanup :: "string \<Rightarrow> char \<Rightarrow> string list" where
  [cron_defs]: "splitAndCleanup input sep =
     dedupe (filter (\<lambda>part. part \<noteq> []) (map trim (split sep input)))"

definition invalidExpr :: "string \<Rightarrow> string \<Rightarrow> js_error" where
  [cron_defs]: "invalidExpr expr msg = Error (''Invalid cron expression ['' @ expr @ '']. '' @ msg)"

definition unalias :: "fld option \<Rightarrow> string \<Rightarrow> string" where
  [cron_defs]: "unalias field value =
     (case field of None \<Rightarrow> value
      | Some f \<Rightarrow> (case map_of (info_alias (FIELD_INFO f)) value of
          None \<Rightarrow> value | Some n \<Rightarrow> show_int n))"

definition opt_fld_name :: "fld option \<Rightarrow> string" where
  [cron_defs]: "opt_fld_name field = (case field of None \<Rightarrow> ''undefined'' | Some f \<Rightarrow> fld_name f)"

definition parseNumber :: "string \<Rightarrow> fld option \<Rightarrow> string \<Rightarrow> int res" where
  [cron_defs]: "parseNumber expr field value =
     (case parseInt (unalias field value) of
        None \<Rightarrow> Throw (invalidExpr expr
          (''Invalid numeric value ['' @ value @ ''] in field ['' @ opt_fld_name field @ ''].''))
      | Some num \<Rightarrow> Ok num)"

subsection \<open>The parts of a field\<close>

definition parseL :: "string \<Rightarrow> fld \<Rightarrow> string \<Rightarrow> bool res" where
  [cron_defs]: "parseL expr field value =
     (if field = DAY_OF_WEEK \<or> field = DAY_OF_MONTH then Ok True
      else Throw (invalidExpr expr (''Invalid value for ['' @ value @ ''] for field ['' @
        fld_name field @ '']. It can be used only for ['' @ fld_name DAY_OF_MONTH @ '' or '' @
        fld_name DAY_OF_WEEK @ ''] fields.'')))"

definition parseQ :: "string \<Rightarrow> fld \<Rightarrow> string \<Rightarrow> cron_field res" where
  [cron_defs]: "parseQ expr field value =
     (if field = DAY_OF_WEEK \<or> field = DAY_OF_MONTH then Ok (empty_field\<lparr>f_omit := True\<rparr>)
      else Throw (invalidExpr expr (''Invalid Value ['' @ value @ ''] for field ['' @
        fld_name field @ '']. It can be specified only for ['' @ fld_name DAY_OF_MONTH @ '' or '' @
        fld_name DAY_OF_WEEK @ ''] fields.'')))"

definition parseLW :: "string \<Rightarrow> fld \<Rightarrow> string \<Rightarrow> bool res" where
  [cron_defs]: "parseLW expr field value =
     (if field = DAY_OF_MONTH then Ok True
      else Throw (invalidExpr expr (''Invalid value for ['' @ value @ ''] for field ['' @
        fld_name field @ '']. It can be used only for ['' @ fld_name DAY_OF_MONTH @
        ''] fields.'')))"

definition parseValue :: "string \<Rightarrow> fld \<Rightarrow> string \<Rightarrow> int res" where
  [cron_defs]: "parseValue expr field value =
     rbind (parseNumber expr (Some field) value) (\<lambda>num.
       let info = FIELD_INFO field in
       if num < info_min info then Throw (invalidExpr expr (''Value ['' @ value @
         ''] out of range for field ['' @ fld_name field @
         '']. It must be greater than or equals to ['' @ show_int (info_min info) @ ''].''))
       else if info_max info \<noteq> 0 \<and> num > info_max info then Throw (invalidExpr expr (''Value ['' @
         value @ ''] out of range for field ['' @ fld_name field @
         '']. It must be less than or equals to ['' @ show_int (info_max info) @ ''].''))
       else Ok num)"

definition parseStepRange :: "string \<Rightarrow> fld \<Rightarrow> string \<Rightarrow> cron_step res" where
  [cron_defs]: "parseStepRange expr field value =
     (let parts = split (CHR ''/'') value in
      if length parts \<noteq> 2 then Throw (invalidExpr expr (''Invalid step range ['' @ value @
        ''] for field ['' @ fld_name field @
        '']. Expected exactly 2 values separated by a / but got ['' @
        show_int (int (length parts)) @ ''] values.''))
      else
       let info = FIELD_INFO field;
           fromParts = (if has_char (CHR ''-'') (parts ! 0) then split (CHR ''-'') (parts ! 0)
                        else [parts ! 0])
       in rbind (parseNumber expr (Some field) (unalias (Some field)
            (if fromParts ! 0 = ''*'' then show_int (info_min info) else fromParts ! 0))) (\<lambda>from.
          rbind (parseNumber expr (Some field) (unalias (Some field)
            (if length fromParts > 1 then fromParts ! 1 else show_int (info_max info)))) (\<lambda>to.
          rbind (parseNumber expr (Some field) (unalias (Some field) (parts ! 1))) (\<lambda>step.
          if from < info_min info then Throw (invalidExpr expr (''Invalid step range ['' @ value @
            ''] for field ['' @ fld_name field @ '']. From value ['' @ show_int from @
            ''] out of range. It must be greater than or equals to ['' @
            show_int (info_min info) @ '']''))
          else if to > info_max info then Throw (invalidExpr expr (''Invalid step range ['' @ value @
            ''] for field ['' @ fld_name field @ '']. To value ['' @ show_int to @
            ''] out of range. It must be less than or equals to ['' @
            show_int (info_max info) @ '']''))
          else if step > info_max info then Throw (invalidExpr expr (''Invalid step range ['' @
            value @ ''] for field ['' @ fld_name field @ '']. Step value ['' @ value @
            ''] out of range. It must be less than or equals to ['' @
            show_int (info_max info) @ '']''))
          else Ok \<lparr>s_from = from, s_to = to, s_step = step\<rparr>))))"

definition parseNth :: "string \<Rightarrow> fld \<Rightarrow> string \<Rightarrow> nth_day res" where
  [cron_defs]: "parseNth expr field value =
     (if field \<noteq> DAY_OF_WEEK then Throw (invalidExpr expr (''Invalid value ['' @ value @
        ''] for field ['' @ fld_name field @ '']. Nth day can be used only in ['' @
        fld_name DAY_OF_WEEK @ ''] field.''))
      else let parts = split (CHR ''#'') value in
      if length parts \<noteq> 2 then Throw (invalidExpr expr (''Invalid nth day value ['' @ value @
        ''] for field ['' @ fld_name field @ '']. It must be in ['' @ fld_name DAY_OF_WEEK @
        ''#instance] format.''))
      else
        rbind (parseNumber expr (Some field) (parts ! 0)) (\<lambda>day_of_week.
        rbind (parseNumber expr None (parts ! 1)) (\<lambda>inst.
        if inst < 1 \<or> inst > 5 then Throw (invalidExpr expr
          (''Invalid Day of Week instance value ['' @ show_int inst @ ''] for field ['' @
           fld_name field @ '']. It must be between 1 and 5.''))
        else Ok \<lparr>n_day_of_week = day_of_week, n_instance = inst\<rparr>)))"

definition parseNearestWeekday :: "string \<Rightarrow> fld \<Rightarrow> string \<Rightarrow> int res" where
  [cron_defs]: "parseNearestWeekday expr field value =
     (if field \<noteq> DAY_OF_MONTH then Throw (invalidExpr expr (''Invalid value ['' @ value @
        ''] for field ['' @ fld_name field @ '']. Nearest weekday can be used only in ['' @
        fld_name DAY_OF_MONTH @ ''] field.''))
      else parseNumber expr (Some field) (split (CHR ''w'') value ! 0))"

definition parseLastDays :: "string \<Rightarrow> fld \<Rightarrow> string \<Rightarrow> int res" where
  [cron_defs]: "parseLastDays expr field value =
     parseNumber expr (Some field) (split (CHR ''l'') value ! 0)"

definition parseRange :: "string \<Rightarrow> fld \<Rightarrow> string \<Rightarrow> cron_range res" where
  [cron_defs]: "parseRange expr field value =
     (let parts = split (CHR ''-'') value in
      if length parts \<noteq> 2 then Throw (invalidExpr expr (''Invalid range ['' @ value @
        ''] for field ['' @ fld_name field @
        '']. Range should have two values separated by a - but got ['' @
        show_int (int (length parts)) @ ''] values.''))
      else
        rbind (parseNumber expr (Some field) (unalias (Some field) (parts ! 0))) (\<lambda>from.
        rbind (parseNumber expr (Some field) (unalias (Some field) (parts ! 1))) (\<lambda>to0.
        let to = (if field = DAY_OF_WEEK \<and> to0 = 0 then 7 else to0);
            info = FIELD_INFO field in
        if from \<ge> to then Throw (invalidExpr expr (''Invalid range ['' @ value @
          ''] for field ['' @ fld_name field @ '']. From value must be less than to value.''))
        else if from < info_min info \<or> to > info_max info then Throw (invalidExpr expr
          (''Invalid range ['' @ value @ ''] for field ['' @ fld_name field @
           '']. From or to value is out of allowed min/max values. Allowed values are between ['' @
           show_int (info_min info) @ ''-'' @ show_int (info_max info) @ ''].''))
        else Ok \<lparr>r_from = from, r_to = to\<rparr>)))"

text \<open>\<open>xs = xs || []; xs.push(x)\<close>.\<close>

definition push_opt :: "'a list option \<Rightarrow> 'a \<Rightarrow> 'a list option" where
  [cron_defs]: "push_opt xs x = Some ((case xs of None \<Rightarrow> [] | Some ys \<Rightarrow> ys) @ [x])"

text \<open>\<open>xs || []\<close>.\<close>

definition opt_list :: "'a list option \<Rightarrow> 'a list" where
  [cron_defs]: "opt_list xs = (case xs of None \<Rightarrow> [] | Some ys \<Rightarrow> ys)"

text \<open>The body of the loop over the comma-separated parts of a field.\<close>

definition parsePart :: "string \<Rightarrow> fld \<Rightarrow> string \<Rightarrow> cron_field \<Rightarrow> cron_field res" where
  [cron_defs]: "parsePart expr field part parsed =
     (if part = [] then Ok parsed
      else if has_char (CHR ''/'') part then
        rbind (parseStepRange expr field part)
          (\<lambda>x. Ok (parsed\<lparr>f_steps := push_opt (f_steps parsed) x\<rparr>))
      else if has_char (CHR ''-'') part then
        rbind (parseRange expr field part)
          (\<lambda>x. Ok (parsed\<lparr>f_ranges := push_opt (f_ranges parsed) x\<rparr>))
      else if has_char (CHR ''#'') part then
        rbind (parseNth expr field part)
          (\<lambda>x. Ok (parsed\<lparr>f_nthDays := push_opt (f_nthDays parsed) x\<rparr>))
      else if part = ''l'' then
        rbind (parseL expr field part) (\<lambda>x. Ok (parsed\<lparr>f_lastDay := x\<rparr>))
      else if part = ''lw'' then
        rbind (parseLW expr field part) (\<lambda>x. Ok (parsed\<lparr>f_lastWeekday := x\<rparr>))
      else if field = DAY_OF_MONTH \<and> has_char (CHR ''w'') part then
        rbind (parseNearestWeekday expr field part)
          (\<lambda>x. Ok (parsed\<lparr>f_nearestWeekdays := push_opt (f_nearestWeekdays parsed) x\<rparr>))
      else if field = DAY_OF_WEEK \<and> ends_with_char (CHR ''l'') part then
        rbind (parseLastDays expr field part)
          (\<lambda>x. Ok (parsed\<lparr>f_lastDays := push_opt (f_lastDays parsed) x\<rparr>))
      else
        rbind (parseValue expr field part)
          (\<lambda>x. Ok (parsed\<lparr>f_values := push_opt (f_values parsed) x\<rparr>)))"

definition parseField :: "string \<Rightarrow> fld \<Rightarrow> string \<Rightarrow> cron_field res" where
  [cron_defs]: "parseField expr field value0 =
     (let value = trim (toLowerCase value0) in
      if value = ''*'' then Ok (empty_field\<lparr>f_all := True\<rparr>)
      else if value = ''?'' then parseQ expr field value
      else rbind (foldM (parsePart expr field) (splitAndCleanup value (CHR '','')) empty_field)
        (\<lambda>parsed. Ok (parsed\<lparr>f_values := map_option dedupe (f_values parsed)\<rparr>)))"

subsection \<open>Expressions\<close>

text \<open>The fields an expression may leave out, filled in.\<close>

definition complete_parts :: "bool \<Rightarrow> string list \<Rightarrow> string list" where
  [cron_defs]: "complete_parts hasSeconds parts =
     (let p1 = (if hasSeconds then parts else ''0'' # parts);
          p2 = (if length p1 = 5 then p1 @ [''?''] else p1)
      in if length p2 = 6 then p2 @ [''*''] else p2)"

text \<open>The body of the loop that parses the fields one after the other.\<close>

definition parse_one :: "string \<Rightarrow> bool \<Rightarrow> fld \<times> string \<Rightarrow> cron_expr \<Rightarrow> cron_expr res" where
  [cron_defs]: "parse_one expr hasSeconds fp parsed =
     (let field = fst fp in
      if field = SECOND \<and> \<not> hasSeconds
      then Ok (parsed(field := empty_field\<lparr>f_omit := True\<rparr>))
      else rbind (parseField expr field (snd fp)) (\<lambda>p. Ok (parsed(field := p))))"

definition parseExpr :: "string \<Rightarrow> bool \<Rightarrow> cron_expr res" where
  [cron_defs]: "parseExpr expr hasSeconds0 =
     (if expr = [] then Throw (Error ''Cron expression cannot be blank'')
      else
        let predefined = map_of PREDEFINED_EXPRS expr;
            exprInternal = (case predefined of None \<Rightarrow> expr | Some e \<Rightarrow> e);
            hasSeconds = (predefined = None \<and> hasSeconds0);
            minFields = (if hasSeconds then 5 else 4);
            maxFields = (if hasSeconds then 7 else 6);
            parts = filter (\<lambda>part. part \<noteq> []) (map trim (split_spaces exprInternal))
        in if length parts < minFields \<or> length parts > maxFields then
             Throw (Error (''Invalid cron expression ['' @ expr @ '']. Expected ['' @
               show_int (int minFields) @ '' to '' @ show_int (int maxFields) @
               ''] fields but found ['' @ show_int (int (length parts)) @ ''] fields.''))
           else
             let fieldParts = zip FIELDS (complete_parts hasSeconds parts)
             in foldM (parse_one expr hasSeconds) fieldParts (\<lambda>_. empty_field))"

definition parse :: "string \<Rightarrow> opt_value \<Rightarrow> cron_exprs res" where
  [cron_defs]: "parse exprs hasSeconds =
     (if exprs = [] then Throw (Error ''Cron expression cannot be blank'')
      else rbind (mapM (\<lambda>expr. parseExpr expr (isTrue hasSeconds))
                   (splitAndCleanup exprs (CHR ''|'')))
        (\<lambda>es. Ok \<lparr>pattern = exprs, expressions = es\<rparr>))"

subsection \<open>What a parsed expression looks like\<close>

definition wf_value :: "fld \<Rightarrow> int \<Rightarrow> bool" where
  "wf_value f v \<longleftrightarrow> info_min (FIELD_INFO f) \<le> v \<and> v \<le> info_max (FIELD_INFO f)"

definition wf_range :: "fld \<Rightarrow> cron_range \<Rightarrow> bool" where
  "wf_range f r \<longleftrightarrow> info_min (FIELD_INFO f) \<le> r_from r \<and> r_from r < r_to r
     \<and> r_to r \<le> info_max (FIELD_INFO f)"

definition wf_step :: "fld \<Rightarrow> cron_step \<Rightarrow> bool" where
  "wf_step f s \<longleftrightarrow> info_min (FIELD_INFO f) \<le> s_from s \<and> s_to s \<le> info_max (FIELD_INFO f)
     \<and> s_step s \<le> info_max (FIELD_INFO f)"

definition wf_nth :: "nth_day \<Rightarrow> bool" where
  "wf_nth d \<longleftrightarrow> 1 \<le> n_instance d \<and> n_instance d \<le> 5"

definition opt_all :: "('a \<Rightarrow> bool) \<Rightarrow> 'a list option \<Rightarrow> bool" where
  "opt_all P xs \<longleftrightarrow> (case xs of None \<Rightarrow> True | Some ys \<Rightarrow> ys \<noteq> [] \<and> list_all P ys)"

text \<open>Which properties a field may have, and the bounds of what they hold. The last days of the
  week, the nearest weekdays and the day of an nth day are not checked by the parser.\<close>

definition wf_parts :: "fld \<Rightarrow> cron_field \<Rightarrow> bool" where
  "wf_parts f x \<longleftrightarrow>
     opt_all (wf_value f) (f_values x) \<and> opt_all (wf_range f) (f_ranges x) \<and>
     opt_all (wf_step f) (f_steps x) \<and> opt_all wf_nth (f_nthDays x) \<and>
     (f_nthDays x \<noteq> None \<longrightarrow> f = DAY_OF_WEEK) \<and>
     (f_lastDay x \<longrightarrow> f \<in> {DAY_OF_WEEK, DAY_OF_MONTH}) \<and>
     (f_lastWeekday x \<longrightarrow> f = DAY_OF_MONTH) \<and>
     opt_all (\<lambda>_. True) (f_nearestWeekdays x) \<and>
     (f_nearestWeekdays x \<noteq> None \<longrightarrow> f = DAY_OF_MONTH) \<and>
     opt_all (\<lambda>_. True) (f_lastDays x) \<and> (f_lastDays x \<noteq> None \<longrightarrow> f = DAY_OF_WEEK)"

definition wf_field :: "fld \<Rightarrow> cron_field \<Rightarrow> bool" where
  "wf_field f x \<longleftrightarrow> wf_parts f x \<and>
     (f_all x \<longrightarrow> x = empty_field\<lparr>f_all := True\<rparr>) \<and>
     (f_omit x \<longrightarrow> x = empty_field\<lparr>f_omit := True\<rparr> \<and> f \<in> {DAY_OF_WEEK, DAY_OF_MONTH})"

text \<open>An expression: a well-formed value for every field; only the seconds may be left out
  besides the two day fields, and then they are the record \<open>{omit: true}\<close>.\<close>

definition wf_expr :: "cron_expr \<Rightarrow> bool" where
  "wf_expr e \<longleftrightarrow> (\<forall>f. wf_field f (e f) \<or> f = SECOND \<and> e f = empty_field\<lparr>f_omit := True\<rparr>)"

lemma opt_all_push [intro]: "opt_all P xs \<Longrightarrow> P x \<Longrightarrow> opt_all P (push_opt xs x)"
  by (cases xs) (auto simp: opt_all_def push_opt_def)

lemma opt_all_None [simp]: "opt_all P None"
  by (simp add: opt_all_def)

lemma push_opt_not_None [simp]: "push_opt xs x \<noteq> None"
  by (simp add: push_opt_def)

lemma set_dedupe [simp]: "set (dedupe xs) = set xs"
  by (simp add: dedupe_def set_nub_acc)

lemma distinct_dedupe [simp]: "distinct (dedupe xs)"
  by (simp add: dedupe_def distinct_nub_acc)

lemma dedupe_distinct: "distinct xs \<Longrightarrow> dedupe xs = xs"
  by (simp add: dedupe_def nub_acc_distinct)

lemma dedupe_eq_Nil [simp]: "dedupe xs = [] \<longleftrightarrow> xs = []"
  using set_dedupe [of xs] by (metis set_empty)

lemma opt_all_dedupe [simp]: "opt_all P (map_option dedupe xs) \<longleftrightarrow> opt_all P xs"
  by (cases xs) (auto simp: opt_all_def list_all_iff)

text \<open>The errors are of the class \<open>Error\<close>, and no part of the parser loops for ever.\<close>

definition plain_error :: "'a res \<Rightarrow> bool" where
  "plain_error r \<longleftrightarrow> (case r of Ok _ \<Rightarrow> True | Throw e \<Rightarrow> (\<exists>m. e = Error m) | Hang \<Rightarrow> False)"

lemma plain_error_simps [simp]:
  "plain_error (Ok v)" "plain_error (Throw e) \<longleftrightarrow> (\<exists>m. e = Error m)" "\<not> plain_error Hang"
  by (simp_all add: plain_error_def)

lemma plain_error_rbind:
  "plain_error m \<Longrightarrow> (\<And>u. m = Ok u \<Longrightarrow> plain_error (f u)) \<Longrightarrow> plain_error (rbind m f)"
  by (cases m) auto

lemma plain_error_Ok: "plain_error (Ok v)"
  by simp

lemma plain_error_invalidExpr: "plain_error (Throw (invalidExpr e m))"
  by (simp add: invalidExpr_def)

lemma plain_error_Error: "plain_error (Throw (Error m))"
  by simp

lemma plain_error_if:
  "(c \<Longrightarrow> plain_error r) \<Longrightarrow> (\<not> c \<Longrightarrow> plain_error q) \<Longrightarrow> plain_error (if c then r else q)"
  by simp

lemmas plain_intros =
  plain_error_Ok plain_error_rbind plain_error_invalidExpr plain_error_Error plain_error_if

lemma plain_error_foldM:
  "(\<And>x s. x \<in> set xs \<Longrightarrow> plain_error (f x s)) \<Longrightarrow> plain_error (foldM f xs s)"
  by (induction xs arbitrary: s) (auto intro: plain_error_rbind)

lemma plain_error_mapM:
  "(\<And>x. x \<in> set xs \<Longrightarrow> plain_error (f x)) \<Longrightarrow> plain_error (mapM f xs)"
  by (induction xs) (auto intro!: plain_error_rbind)

lemma plain_parseNumber: "plain_error (parseNumber e f v)"
  unfolding parseNumber_def by (cases "parseInt (unalias f v)") (simp_all only: option.case plain_intros)

lemma plain_parts:
  "plain_error (parseValue e f v)" "plain_error (parseRange e f v)"
  "plain_error (parseStepRange e f v)" "plain_error (parseNth e f v)"
  "plain_error (parseNearestWeekday e f v)" "plain_error (parseLastDays e f v)"
  "plain_error (parseL e f v)" "plain_error (parseLW e f v)" "plain_error (parseQ e f v)"
  unfolding parseValue_def parseRange_def parseStepRange_def parseNth_def parseLW_def parseQ_def
    parseNearestWeekday_def parseLastDays_def parseL_def Let_def
  by (intro plain_intros plain_parseNumber)+

lemma plain_parsePart: "plain_error (parsePart e f p x)"
  unfolding parsePart_def by (intro plain_intros plain_parts)

lemma plain_parseField: "plain_error (parseField e f v)"
  unfolding parseField_def Let_def
  by (intro plain_intros plain_parts plain_error_foldM plain_parsePart)

lemma plain_parseExpr: "plain_error (parseExpr e hs)"
  unfolding parseExpr_def parse_one_def Let_def
  by (intro plain_intros plain_error_foldM plain_parseField)

text \<open>Every part keeps the field well formed.\<close>

lemma parseValue_wf: "parseValue e f v = Ok n \<Longrightarrow> wf_value f n"
  by (cases f) (auto simp: parseValue_def wf_value_def FIELD_INFO_def Let_def split: if_splits)

lemma parseRange_wf: "parseRange e f v = Ok r \<Longrightarrow> wf_range f r"
  by (auto simp: parseRange_def wf_range_def Let_def split: if_splits)

lemma parseStepRange_wf: "parseStepRange e f v = Ok s \<Longrightarrow> wf_step f s"
  by (auto simp: parseStepRange_def wf_step_def Let_def split: if_splits)

lemma parseNth_wf: "parseNth e f v = Ok d \<Longrightarrow> wf_nth d \<and> f = DAY_OF_WEEK"
  by (auto simp: parseNth_def wf_nth_def Let_def split: if_splits)

lemma parse_flags:
  "parseL e f v = Ok b \<Longrightarrow> f \<in> {DAY_OF_WEEK, DAY_OF_MONTH}"
  "parseLW e f v = Ok b \<Longrightarrow> f = DAY_OF_MONTH"
  "parseNearestWeekday e f v = Ok n \<Longrightarrow> f = DAY_OF_MONTH"
  by (simp_all add: parseL_def parseLW_def parseNearestWeekday_def)

definition wf_open :: "fld \<Rightarrow> cron_field \<Rightarrow> bool" where
  "wf_open f x \<longleftrightarrow> wf_parts f x \<and> \<not> f_all x \<and> \<not> f_omit x"

lemma wf_open_updates:
  "wf_open f x \<Longrightarrow> wf_value f v \<Longrightarrow> wf_open f (x\<lparr>f_values := push_opt (f_values x) v\<rparr>)"
  "wf_open f x \<Longrightarrow> wf_range f r \<Longrightarrow> wf_open f (x\<lparr>f_ranges := push_opt (f_ranges x) r\<rparr>)"
  "wf_open f x \<Longrightarrow> wf_step f s \<Longrightarrow> wf_open f (x\<lparr>f_steps := push_opt (f_steps x) s\<rparr>)"
  "wf_open f x \<Longrightarrow> wf_nth d \<and> f = DAY_OF_WEEK \<Longrightarrow>
     wf_open f (x\<lparr>f_nthDays := push_opt (f_nthDays x) d\<rparr>)"
  "wf_open f x \<Longrightarrow> f \<in> {DAY_OF_WEEK, DAY_OF_MONTH} \<Longrightarrow> wf_open f (x\<lparr>f_lastDay := b\<rparr>)"
  "wf_open f x \<Longrightarrow> f = DAY_OF_MONTH \<Longrightarrow> wf_open f (x\<lparr>f_lastWeekday := b\<rparr>)"
  "wf_open f x \<Longrightarrow> f = DAY_OF_MONTH \<Longrightarrow>
     wf_open f (x\<lparr>f_nearestWeekdays := push_opt (f_nearestWeekdays x) n\<rparr>)"
  "wf_open f x \<Longrightarrow> f = DAY_OF_WEEK \<Longrightarrow>
     wf_open f (x\<lparr>f_lastDays := push_opt (f_lastDays x) n\<rparr>)"
  "wf_open f x \<Longrightarrow> wf_open f (x\<lparr>f_values := map_option dedupe (f_values x)\<rparr>)"
  by (auto simp: wf_open_def wf_parts_def opt_all_push)

lemma parsePart_wf:
  assumes y: "parsePart e f p x = Ok y" and x: "wf_open f x"
  shows "wf_open f y"
  using y x unfolding parsePart_def
  by (auto split: if_split_asm intro!: wf_open_updates
      dest: parseValue_wf parseRange_wf parseStepRange_wf parseNth_wf parse_flags)

lemma wf_empty_field: "wf_open f empty_field" "wf_field f empty_field"
  by (auto simp: wf_open_def wf_field_def wf_parts_def empty_field_def)

lemma parseField_wf:
  assumes "parseField e f v = Ok x"
  shows "wf_field f x"
proof -
  let ?v = "trim (toLowerCase v)"
  consider "?v = ''*''" | "?v \<noteq> ''*''" "?v = ''?''" | "?v \<noteq> ''*''" "?v \<noteq> ''?''" by blast
  then show ?thesis
  proof cases
    case 1
    with assms show ?thesis by (auto simp: parseField_def Let_def wf_field_def wf_parts_def empty_field_def)
  next
    case 2
    with assms show ?thesis
      by (auto simp: parseField_def Let_def parseQ_def wf_field_def wf_parts_def empty_field_def split: if_splits)
  next
    case 3
    with assms obtain y where
      y: "foldM (parsePart e f) (splitAndCleanup ?v (CHR '','')) empty_field = Ok y"
        "x = y\<lparr>f_values := map_option dedupe (f_values y)\<rparr>"
      by (auto simp: parseField_def Let_def)
    from y(1) have "wf_open f y"
      by (rule foldM_invariant [where P = "wf_open f"]) (auto simp: wf_empty_field dest: parsePart_wf)
    then show ?thesis unfolding y(2) using wf_open_updates(9) by (auto simp: wf_field_def wf_open_def)
  qed
qed

lemma parseExpr_wf:
  assumes "parseExpr e hs = Ok x"
  shows "wf_expr x"
proof -
  from assms obtain ps hs' where "foldM (parse_one e hs') ps (\<lambda>_. empty_field) = Ok x"
    by (auto simp: parseExpr_def Let_def)
  then show ?thesis
  proof (rule foldM_invariant)
    show "wf_expr (\<lambda>_. empty_field)" by (simp add: wf_expr_def wf_empty_field)
  next
    fix fp s t
    assume "wf_expr s" "parse_one e hs' fp s = Ok t"
    then show "wf_expr t"
      by (auto simp: parse_one_def wf_expr_def Let_def dest: parseField_wf split: if_splits)
  qed
qed

end
