(* ===== verification/JsDate.thy ===== *)
theory JsDate
  imports JsString
begin

text \<open>
  The part of the JavaScript \<open>Date\<close> object that the date library calls, as ECMA-262
  defines it over integral time values: the proleptic Gregorian year, month and day of a time
  value, \<open>Date.UTC\<close>, \<open>setUTCFullYear\<close> and the \<open>getUTC\<close> methods, with the
  clipping of time values beyond 8.64e15 milliseconds to \<open>NaN\<close> (\<open>None\<close>).

  The lemmas show that the date fields of a day and the day of the date fields are inverse to
  each other.
\<close>

subsection \<open>Years\<close>

definition leap :: "int \<Rightarrow> bool" where
  [js_defs]: "leap y \<longleftrightarrow> y mod 4 = 0 \<and> (y mod 100 \<noteq> 0 \<or> y mod 400 = 0)"

definition DaysInYear :: "int \<Rightarrow> int" where
  [js_defs]: "DaysInYear y = (if leap y then 366 else 365)"

text \<open>The number of the first day of a year, counted from 1 January 1970.\<close>

definition DayFromYear :: "int \<Rightarrow> int" where
  [js_defs]: "DayFromYear y =
     365 * (y - 1970) + (y - 1969) div 4 - (y - 1901) div 100 + (y - 1601) div 400"

text \<open>The year a day lies in. The standard asks for the largest year that starts no later; the
  estimate by the mean length of a year is at most one year off.\<close>

definition YearFromDay :: "int \<Rightarrow> int" where
  [js_defs]: "YearFromDay d =
     (let y = 1970 + d * 400 div 146097
      in if d < DayFromYear y then y - 1 else if DayFromYear (y + 1) \<le> d then y + 1 else y)"

lemma div_lower: "0 < n \<Longrightarrow> n * (x div n) \<le> (x::int)"
  using mult_div_mod_eq [of n x] pos_mod_sign [of n x] by linarith

lemma div_upper: "0 < n \<Longrightarrow> (x::int) < n * (x div n) + n"
  using mult_div_mod_eq [of n x] pos_mod_bound [of n x] by linarith

lemma div_step:
  fixes x n :: int
  assumes "0 < n"
  shows "(x + 1) div n = x div n + (if (x + 1) mod n = 0 then 1 else 0)"
proof (cases "x mod n + 1 = n")
  case True
  have "x = n * (x div n) + x mod n" by simp
  also have "\<dots> + 1 = n * (x div n + 1)" unfolding distrib_left using True by linarith
  finally have "x + 1 = n * (x div n + 1)" .
  then have "(x + 1) div n = x div n + 1" "(x + 1) mod n = 0" using assms by auto
  then show ?thesis by simp
next
  case False
  then have r: "0 \<le> x mod n + 1" "x mod n + 1 < n"
    using assms pos_mod_bound [of n x] pos_mod_sign [of n x] by linarith+
  have "x + 1 = (x mod n + 1) + n * (x div n)"
    using div_mult_mod_eq [of x n] by (simp add: algebra_simps)
  then have "(x + 1) div n = x div n" "(x + 1) mod n = x mod n + 1"
    using r assms by (metis add.commute add_0 div_mult_self2 div_pos_pos_trivial less_irrefl,
      metis mod_mult_self2 mod_pos_pos_trivial)
  moreover have "x mod n + 1 \<noteq> 0" using assms pos_mod_sign [of n x] by linarith
  ultimately show ?thesis by simp
qed

lemma year_step:
  fixes y k n q :: int
  assumes "0 < n" "k = n * q + 1"
  shows "(y + 1 - k) div n = (y - k) div n + (if y mod n = 0 then 1 else 0)"
proof -
  have "(y - k + 1) mod n = (y + n * (- q)) mod n" using assms(2) by (simp add: algebra_simps)
  also have "\<dots> = y mod n" by (rule mod_mult_self2)
  finally show ?thesis using div_step [OF assms(1), of "y - k"] by (simp add: algebra_simps)
qed

lemma mod_400_100: "(y::int) mod 400 = 0 \<Longrightarrow> y mod 100 = 0"
  and mod_100_4: "(y::int) mod 100 = 0 \<Longrightarrow> y mod 4 = 0"
  by (auto simp: mod_eq_0_iff_dvd intro: dvd_trans [of 100 400 y] dvd_trans [of 4 100 y])

lemma DayFromYear_Suc: "DayFromYear (y + 1) = DayFromYear y + DaysInYear y"
proof -
  note steps = year_step [of 4 1969 492 y] year_step [of 100 1901 19 y]
    year_step [of 400 1601 4 y]
  have steps: "(y + 1 - 1969) div 4 = (y - 1969) div 4 + (if y mod 4 = 0 then 1 else 0)"
    "(y + 1 - 1901) div 100 = (y - 1901) div 100 + (if y mod 100 = 0 then 1 else 0)"
    "(y + 1 - 1601) div 400 = (y - 1601) div 400 + (if y mod 400 = 0 then 1 else 0)"
    by (rule steps; simp)+
  show ?thesis
    unfolding DayFromYear_def DaysInYear_def leap_def steps
    using mod_400_100 [of y] mod_100_4 [of y]
    by (cases "y mod 4 = 0"; cases "y mod 100 = 0"; cases "y mod 400 = 0"; simp)
qed

lemma DaysInYear_bounds: "365 \<le> DaysInYear y" "DaysInYear y \<le> 366"
  by (auto simp: DaysInYear_def)

lemma DayFromYear_mono_step: "DayFromYear y < DayFromYear (y + 1)"
  using DaysInYear_bounds(1) [of y] by (simp add: DayFromYear_Suc)

lemma DayFromYear_le_add: "DayFromYear y + int k \<le> DayFromYear (y + int k)"
proof (induction k)
  case (Suc k)
  then show ?case using DayFromYear_mono_step [of "y + int k"] by (simp add: algebra_simps)
qed simp

lemma DayFromYear_strict_mono: "x < y \<Longrightarrow> DayFromYear x < DayFromYear y"
  using DayFromYear_le_add [of x "nat (y - x)"] by simp

lemma DayFromYear_mono: "x \<le> y \<Longrightarrow> DayFromYear x \<le> DayFromYear y"
  using DayFromYear_strict_mono [of x y] by (cases "x = y") auto

text \<open>The estimate of \<open>YearFromDay\<close> is good to one year.\<close>

lemma DayFromYear_estimate:
  "146097 * (y - 1970) - 800 \<le> 400 * DayFromYear y"
  "400 * DayFromYear y \<le> 146097 * (y - 1970) + 800"
proof -
  define a b c where "a = (y - 1969) div 4" and "b = (y - 1901) div 100" and "c = (y - 1601) div 400"
  note bounds = div_lower [of 4 "y - 1969", folded a_def] div_upper [of 4 "y - 1969", folded a_def]
    div_lower [of 100 "y - 1901", folded b_def] div_upper [of 100 "y - 1901", folded b_def]
    div_lower [of 400 "y - 1601", folded c_def] div_upper [of 400 "y - 1601", folded c_def]
  have d: "DayFromYear y = 365 * (y - 1970) + a - b + c"
    by (simp add: DayFromYear_def a_def b_def c_def)
  show "146097 * (y - 1970) - 800 \<le> 400 * DayFromYear y" using bounds d by simp
  show "400 * DayFromYear y \<le> 146097 * (y - 1970) + 800" using bounds d by simp
qed

lemma YearFromDay_bounds: "DayFromYear (YearFromDay d) \<le> d" "d < DayFromYear (YearFromDay d + 1)"
proof -
  define y where "y = 1970 + d * 400 div 146097"
  have e1: "146097 * (y - 1970) \<le> d * 400"
    using div_lower [of 146097 "d * 400"] by (simp add: y_def)
  have e2: "d * 400 < 146097 * (y - 1970) + 146097"
    using div_upper [of 146097 "d * 400"] by (simp add: y_def)
  have "400 * DayFromYear (y - 1) \<le> 400 * d"
    using DayFromYear_estimate(2) [of "y - 1"] e1 by simp
  then have "DayFromYear (y - 1) \<le> d" by simp
  moreover have "400 * d < 400 * DayFromYear (y + 2)"
    using DayFromYear_estimate(1) [of "y + 2"] e2 by simp
  then have "d < DayFromYear (y + 2)" by simp
  ultimately show "DayFromYear (YearFromDay d) \<le> d" "d < DayFromYear (YearFromDay d + 1)"
    by (auto simp: YearFromDay_def Let_def y_def [symmetric] add.assoc add.commute)
qed

lemma YearFromDay_unique:
  assumes "DayFromYear y \<le> d" "d < DayFromYear (y + 1)"
  shows "YearFromDay d = y"
proof (rule ccontr)
  assume "YearFromDay d \<noteq> y"
  then have "YearFromDay d + 1 \<le> y \<or> y + 1 \<le> YearFromDay d" by linarith
  then show False
    using assms YearFromDay_bounds [of d] DayFromYear_mono [of "YearFromDay d + 1" y]
      DayFromYear_mono [of "y + 1" "YearFromDay d"] by linarith
qed

subsection \<open>Months\<close>

text \<open>The day of the year a month (counted from 0) starts on.\<close>

definition month_start :: "bool \<Rightarrow> int \<Rightarrow> int" where
  [js_defs]: "month_start lp m =
     [0, 31, 59, 90, 120, 151, 181, 212, 243, 273, 304, 334] ! nat m
     + (if lp \<and> 2 \<le> m then 1 else 0)"

definition MonthFromYearDay :: "bool \<Rightarrow> int \<Rightarrow> int" where
  [js_defs]: "MonthFromYearDay lp n =
     (let k = (if lp then 1 else 0) in
      if n < 31 then 0 else if n < 59 + k then 1 else if n < 90 + k then 2
      else if n < 120 + k then 3 else if n < 151 + k then 4 else if n < 181 + k then 5
      else if n < 212 + k then 6 else if n < 243 + k then 7 else if n < 273 + k then 8
      else if n < 304 + k then 9 else if n < 334 + k then 10 else 11)"

definition month_length :: "bool \<Rightarrow> int \<Rightarrow> int" where
  [js_defs]: "month_length lp m =
     (if m = 1 \<and> lp then 29 else [31, 28, 31, 30, 31, 30, 31, 31, 30, 31, 30, 31] ! nat m)"

lemma month_cases:
  fixes m :: int
  assumes "0 \<le> m" "m \<le> 11"
  obtains "m = 0" | "m = 1" | "m = 2" | "m = 3" | "m = 4" | "m = 5" | "m = 6" | "m = 7" | "m = 8"
    | "m = 9" | "m = 10" | "m = 11"
proof -
  have "m = 0 \<or> m = 1 \<or> m = 2 \<or> m = 3 \<or> m = 4 \<or> m = 5 \<or> m = 6 \<or> m = 7 \<or> m = 8 \<or> m = 9
    \<or> m = 10 \<or> m = 11"
    using assms by presburger
  then show ?thesis using that by blast
qed

lemmas month_eval = month_start_def month_length_def MonthFromYearDay_def Let_def

lemma MonthFromYearDay_range: "0 \<le> MonthFromYearDay lp n" "MonthFromYearDay lp n \<le> 11"
  by (auto simp: MonthFromYearDay_def Let_def)

lemma MonthFromYearDay_start:
  assumes "0 \<le> m" "m \<le> 11" "0 \<le> d" "d < month_length lp m"
  shows "MonthFromYearDay lp (month_start lp m + d) = m"
  using assms(1,2) by (cases rule: month_cases; cases lp) (use assms(3,4) in \<open>simp_all add: month_eval\<close>)

lemma month_of_day:
  assumes "0 \<le> n" "n < (if lp then 366 else 365)" and m: "m = MonthFromYearDay lp n"
  shows "month_start lp m \<le> n \<and> n < month_start lp m + month_length lp m"
proof -
  have "0 \<le> m" "m \<le> 11" using MonthFromYearDay_range m by auto
  then show ?thesis
    using assms by (cases rule: month_cases)
      (cases lp; simp add: MonthFromYearDay_def month_start_def month_length_def Let_def
        split: if_split_asm)+
qed

lemma month_length_bounds:
  assumes "0 \<le> m" "m \<le> 11"
  shows "28 \<le> month_length lp m" "month_length lp m \<le> 31"
  using assms by (cases rule: month_cases; simp add: month_eval)+

lemma month_start_bounds:
  assumes "0 \<le> m" "m \<le> 11"
  shows "0 \<le> month_start lp m" "month_start lp m + month_length lp m \<le> (if lp then 366 else 365)"
  using assms by (cases rule: month_cases; simp add: month_eval)+

subsection \<open>Days\<close>

text \<open>\<open>MakeDay\<close>: the day number of a date whose month (counted from 0) and day may lie
  outside their ranges; the month carries into the year, the day is added up.\<close>

definition MakeDay :: "int \<Rightarrow> int \<Rightarrow> int \<Rightarrow> int" where
  [js_defs]: "MakeDay y m d =
     (let ym = y + m div 12; mn = m mod 12
      in DayFromYear ym + month_start (leap ym) mn + (d - 1))"

definition MonthFromDay :: "int \<Rightarrow> int" where
  [js_defs]: "MonthFromDay n =
     (let y = YearFromDay n in MonthFromYearDay (leap y) (n - DayFromYear y))"

definition DateFromDay :: "int \<Rightarrow> int" where
  [js_defs]: "DateFromDay n =
     (let y = YearFromDay n; k = n - DayFromYear y
      in k - month_start (leap y) (MonthFromYearDay (leap y) k) + 1)"

text \<open>0 is Sunday.\<close>

definition WeekDay :: "int \<Rightarrow> int" where
  [js_defs]: "WeekDay n = (n + 4) mod 7"

text \<open>A calendar date: the month from 0, the day from 1.\<close>

definition valid_ymd :: "int \<Rightarrow> int \<Rightarrow> int \<Rightarrow> bool" where
  "valid_ymd y m d \<longleftrightarrow> 0 \<le> m \<and> m \<le> 11 \<and> 1 \<le> d \<and> d \<le> month_length (leap y) m"

lemma valid_ymdD:
  assumes "valid_ymd y m d"
  shows "0 \<le> m" "m \<le> 11" "1 \<le> d" "d \<le> month_length (leap y) m"
  using assms by (auto simp: valid_ymd_def)

lemma valid_ymd_MakeDay:
  assumes "valid_ymd y m d"
  shows "MakeDay y m d = DayFromYear y + month_start (leap y) m + (d - 1)"
  using valid_ymdD [OF assms] by (simp add: MakeDay_def Let_def)

lemma MakeDay_in_year:
  assumes "valid_ymd y m d"
  shows "DayFromYear y \<le> MakeDay y m d" "MakeDay y m d < DayFromYear (y + 1)"
  using valid_ymdD [OF assms] month_start_bounds [of m "leap y"] valid_ymd_MakeDay [OF assms]
  by (auto simp: DayFromYear_Suc DaysInYear_def split: if_splits)

lemma YearFromDay_MakeDay [simp]: "valid_ymd y m d \<Longrightarrow> YearFromDay (MakeDay y m d) = y"
  by (rule YearFromDay_unique) (simp_all add: MakeDay_in_year)

lemma MonthFromDay_MakeDay [simp]:
  assumes "valid_ymd y m d"
  shows "MonthFromDay (MakeDay y m d) = m"
proof -
  have "MonthFromYearDay (leap y) (month_start (leap y) m + (d - 1)) = m"
    using valid_ymdD [OF assms] by (intro MonthFromYearDay_start) auto
  moreover have "MakeDay y m d - DayFromYear y = month_start (leap y) m + (d - 1)"
    using assms by (simp add: valid_ymd_MakeDay)
  ultimately show ?thesis using assms by (simp add: MonthFromDay_def Let_def)
qed

lemma DateFromDay_MakeDay [simp]:
  assumes "valid_ymd y m d"
  shows "DateFromDay (MakeDay y m d) = d"
proof -
  have "MonthFromYearDay (leap y) (month_start (leap y) m + (d - 1)) = m"
    using valid_ymdD [OF assms] by (intro MonthFromYearDay_start) auto
  moreover have "MakeDay y m d - DayFromYear y = month_start (leap y) m + (d - 1)"
    using assms by (simp add: valid_ymd_MakeDay)
  ultimately show ?thesis using assms by (simp add: DateFromDay_def Let_def)
qed

text \<open>Every day is the day of its date fields, and these are a calendar date.\<close>

lemma fields_of_day:
  fixes n defines "y \<equiv> YearFromDay n"
  shows "valid_ymd y (MonthFromDay n) (DateFromDay n)"
    and "MakeDay y (MonthFromDay n) (DateFromDay n) = n"
proof -
  define k where "k = n - DayFromYear y"
  define m where "m = MonthFromYearDay (leap y) k"
  have k: "0 \<le> k" "k < (if leap y then 366 else 365)"
    using YearFromDay_bounds [of n] DayFromYear_Suc [of y]
    by (auto simp: k_def y_def DaysInYear_def)
  have m: "0 \<le> m" "m \<le> 11" using MonthFromYearDay_range by (auto simp: m_def)
  have md: "month_start (leap y) m \<le> k" "k < month_start (leap y) m + month_length (leap y) m"
    using month_of_day [OF k m_def] by auto
  have *: "MonthFromDay n = m" "DateFromDay n = k - month_start (leap y) m + 1"
    by (simp_all add: MonthFromDay_def DateFromDay_def Let_def m_def k_def y_def)
  show v: "valid_ymd y (MonthFromDay n) (DateFromDay n)"
    using m md by (simp add: valid_ymd_def *)
  show "MakeDay y (MonthFromDay n) (DateFromDay n) = n"
    using valid_ymd_MakeDay [OF v] by (simp add: * k_def)
qed

lemma WeekDay_range: "0 \<le> WeekDay n" "WeekDay n < 7"
  by (auto simp: WeekDay_def)

subsection \<open>Time values\<close>

definition msPerDay :: int where
  [js_defs]: "msPerDay = 86400000"

definition MakeTime :: "int \<Rightarrow> int \<Rightarrow> int \<Rightarrow> int \<Rightarrow> int" where
  [js_defs]: "MakeTime h mi s ms = h * 3600000 + mi * 60000 + s * 1000 + ms"

definition MakeDate :: "int \<Rightarrow> int \<Rightarrow> int" where
  [js_defs]: "MakeDate day time = day * msPerDay + time"

definition TimeClip :: "int \<Rightarrow> int option" where
  [js_defs]: "TimeClip t = (if \<bar>t\<bar> \<le> 8640000000000000 then Some t else None)"

text \<open>\<open>Date.UTC\<close> reads a year from 0 to 99 as 1900 to 1999.\<close>

definition Date_UTC :: "int \<Rightarrow> int \<Rightarrow> int \<Rightarrow> int \<Rightarrow> int \<Rightarrow> int \<Rightarrow> int \<Rightarrow> int option" where
  [js_defs]: "Date_UTC y m d h mi s ms =
     (let yr = (if 0 \<le> y \<and> y \<le> 99 then 1900 + y else y)
      in TimeClip (MakeDate (MakeDay yr m d) (MakeTime h mi s ms)))"

definition getUTCFullYear :: "int \<Rightarrow> int" where
  [js_defs]: "getUTCFullYear t = YearFromDay (t div msPerDay)"

definition getUTCMonth :: "int \<Rightarrow> int" where
  [js_defs]: "getUTCMonth t = MonthFromDay (t div msPerDay)"

definition getUTCDate :: "int \<Rightarrow> int" where
  [js_defs]: "getUTCDate t = DateFromDay (t div msPerDay)"

definition getUTCDay :: "int \<Rightarrow> int" where
  [js_defs]: "getUTCDay t = WeekDay (t div msPerDay)"

definition getUTCHours :: "int \<Rightarrow> int" where
  [js_defs]: "getUTCHours t = (t div 3600000) mod 24"

definition getUTCMinutes :: "int \<Rightarrow> int" where
  [js_defs]: "getUTCMinutes t = (t div 60000) mod 60"

definition getUTCSeconds :: "int \<Rightarrow> int" where
  [js_defs]: "getUTCSeconds t = (t div 1000) mod 60"

definition getUTCMilliseconds :: "int \<Rightarrow> int" where
  [js_defs]: "getUTCMilliseconds t = t mod 1000"

text \<open>\<open>d.setUTCFullYear(y)\<close> keeps the month, the day and the time of the day.\<close>

definition setUTCFullYear :: "int \<Rightarrow> int \<Rightarrow> int option" where
  [js_defs]: "setUTCFullYear t y =
     TimeClip (MakeDate (MakeDay y (getUTCMonth t) (getUTCDate t)) (t mod msPerDay))"

definition valid_hms :: "int \<Rightarrow> int \<Rightarrow> int \<Rightarrow> int \<Rightarrow> bool" where
  "valid_hms h mi s ms \<longleftrightarrow>
     0 \<le> h \<and> h \<le> 23 \<and> 0 \<le> mi \<and> mi \<le> 59 \<and> 0 \<le> s \<and> s \<le> 59 \<and> 0 \<le> ms \<and> ms \<le> 999"

lemma MakeTime_range:
  assumes "valid_hms h mi s ms"
  shows "0 \<le> MakeTime h mi s ms" "MakeTime h mi s ms < msPerDay"
  using assms by (auto simp: valid_hms_def MakeTime_def msPerDay_def)

lemma MakeDate_div_mod:
  assumes "0 \<le> t" "t < msPerDay"
  shows "MakeDate n t div msPerDay = n" "MakeDate n t mod msPerDay = t"
  using assms by (auto simp: MakeDate_def msPerDay_def)

lemma mod_add_small: "0 \<le> r \<Longrightarrow> r < n \<Longrightarrow> (n * k + r) mod n = (r::int)"
  by (simp add: mod_mult_self4)

lemma time_fields_MakeDate:
  assumes "valid_hms h mi s ms"
  shows "getUTCHours (MakeDate n (MakeTime h mi s ms)) = h"
    "getUTCMinutes (MakeDate n (MakeTime h mi s ms)) = mi"
    "getUTCSeconds (MakeDate n (MakeTime h mi s ms)) = s"
    "getUTCMilliseconds (MakeDate n (MakeTime h mi s ms)) = ms"
proof -
  let ?t = "MakeDate n (MakeTime h mi s ms)"
  have h: "?t = (24 * n + h) * 3600000 + (mi * 60000 + s * 1000 + ms)"
    and m: "?t = (60 * (24 * n + h) + mi) * 60000 + (s * 1000 + ms)"
    and s: "?t = (60 * (60 * (24 * n + h) + mi) + s) * 1000 + ms"
    by (simp_all add: MakeDate_def MakeTime_def msPerDay_def)
  note v = assms [unfolded valid_hms_def]
  have "?t div 3600000 = 24 * n + h" unfolding h using v by (subst div_mult_self3) auto
  then show "getUTCHours ?t = h" unfolding getUTCHours_def
    by (simp only:) (use v in \<open>intro mod_add_small; linarith\<close>)
  have "?t div 60000 = 60 * (24 * n + h) + mi" unfolding m using v by (subst div_mult_self3) auto
  then show "getUTCMinutes ?t = mi" unfolding getUTCMinutes_def
    by (simp only:) (use v in \<open>intro mod_add_small; linarith\<close>)
  have "?t div 1000 = 60 * (60 * (24 * n + h) + mi) + s"
    unfolding s using v by (subst div_mult_self3) auto
  then show "getUTCSeconds ?t = s" unfolding getUTCSeconds_def
    by (simp only:) (use v in \<open>intro mod_add_small; linarith\<close>)
  have "?t = 1000 * (60 * (60 * (24 * n + h) + mi) + s) + ms" unfolding s by simp
  then show "getUTCMilliseconds ?t = ms" unfolding getUTCMilliseconds_def
    by (simp only:) (use v in \<open>intro mod_add_small; linarith\<close>)
qed

lemma mod_le: "0 < n \<Longrightarrow> n = k + 1 \<Longrightarrow> (x::int) mod n \<le> k"
  using pos_mod_bound [of n x] by linarith

lemma time_fields_valid:
  "valid_hms (getUTCHours t) (getUTCMinutes t) (getUTCSeconds t) (getUTCMilliseconds t)"
  by (simp add: valid_hms_def getUTCHours_def getUTCMinutes_def getUTCSeconds_def
      getUTCMilliseconds_def mod_le)

text \<open>A time value is made of its fields.\<close>

lemma MakeTime_fields:
  "MakeTime (getUTCHours t) (getUTCMinutes t) (getUTCSeconds t) (getUTCMilliseconds t)
   = t mod msPerDay"
proof -
  have a: "t div 60000 = t div 1000 div 60" "t div 3600000 = t div 60000 div 60"
    "t div msPerDay = t div 3600000 div 24"
    by (simp_all add: div_mult2_eq [symmetric] zdiv_zmult2_eq [symmetric] msPerDay_def)
  note parts = mult_div_mod_eq [of 1000 t] mult_div_mod_eq [of 60 "t div 1000", folded a]
    mult_div_mod_eq [of 60 "t div 60000", folded a] mult_div_mod_eq [of 24 "t div 3600000", folded a]
    mult_div_mod_eq [of msPerDay t]
  have "msPerDay * (t div msPerDay) = 86400000 * (t div msPerDay)" by (simp add: msPerDay_def)
  with parts show ?thesis
    unfolding MakeTime_def getUTCHours_def getUTCMinutes_def getUTCSeconds_def
      getUTCMilliseconds_def by linarith
qed

lemma MakeDate_fields:
  "MakeDate (MakeDay (getUTCFullYear t) (getUTCMonth t) (getUTCDate t))
     (MakeTime (getUTCHours t) (getUTCMinutes t) (getUTCSeconds t) (getUTCMilliseconds t)) = t"
  unfolding MakeTime_fields
  using fields_of_day(2) [of "t div msPerDay"]
  by (simp add: getUTCFullYear_def getUTCMonth_def getUTCDate_def MakeDate_def)

lemma TimeClip_Some_iff [simp]: "TimeClip t = Some u \<longleftrightarrow> u = t \<and> \<bar>t\<bar> \<le> 8640000000000000"
  by (auto simp: TimeClip_def)

end
