(* ===== verification/LuxonUtil.thy ===== *)
theory LuxonUtil
  imports Complex_Main JsDate "HOL-Library.AList"
begin

text \<open>
  The helpers of the date library of \<open>ui/js/bundle.js\<close> (module 6, luxon): numbers and
  strings, the calendar arithmetic of the Gregorian calendar, the English names, and the
  conversions between year-month-day, ISO week and ordinal dates.

  A JavaScript object keyed by calendar units is a map \<open>obj\<close>; \<open>None\<close> is \<open>undefined\<close>. A
  number that can be \<open>NaN\<close> is an option with \<open>NaN\<close> as \<open>None\<close>. Calendar units are
  integers. Quantities that the code divides are rational numbers, without the rounding of doubles.
\<close>

subsection \<open>Values\<close>

text \<open>What an options or units object may hold under a key. (Strings, which \<open>Number\<close> would
  convert, are not modelled.)\<close>

datatype 'n uval = VUndefined | VNull | VBool bool | VNaN | VNum 'n

definition isUndefined :: "'n uval \<Rightarrow> bool" where
  [luxon_defs]: "isUndefined o' = (case o' of VUndefined \<Rightarrow> True | _ \<Rightarrow> False)"

definition isNumber :: "'n uval \<Rightarrow> bool" where
  [luxon_defs]: "isNumber o' = (case o' of VNaN \<Rightarrow> True | VNum _ \<Rightarrow> True | _ \<Rightarrow> False)"

datatype dtunit = UYear | UMonth | UDay | UHour | UMinute | UQuarter | USecond | UMillisecond
  | UWeekday | UWeekNumber | UWeekYear | UOrdinal

type_synonym obj = "dtunit \<Rightarrow> int option"

text \<open>The calendar fields of a point in time, as \<open>tsToObj\<close> builds them.\<close>

record cal =
  c_year :: int
  c_month :: int
  c_day :: int
  c_hour :: int
  c_minute :: int
  c_second :: int
  c_millisecond :: int

definition obj_of_cal :: "cal \<Rightarrow> obj" where
  [luxon_defs]: "obj_of_cal c = [UYear \<mapsto> c_year c, UMonth \<mapsto> c_month c, UDay \<mapsto> c_day c,
     UHour \<mapsto> c_hour c, UMinute \<mapsto> c_minute c, USecond \<mapsto> c_second c,
     UMillisecond \<mapsto> c_millisecond c]"

definition floorMod :: "int \<Rightarrow> int \<Rightarrow> int" where
  [luxon_defs]: "floorMod x n = x - n * (x div n)"

text \<open>The remainder operator of JavaScript takes the sign of the dividend.\<close>

definition js_rem :: "int \<Rightarrow> int \<Rightarrow> int" where
  [luxon_defs]: "js_rem a b = sgn a * (\<bar>a\<bar> mod \<bar>b\<bar>)"

definition js_trunc :: "rat \<Rightarrow> int" where
  [luxon_defs]: "js_trunc x = (if 0 \<le> x then \<lfloor>x\<rfloor> else \<lceil>x\<rceil>)"

definition integerBetween :: "int option \<Rightarrow> int \<Rightarrow> int \<Rightarrow> bool" where
  [luxon_defs]: "integerBetween thing lo hi =
     (case thing of None \<Rightarrow> False | Some n \<Rightarrow> lo \<le> n \<and> n \<le> hi)"

definition pick :: "obj \<Rightarrow> dtunit list \<Rightarrow> obj" where
  [luxon_defs]: "pick ob keys = fold (\<lambda>k a. a(k := ob k)) keys Map.empty"

definition padStart :: "int \<Rightarrow> nat \<Rightarrow> string" where
  [luxon_defs]: "padStart input n =
     (if input < 0 then ''-'' @ pad_start (show_int (- input)) n (CHR ''0'')
      else pad_start (show_int input) n (CHR ''0''))"

definition parseInteger :: "string option \<Rightarrow> int uval" where
  [luxon_defs]: "parseInteger s = (case s of None \<Rightarrow> VUndefined
     | Some t \<Rightarrow> if t = [] then VUndefined
                 else (case parseInt t of None \<Rightarrow> VNaN | Some n \<Rightarrow> VNum n))"

text \<open>\<open>parseFloat("0." + fraction) * 1000\<close> rounded down: \<open>parseFloat\<close> reads the leading digits of
  the fraction.\<close>

definition parseMillis :: "string option \<Rightarrow> int uval" where
  [luxon_defs]: "parseMillis fraction = (case fraction of None \<Rightarrow> VUndefined
     | Some t \<Rightarrow> if t = [] then VUndefined
                 else let ds = takeWhile is_digit t in
                   VNum \<lfloor>(of_nat (digits_val 0 ds) / 10 ^ length ds :: rat) * 1000\<rfloor>)"

definition roundTo :: "rat \<Rightarrow> nat \<Rightarrow> bool \<Rightarrow> rat" where
  [luxon_defs]: "roundTo number digits towardZero =
     (let factor = 10 ^ digits in
      of_int (if towardZero then js_trunc (number * factor) else \<lfloor>number * factor + 1 / 2\<rfloor>)
        / factor)"

subsection \<open>Calendar arithmetic\<close>

definition isLeapYear :: "int \<Rightarrow> bool" where
  [luxon_defs]: "isLeapYear year \<longleftrightarrow>
     js_rem year 4 = 0 \<and> (js_rem year 100 \<noteq> 0 \<or> js_rem year 400 = 0)"

definition daysInYear :: "int \<Rightarrow> int" where
  [luxon_defs]: "daysInYear year = (if isLeapYear year then 366 else 365)"

definition daysInMonth :: "int \<Rightarrow> int \<Rightarrow> int" where
  [luxon_defs]: "daysInMonth year month =
     (let modMonth = floorMod (month - 1) 12 + 1;
          modYear = year + (month - modMonth) div 12
      in if modMonth = 2 then (if isLeapYear modYear then 29 else 28)
         else [31, 0, 31, 30, 31, 30, 31, 31, 30, 31, 30, 31] ! nat (modMonth - 1))"

text \<open>The time stamp of a calendar object read as UTC. \<open>Date.UTC\<close> moves the years 0 to 99 to the
  twentieth century; the code moves the result back. A missing unit makes the result \<open>NaN\<close>.\<close>

definition localTS :: "int \<Rightarrow> int \<Rightarrow> int \<Rightarrow> int \<Rightarrow> int \<Rightarrow> int \<Rightarrow> int \<Rightarrow> int option" where
  [luxon_defs]: "localTS y m d h mi s ms =
     (let t = Date_UTC y (m - 1) d h mi s ms in
      if y < 100 \<and> y \<ge> 0
      then Option.bind t (\<lambda>t. setUTCFullYear t (getUTCFullYear t - 1900)) else t)"

definition objToLocalTS :: "obj \<Rightarrow> int option" where
  [luxon_defs]: "objToLocalTS ob =
     Option.bind (ob UYear) (\<lambda>y. Option.bind (ob UMonth) (\<lambda>m. Option.bind (ob UDay) (\<lambda>d.
     Option.bind (ob UHour) (\<lambda>h. Option.bind (ob UMinute) (\<lambda>mi. Option.bind (ob USecond) (\<lambda>s.
     Option.bind (ob UMillisecond) (\<lambda>ms. localTS y m d h mi s ms)))))))"

definition weeksInWeekYear :: "int \<Rightarrow> int" where
  [luxon_defs]: "weeksInWeekYear weekYear =
     (let p1 = js_rem (weekYear + weekYear div 4 - weekYear div 100 + weekYear div 400) 7;
          last = weekYear - 1;
          p2 = js_rem (last + last div 4 - last div 100 + last div 400) 7
      in if p1 = 4 \<or> p2 = 3 then 53 else 52)"

definition untruncateYear :: "int \<Rightarrow> int" where
  [luxon_defs]: "untruncateYear year =
     (if year > 99 then year else if year > 60 then 1900 + year else 2000 + year)"

text \<open>\<open>signedOffset('-5', '30')\<close> is -330; the sign of \<open>-0\<close> counts.\<close>

definition signedOffset :: "string option \<Rightarrow> string option \<Rightarrow> int" where
  [luxon_defs]: "signedOffset offHourStr offMinuteStr =
     (let hr = Option.bind offHourStr scan_int;
          neg = (case hr of None \<Rightarrow> False | Some (sg, _) \<Rightarrow> sg);
          offHour = (case hr of None \<Rightarrow> 0 | Some (sg, n) \<Rightarrow> if sg then - int n else int n);
          offMin = (case Option.bind offMinuteStr parseInt of None \<Rightarrow> 0 | Some n \<Rightarrow> n);
          offMinSigned = (if neg then - offMin else offMin)
      in offHour * 60 + offMinSigned)"

subsection \<open>Coercion\<close>

definition show_uval :: "'n uval \<Rightarrow> string" where
  [luxon_defs]: "show_uval v = (case v of VUndefined \<Rightarrow> ''undefined'' | VNull \<Rightarrow> ''null''
     | VBool b \<Rightarrow> (if b then ''true'' else ''false'') | VNaN \<Rightarrow> ''NaN'' | VNum _ \<Rightarrow> ''number'')"

text \<open>\<open>Number(null)\<close> is 0.\<close>

definition asNumber :: "'n::zero uval \<Rightarrow> 'n res" where
  [luxon_defs]: "asNumber value = (case value of VNum n \<Rightarrow> Ok n | VNull \<Rightarrow> Ok 0
     | _ \<Rightarrow> Throw (InvalidArgumentError (''Invalid unit value '' @ show_uval value)))"

text \<open>The properties of an object come in the order in which they were set first; setting one again
  keeps its place (\<open>AList.update\<close>).\<close>

definition normalizeObject ::
  "(string \<times> 'n::zero uval) list \<Rightarrow> (string \<Rightarrow> 'u res) \<Rightarrow> ('u \<times> 'n) list res" where
  [luxon_defs]: "normalizeObject ob normalizer =
     foldM (\<lambda>(u, v) normalized.
        if v = VUndefined \<or> v = VNull then Ok normalized
        else rbind (normalizer u) (\<lambda>key. rbind (asNumber v) (\<lambda>n. Ok (AList.update key n normalized))))
      ob []"

text \<open>The formats are \<open>"short"\<close> (+05:30), \<open>"narrow"\<close> (+5:30) and \<open>"techie"\<close> (+0530).\<close>

definition formatOffset :: "rat \<Rightarrow> string \<Rightarrow> string res" where
  [luxon_defs]: "formatOffset offset format =
     (let hours = \<lfloor>\<bar>offset / 60\<bar>\<rfloor>;
          minutes = \<lfloor>\<bar>offset\<bar> - 60 * of_int \<lfloor>\<bar>offset\<bar> / 60\<rfloor>\<rfloor>;
          sg = (if offset \<ge> 0 then ''+'' else ''-'')
      in if format = ''short'' then Ok (sg @ padStart hours 2 @ '':'' @ padStart minutes 2)
         else if format = ''narrow'' then
           Ok (sg @ show_int hours @ (if minutes > 0 then '':'' @ show_int minutes else ''''))
         else if format = ''techie'' then Ok (sg @ padStart hours 2 @ padStart minutes 2)
         else Throw (RangeError (''Value format '' @ format @
           '' is out of range for property format'')))"

definition timeObject :: "obj \<Rightarrow> obj" where
  [luxon_defs]: "timeObject ob = pick ob [UHour, UMinute, USecond, UMillisecond]"

subsection \<open>English names\<close>

definition monthsLong :: "string list" where
  [luxon_defs]: "monthsLong = [''January'', ''February'', ''March'', ''April'', ''May'', ''June'',
     ''July'', ''August'', ''September'', ''October'', ''November'', ''December'']"

definition monthsShort :: "string list" where
  [luxon_defs]: "monthsShort = [''Jan'', ''Feb'', ''Mar'', ''Apr'', ''May'', ''Jun'', ''Jul'',
     ''Aug'', ''Sep'', ''Oct'', ''Nov'', ''Dec'']"

definition monthsNarrow :: "string list" where
  [luxon_defs]: "monthsNarrow = [''J'', ''F'', ''M'', ''A'', ''M'', ''J'', ''J'', ''A'', ''S'',
     ''O'', ''N'', ''D'']"

definition months :: "string \<Rightarrow> string list option" where
  [luxon_defs]: "months len =
     (if len = ''narrow'' then Some monthsNarrow
      else if len = ''short'' then Some monthsShort
      else if len = ''long'' then Some monthsLong
      else if len = ''numeric'' then Some [''1'', ''2'', ''3'', ''4'', ''5'', ''6'', ''7'', ''8'',
        ''9'', ''10'', ''11'', ''12'']
      else if len = ''2-digit'' then Some [''01'', ''02'', ''03'', ''04'', ''05'', ''06'', ''07'',
        ''08'', ''09'', ''10'', ''11'', ''12'']
      else None)"

definition weekdaysLong :: "string list" where
  [luxon_defs]: "weekdaysLong = [''Monday'', ''Tuesday'', ''Wednesday'', ''Thursday'', ''Friday'',
     ''Saturday'', ''Sunday'']"

definition weekdaysShort :: "string list" where
  [luxon_defs]: "weekdaysShort = [''Mon'', ''Tue'', ''Wed'', ''Thu'', ''Fri'', ''Sat'', ''Sun'']"

definition weekdaysNarrow :: "string list" where
  [luxon_defs]: "weekdaysNarrow = [''M'', ''T'', ''W'', ''T'', ''F'', ''S'', ''S'']"

definition weekdays :: "string \<Rightarrow> string list option" where
  [luxon_defs]: "weekdays len =
     (if len = ''narrow'' then Some weekdaysNarrow
      else if len = ''short'' then Some weekdaysShort
      else if len = ''long'' then Some weekdaysLong
      else if len = ''numeric'' then Some [''1'', ''2'', ''3'', ''4'', ''5'', ''6'', ''7'']
      else None)"

definition meridiems :: "string list" where
  [luxon_defs]: "meridiems = [''AM'', ''PM'']"

definition eras :: "string \<Rightarrow> string list option" where
  [luxon_defs]: "eras len =
     (if len = ''narrow'' then Some [''B'', ''A'']
      else if len = ''short'' then Some [''BC'', ''AD'']
      else if len = ''long'' then Some [''Before Christ'', ''Anno Domini'']
      else None)"

subsection \<open>Week dates and ordinal dates\<close>

text \<open>\<open>new Invalid(reason, explanation)\<close>.\<close>

datatype invalid = Invalid (reason: string) (explanation: "string option")

definition toMessage :: "invalid \<Rightarrow> string" where
  [luxon_defs]: "toMessage i = (case explanation i of
     Some e \<Rightarrow> if e = [] then reason i else reason i @ '': '' @ e | None \<Rightarrow> reason i)"

definition nonLeapLadder :: "int list" where
  [luxon_defs]: "nonLeapLadder = [0, 31, 59, 90, 120, 151, 181, 212, 243, 273, 304, 334]"

definition leapLadder :: "int list" where
  [luxon_defs]: "leapLadder = [0, 31, 60, 91, 121, 152, 182, 213, 244, 274, 305, 335]"

definition unitOutOfRange :: "string \<Rightarrow> int option \<Rightarrow> invalid" where
  [luxon_defs]: "unitOutOfRange unit value = Invalid ''unit out of range''
     (Some (''you specified '' @ (case value of None \<Rightarrow> ''undefined'' | Some n \<Rightarrow> show_int n) @
       '' (of type '' @ (case value of None \<Rightarrow> ''undefined'' | Some _ \<Rightarrow> ''number'') @ '') as a '' @
       unit @ '', which is invalid''))"

text \<open>Monday is 1 and Sunday 7. \<open>None\<close> is \<open>NaN\<close>, beyond the range of \<open>Date\<close>.\<close>

definition dayOfWeek :: "int \<Rightarrow> int \<Rightarrow> int \<Rightarrow> int option" where
  [luxon_defs]: "dayOfWeek year month day =
     (let d = Date_UTC year (month - 1) day 0 0 0 0;
          d' = (if year < 100 \<and> year \<ge> 0
                then Option.bind d (\<lambda>t. setUTCFullYear t (getUTCFullYear t - 1900)) else d)
      in map_option (\<lambda>t. let js = getUTCDay t in if js = 0 then 7 else js) d')"

text \<open>An array read; \<open>None\<close> is \<open>undefined\<close>.\<close>

definition js_nth :: "'a list \<Rightarrow> int \<Rightarrow> 'a option" where
  [luxon_defs]: "js_nth xs i = (if 0 \<le> i \<and> i < int (length xs) then Some (xs ! nat i) else None)"

definition computeOrdinal :: "int \<Rightarrow> int \<Rightarrow> int \<Rightarrow> int option" where
  [luxon_defs]: "computeOrdinal year month day =
     map_option (\<lambda>s. day + s) (js_nth (if isLeapYear year then leapLadder else nonLeapLadder) (month - 1))"

fun findIndex :: "('a \<Rightarrow> bool) \<Rightarrow> 'a list \<Rightarrow> int \<Rightarrow> int" where
  "findIndex P [] i = -1"
| "findIndex P (x # xs) i = (if P x then i else findIndex P xs (i + 1))"

definition uncomputeOrdinal :: "int \<Rightarrow> int \<Rightarrow> int \<times> int option" where
  [luxon_defs]: "uncomputeOrdinal year ordinal =
     (let table = (if isLeapYear year then leapLadder else nonLeapLadder);
          month0 = findIndex (\<lambda>i. i < ordinal) table 0;
          day = map_option (\<lambda>t. ordinal - t) (js_nth table month0)
      in (month0 + 1, day))"

text \<open>\<open>_extends(a, b)\<close>: the keys of \<open>b\<close> over those of \<open>a\<close>.\<close>

abbreviation extends :: "obj \<Rightarrow> obj \<Rightarrow> obj" where
  "extends a b \<equiv> a ++ b"

text \<open>In the conversions below a key whose value is \<open>NaN\<close> is \<open>None\<close>, as an absent key is; both
  make the time stamp of the object \<open>NaN\<close>.\<close>

definition gregorianToWeek :: "obj \<Rightarrow> obj" where
  [luxon_defs]: "gregorianToWeek g =
     (case (g UYear, g UMonth, g UDay) of
        (Some year, Some month, Some day) \<Rightarrow>
          (case (computeOrdinal year month day, dayOfWeek year month day) of
             (Some ordinal, Some weekday) \<Rightarrow>
               let weekNumber = (ordinal - weekday + 10) div 7;
                   wn = (if weekNumber < 1 then (year - 1, weeksInWeekYear (year - 1))
                         else if weekNumber > weeksInWeekYear year then (year + 1, 1)
                         else (year, weekNumber))
               in extends [UWeekYear \<mapsto> fst wn, UWeekNumber \<mapsto> snd wn, UWeekday \<mapsto> weekday]
                    (timeObject g)
           | _ \<Rightarrow> extends [UWeekYear \<mapsto> year] (timeObject g))
      | _ \<Rightarrow> timeObject g)"

definition weekToGregorian :: "obj \<Rightarrow> obj" where
  [luxon_defs]: "weekToGregorian w =
     (case (w UWeekYear, w UWeekNumber, w UWeekday) of
        (Some weekYear, Some weekNumber, Some weekday) \<Rightarrow>
          (case dayOfWeek weekYear 1 4 of
             Some weekdayOfJan4 \<Rightarrow>
               let yearInDays = daysInYear weekYear;
                   ordinal0 = weekNumber * 7 + weekday - weekdayOfJan4 - 3;
                   yo = (if ordinal0 < 1 then (weekYear - 1, ordinal0 + daysInYear (weekYear - 1))
                         else if ordinal0 > yearInDays then
                           (weekYear + 1, ordinal0 - daysInYear weekYear)
                         else (weekYear, ordinal0));
                   md = uncomputeOrdinal (fst yo) (snd yo)
               in extends (Map.empty(UYear \<mapsto> fst yo, UMonth \<mapsto> fst md, UDay := snd md)) (timeObject w)
           | None \<Rightarrow> timeObject w)
      | _ \<Rightarrow> timeObject w)"

definition gregorianToOrdinal :: "obj \<Rightarrow> obj" where
  [luxon_defs]: "gregorianToOrdinal g =
     (case (g UYear, g UMonth, g UDay) of
        (Some year, Some month, Some day) \<Rightarrow>
          extends (Map.empty(UYear \<mapsto> year, UOrdinal := computeOrdinal year month day)) (timeObject g)
      | _ \<Rightarrow> timeObject g)"

definition ordinalToGregorian :: "obj \<Rightarrow> obj" where
  [luxon_defs]: "ordinalToGregorian r =
     (case (r UYear, r UOrdinal) of
        (Some year, Some ordinal) \<Rightarrow>
          let md = uncomputeOrdinal year ordinal
          in extends (Map.empty(UYear \<mapsto> year, UMonth \<mapsto> fst md, UDay := snd md)) (timeObject r)
      | _ \<Rightarrow> timeObject r)"

text \<open>\<open>obj.week\<close>, which the week check reports, is no key of the object.\<close>

definition hasInvalidWeekData :: "obj \<Rightarrow> invalid option" where
  [luxon_defs]: "hasInvalidWeekData ob =
     (let validYear = (ob UWeekYear \<noteq> None);
          validWeek = (case ob UWeekYear of None \<Rightarrow> False
            | Some y \<Rightarrow> integerBetween (ob UWeekNumber) 1 (weeksInWeekYear y));
          validWeekday = integerBetween (ob UWeekday) 1 7
      in if \<not> validYear then Some (unitOutOfRange ''weekYear'' (ob UWeekYear))
         else if \<not> validWeek then Some (unitOutOfRange ''week'' None)
         else if \<not> validWeekday then Some (unitOutOfRange ''weekday'' (ob UWeekday))
         else None)"

definition hasInvalidOrdinalData :: "obj \<Rightarrow> invalid option" where
  [luxon_defs]: "hasInvalidOrdinalData ob =
     (let validYear = (ob UYear \<noteq> None);
          validOrdinal = (case ob UYear of None \<Rightarrow> False
            | Some y \<Rightarrow> integerBetween (ob UOrdinal) 1 (daysInYear y))
      in if \<not> validYear then Some (unitOutOfRange ''year'' (ob UYear))
         else if \<not> validOrdinal then Some (unitOutOfRange ''ordinal'' (ob UOrdinal))
         else None)"

definition hasInvalidGregorianData :: "obj \<Rightarrow> invalid option" where
  [luxon_defs]: "hasInvalidGregorianData ob =
     (let validYear = (ob UYear \<noteq> None);
          validMonth = integerBetween (ob UMonth) 1 12;
          validDay = (case (ob UYear, ob UMonth) of
              (Some y, Some m) \<Rightarrow> integerBetween (ob UDay) 1 (daysInMonth y m) | _ \<Rightarrow> False)
      in if \<not> validYear then Some (unitOutOfRange ''year'' (ob UYear))
         else if \<not> validMonth then Some (unitOutOfRange ''month'' (ob UMonth))
         else if \<not> validDay then Some (unitOutOfRange ''day'' (ob UDay))
         else None)"

definition hasInvalidTimeData :: "obj \<Rightarrow> invalid option" where
  [luxon_defs]: "hasInvalidTimeData ob =
     (let hour = ob UHour; minute = ob UMinute; second = ob USecond;
          millisecond = ob UMillisecond;
          validHour = (integerBetween hour 0 23 \<or>
            hour = Some 24 \<and> minute = Some 0 \<and> second = Some 0 \<and> millisecond = Some 0);
          validMinute = integerBetween minute 0 59;
          validSecond = integerBetween second 0 59;
          validMillisecond = integerBetween millisecond 0 999
      in if \<not> validHour then Some (unitOutOfRange ''hour'' hour)
         else if \<not> validMinute then Some (unitOutOfRange ''minute'' minute)
         else if \<not> validSecond then Some (unitOutOfRange ''second'' second)
         else if \<not> validMillisecond then Some (unitOutOfRange ''millisecond'' millisecond)
         else None)"

end
