(* ===== verification/LuxonCalendar.thy ===== *)
theory LuxonCalendar
  imports LuxonUtil
begin

text \<open>
  The calendar facts of the date library: its leap years and month lengths are those of the
  \<open>Date\<close> object, a calendar object and its time stamp determine each other, later calendar
  objects have later time stamps, and ISO week dates and ordinal dates denote the day they come
  from. The reading of years 0 to 99 by \<open>Date.UTC\<close> loses one day: 29 February of the year 0.
\<close>

subsection \<open>Years and months\<close>

lemma js_rem_eq_0 [simp]: "0 < b \<Longrightarrow> js_rem a b = 0 \<longleftrightarrow> a mod b = 0"
  by (auto simp: js_rem_def sgn_if mod_eq_0_iff_dvd)

lemma isLeapYear_leap [simp]: "isLeapYear y = leap y"
  by (simp add: isLeapYear_def leap_def)

lemma daysInYear_eq [simp]: "daysInYear y = DaysInYear y"
  by (simp add: daysInYear_def DaysInYear_def)

lemma floorMod_mod [simp]: "floorMod x n = x mod n"
  by (simp add: floorMod_def minus_mult_div_eq_mod)

text \<open>The month may lie outside 1 to 12; it is then a month of an earlier or later year.\<close>

lemma daysInMonth_carry:
  "daysInMonth y m = month_length (leap (y + (m - 1) div 12)) ((m - 1) mod 12)"
proof -
  have "m - ((m - 1) mod 12 + 1) = 12 * ((m - 1) div 12)"
    by (simp add: minus_mod_eq_mult_div [symmetric] algebra_simps)
  then have yr: "(m - ((m - 1) mod 12 + 1)) div 12 = (m - 1) div 12" by simp
  have "0 \<le> (m - 1) mod 12" "(m - 1) mod 12 \<le> 11" by (simp_all add: mod_le)
  then show ?thesis
    unfolding daysInMonth_def Let_def floorMod_mod yr isLeapYear_leap month_length_def
    by (cases rule: month_cases) simp_all
qed

lemma daysInMonth_eq: "1 \<le> m \<Longrightarrow> m \<le> 12 \<Longrightarrow> daysInMonth y m = month_length (leap y) (m - 1)"
  by (simp add: daysInMonth_carry)

lemma daysInMonth_bounds: "28 \<le> daysInMonth y m" "daysInMonth y m \<le> 31"
  using month_length_bounds [of "(m - 1) mod 12"] by (simp_all add: daysInMonth_carry mod_le)

subsection \<open>Calendar objects and time stamps\<close>

definition valid_cal :: "cal \<Rightarrow> bool" where
  "valid_cal c \<longleftrightarrow> valid_ymd (c_year c) (c_month c - 1) (c_day c)
     \<and> valid_hms (c_hour c) (c_minute c) (c_second c) (c_millisecond c)"

definition cal_ms :: "cal \<Rightarrow> int" where
  "cal_ms c = MakeDate (MakeDay (c_year c) (c_month c - 1) (c_day c))
     (MakeTime (c_hour c) (c_minute c) (c_second c) (c_millisecond c))"

definition cal_of_ms :: "int \<Rightarrow> cal" where
  [luxon_defs]: "cal_of_ms t = \<lparr>c_year = getUTCFullYear t, c_month = getUTCMonth t + 1,
     c_day = getUTCDate t, c_hour = getUTCHours t, c_minute = getUTCMinutes t,
     c_second = getUTCSeconds t, c_millisecond = getUTCMilliseconds t\<rparr>"

lemma valid_calD:
  assumes "valid_cal c"
  shows "1 \<le> c_month c" "c_month c \<le> 12" "1 \<le> c_day c"
    "c_day c \<le> daysInMonth (c_year c) (c_month c)"
    "0 \<le> c_hour c" "c_hour c \<le> 23" "0 \<le> c_minute c" "c_minute c \<le> 59"
    "0 \<le> c_second c" "c_second c \<le> 59" "0 \<le> c_millisecond c" "c_millisecond c \<le> 999"
  using assms by (auto simp: valid_cal_def valid_ymd_def valid_hms_def daysInMonth_eq)

lemma valid_calI:
  assumes "1 \<le> c_month c" "c_month c \<le> 12" "1 \<le> c_day c"
    "c_day c \<le> daysInMonth (c_year c) (c_month c)"
    "0 \<le> c_hour c" "c_hour c \<le> 23" "0 \<le> c_minute c" "c_minute c \<le> 59"
    "0 \<le> c_second c" "c_second c \<le> 59" "0 \<le> c_millisecond c" "c_millisecond c \<le> 999"
  shows "valid_cal c"
  using assms by (auto simp: valid_cal_def valid_ymd_def valid_hms_def daysInMonth_eq)

lemma valid_cal_of_ms: "valid_cal (cal_of_ms t)"
  using fields_of_day(1) [of "t div msPerDay"] time_fields_valid [of t]
  by (simp add: valid_cal_def cal_of_ms_def getUTCFullYear_def getUTCMonth_def getUTCDate_def)

lemma cal_ms_of_ms [simp]: "cal_ms (cal_of_ms t) = t"
  using MakeDate_fields [of t] by (simp add: cal_ms_def cal_of_ms_def)

lemma cal_of_ms_ms [simp]:
  assumes "valid_cal c"
  shows "cal_of_ms (cal_ms c) = c"
proof -
  have d: "cal_ms c div msPerDay = MakeDay (c_year c) (c_month c - 1) (c_day c)"
    using assms MakeTime_range by (simp add: cal_ms_def valid_cal_def MakeDate_div_mod)
  from assms time_fields_MakeDate show ?thesis
    by (simp add: cal_of_ms_def getUTCFullYear_def getUTCMonth_def getUTCDate_def d valid_cal_def)
      (simp add: cal_ms_def)
qed

lemma cal_ms_inject: "valid_cal a \<Longrightarrow> valid_cal b \<Longrightarrow> cal_ms a = cal_ms b \<longleftrightarrow> a = b"
  by (metis cal_of_ms_ms)

text \<open>The fields in the order of their weight, compared as a word is.\<close>

definition cal_key :: "cal \<Rightarrow> int list" where
  "cal_key c = [c_year c, c_month c, c_day c, c_hour c, c_minute c, c_second c, c_millisecond c]"

definition ymd_less :: "int \<Rightarrow> int \<Rightarrow> int \<Rightarrow> int \<Rightarrow> int \<Rightarrow> int \<Rightarrow> bool" where
  "ymd_less y m d y' m' d' \<longleftrightarrow> y < y' \<or> y = y' \<and> (m < m' \<or> m = m' \<and> d < d')"

lemma month_start_mono:
  assumes "0 \<le> m" "m < m'" "m' \<le> 11"
  shows "month_start lp m + month_length lp m \<le> month_start lp m'"
proof -
  have "0 \<le> m'" using assms by simp
  then show ?thesis
    using assms(3) by (cases rule: month_cases) (use assms in \<open>auto simp: month_eval elim!: month_cases [of m]\<close>)
qed

lemma MakeDay_less:
  assumes "valid_ymd y m d" "valid_ymd y' m' d'" "ymd_less y m d y' m' d'"
  shows "MakeDay y m d < MakeDay y' m' d'"
proof -
  consider "y < y'" | "y = y'" "m < m'" | "y = y'" "m = m'" "d < d'"
    using assms(3) by (auto simp: ymd_less_def)
  then show ?thesis
  proof cases
    case 1
    then have "DayFromYear (y + 1) \<le> DayFromYear y'" by (intro DayFromYear_mono) simp
    then show ?thesis
      using MakeDay_in_year(2) [OF assms(1)] MakeDay_in_year(1) [OF assms(2)] by linarith
  next
    case 2
    then show ?thesis
      using month_start_mono [of m m' "leap y"] assms(1,2)
      by (simp add: valid_ymd_MakeDay valid_ymd_def)
  next
    case 3
    then show ?thesis using assms(1,2) by (simp add: valid_ymd_MakeDay)
  qed
qed

lemma MakeDate_less: "0 \<le> t \<Longrightarrow> t' < msPerDay \<Longrightarrow> n' < n \<Longrightarrow> MakeDate n' t' < MakeDate n t"
proof -
  assume a: "0 \<le> t" "t' < msPerDay" "n' < n"
  then have "n' * msPerDay + msPerDay \<le> n * msPerDay" by (simp add: msPerDay_def)
  with a show ?thesis by (simp add: MakeDate_def)
qed

text \<open>Calendar order is time order, by day and then by the time of the day.\<close>

lemma cal_ms_less_day:
  assumes "valid_cal a" "valid_cal b"
    "ymd_less (c_year a) (c_month a) (c_day a) (c_year b) (c_month b) (c_day b)"
  shows "cal_ms a < cal_ms b"
  using assms MakeTime_range MakeDay_less [of "c_year a" "c_month a - 1" "c_day a"]
  by (auto simp: cal_ms_def valid_cal_def ymd_less_def intro!: MakeDate_less)

lemma cal_ms_less_time:
  assumes "c_year a = c_year b" "c_month a = c_month b" "c_day a = c_day b"
    "MakeTime (c_hour a) (c_minute a) (c_second a) (c_millisecond a)
      < MakeTime (c_hour b) (c_minute b) (c_second b) (c_millisecond b)"
  shows "cal_ms a < cal_ms b"
  using assms by (simp add: cal_ms_def MakeDate_def)

subsection \<open>The time stamp of an object\<close>

text \<open>The date whose year \<open>Date.UTC\<close> does not bring back.\<close>

definition lost_day :: "int \<Rightarrow> int \<Rightarrow> int \<Rightarrow> bool" where
  "lost_day y m d \<longleftrightarrow> y = 0 \<and> m = 2 \<and> d = 29"

lemma leap_1900: "1 \<le> y \<Longrightarrow> y \<le> 99 \<Longrightarrow> leap (1900 + y) = leap y"
  unfolding leap_def by presburger

lemma leap_0_1900: "leap 0" "\<not> leap 1900"
  by (simp_all add: leap_def)

lemma valid_ymd_1900:
  assumes "valid_ymd y m d" "0 \<le> y" "y \<le> 99" "\<not> lost_day y (m + 1) d"
  shows "valid_ymd (1900 + y) m d"
proof (cases "y = 0")
  case True
  with assms show ?thesis
    by (auto simp: valid_ymd_def lost_day_def leap_0_1900 month_length_def split: if_splits)
next
  case False
  with assms have "leap (1900 + y) = leap y" by (intro leap_1900) auto
  with assms show ?thesis by (simp add: valid_ymd_def)
qed

lemma twentieth_century_in_range:
  assumes "valid_ymd (1900 + y) m d" "0 \<le> y" "y \<le> 99" "0 \<le> t" "t < msPerDay"
  shows "TimeClip (MakeDate (MakeDay (1900 + y) m d) t) = Some (MakeDate (MakeDay (1900 + y) m d) t)"
proof -
  have "DayFromYear 1900 \<le> DayFromYear (1900 + y)" "DayFromYear (1900 + y + 1) \<le> DayFromYear 2000"
    using assms by (auto intro!: DayFromYear_mono)
  moreover have "DayFromYear 1900 = -25567" "DayFromYear 2000 = 10957"
    by (simp_all add: DayFromYear_def)
  ultimately have "-25567 \<le> MakeDay (1900 + y) m d" "MakeDay (1900 + y) m d < 10957"
    using MakeDay_in_year [OF assms(1)] by linarith+
  with assms show ?thesis by (simp add: TimeClip_def MakeDate_def msPerDay_def abs_le_iff)
qed

lemma localTS_valid:
  assumes v: "valid_ymd y (m - 1) d" and t: "valid_hms h mi s ms" and l: "\<not> lost_day y m d"
  shows "localTS y m d h mi s ms = TimeClip (MakeDate (MakeDay y (m - 1) d) (MakeTime h mi s ms))"
proof (cases "0 \<le> y \<and> y < 100")
  case False
  then show ?thesis by (auto simp: localTS_def Date_UTC_def Let_def)
next
  case True
  let ?t = "MakeTime h mi s ms"
  have r: "0 \<le> ?t" "?t < msPerDay" using MakeTime_range [OF t] by auto
  from True v l have v': "valid_ymd (1900 + y) (m - 1) d" by (intro valid_ymd_1900) auto
  let ?u = "MakeDate (MakeDay (1900 + y) (m - 1) d) ?t"
  have u: "?u div msPerDay = MakeDay (1900 + y) (m - 1) d" "?u mod msPerDay = ?t"
    using r by (simp_all add: MakeDate_div_mod)
  have "TimeClip ?u = Some ?u"
    using True v' r by (intro twentieth_century_in_range) auto
  then have "Date_UTC y (m - 1) d h mi s ms = Some ?u"
    using True by (simp add: Date_UTC_def Let_def)
  with True u v' show ?thesis
    by (simp add: localTS_def setUTCFullYear_def getUTCFullYear_def getUTCMonth_def getUTCDate_def)
qed

text \<open>Outside the years 0 to 99 the fields may overflow: months and days carry.\<close>

lemma localTS_overflow:
  assumes "\<not> (0 \<le> y \<and> y \<le> 99)"
  shows "localTS y m d h mi s ms = TimeClip (MakeDate (MakeDay y (m - 1) d) (MakeTime h mi s ms))"
  using assms by (auto simp: localTS_def Date_UTC_def Let_def)

lemma objToLocalTS_cal: "objToLocalTS (obj_of_cal c) =
  localTS (c_year c) (c_month c) (c_day c) (c_hour c) (c_minute c) (c_second c) (c_millisecond c)"
  by (simp add: objToLocalTS_def obj_of_cal_def)

definition cal_lost :: "cal \<Rightarrow> bool" where
  "cal_lost c \<longleftrightarrow> lost_day (c_year c) (c_month c) (c_day c)"

lemma objToLocalTS_valid:
  assumes "valid_cal c" "\<not> cal_lost c"
  shows "objToLocalTS (obj_of_cal c) = TimeClip (cal_ms c)"
  using assms by (simp add: objToLocalTS_cal localTS_valid valid_cal_def cal_lost_def cal_ms_def)

lemma objToLocalTS_of_ms:
  assumes "\<bar>t\<bar> \<le> 8640000000000000" "\<not> cal_lost (cal_of_ms t)"
  shows "objToLocalTS (obj_of_cal (cal_of_ms t)) = Some t"
  using assms objToLocalTS_valid [OF valid_cal_of_ms, of t] by simp

end
