(* ===== verification/LuxonZone.thy ===== *)
theory LuxonZone
  imports LuxonCalendar
begin

text \<open>
  The time zones of the date library, the settings and the locales of \<open>ui/js/bundle.js\<close>.

  What the code asks of the browser is a record: the system time zone, the time zones and the
  locales that \<open>Intl\<close> knows, and what \<open>formatToParts\<close> returns. The settings of the
  library extend it. Numbers that may be \<open>NaN\<close> are options of rationals. The fallback for
  browsers without \<open>formatToParts\<close> is in \<open>LuxonOffset\<close>, the caches in \<open>LuxonCache\<close>, the localized names
  in \<open>LuxonFormat\<close>.
\<close>

subsection \<open>Numbers\<close>

type_synonym num = "rat option"

definition nadd :: "num \<Rightarrow> num \<Rightarrow> num" where
  [luxon_defs]: "nadd a b = Option.bind a (\<lambda>x. map_option (\<lambda>y. x + y) b)"

definition nsub :: "num \<Rightarrow> num \<Rightarrow> num" where
  [luxon_defs]: "nsub a b = Option.bind a (\<lambda>x. map_option (\<lambda>y. x - y) b)"

definition nmin :: "num \<Rightarrow> num \<Rightarrow> num" where
  [luxon_defs]: "nmin a b = Option.bind a (\<lambda>x. map_option (\<lambda>y. min x y) b)"

definition nmax :: "num \<Rightarrow> num \<Rightarrow> num" where
  [luxon_defs]: "nmax a b = Option.bind a (\<lambda>x. map_option (\<lambda>y. max x y) b)"

text \<open>\<open>===\<close>, \<open><\<close> and \<open><=\<close>: \<open>NaN\<close> is equal to nothing and not ordered.\<close>

definition neq :: "num \<Rightarrow> num \<Rightarrow> bool" where
  [luxon_defs]: "neq a b = (a \<noteq> None \<and> a = b)"

definition nless :: "num \<Rightarrow> num \<Rightarrow> bool" where
  [luxon_defs]: "nless a b = (case (a, b) of (Some x, Some y) \<Rightarrow> x < y | _ \<Rightarrow> False)"

definition nle :: "num \<Rightarrow> num \<Rightarrow> bool" where
  [luxon_defs]: "nle a b = (case (a, b) of (Some x, Some y) \<Rightarrow> x \<le> y | _ \<Rightarrow> False)"

text \<open>Minutes to milliseconds.\<close>

definition min_ms :: "num \<Rightarrow> num" where
  [luxon_defs]: "min_ms m = map_option (\<lambda>x. x * 60 * 1000) m"

definition num_of :: "int option \<Rightarrow> num" where
  [luxon_defs]: "num_of n = map_option of_int n"

lemma num_simps [simp]:
  "nadd (Some x) (Some y) = Some (x + y)" "nsub (Some x) (Some y) = Some (x - y)"
  "nmin (Some x) (Some y) = Some (min x y)" "nmax (Some x) (Some y) = Some (max x y)"
  "nadd None b = None" "nadd a None = None" "nsub None b = None" "nsub a None = None"
  "nmin None b = None" "nmin a None = None" "nmax None b = None" "nmax a None = None"
  "neq (Some x) (Some y) \<longleftrightarrow> x = y" "\<not> neq None b" "\<not> neq a None"
  "nless (Some x) (Some y) \<longleftrightarrow> x < y" "\<not> nless None b" "\<not> nless a None"
  "nle (Some x) (Some y) \<longleftrightarrow> x \<le> y" "\<not> nle None b" "\<not> nle a None"
  "min_ms (Some x) = Some (x * 60000)" "min_ms None = None"
  "num_of None = None" "num_of (Some n) = Some (of_int n)"
  by (auto simp: nadd_def nsub_def nmin_def nmax_def neq_def nless_def nle_def min_ms_def num_of_def
      split: option.splits bind_splits)

lemma js_trunc_of_int [simp]: "js_trunc (of_int n) = n"
  by (simp add: js_trunc_def)

text \<open>\<open>new Date(ts)\<close>: the fraction is dropped, and what is out of range is invalid.\<close>

definition date_of :: "num \<Rightarrow> int option" where
  [luxon_defs]: "date_of ts = Option.bind ts (\<lambda>t. TimeClip (js_trunc t))"

lemma date_of_int [simp]: "date_of (Some (of_int n)) = TimeClip n"
  by (simp add: date_of_def)

subsection \<open>The browser\<close>

text \<open>\<open>pf_tzo t\<close>: \<open>new Date(t).getTimezoneOffset()\<close>. \<open>pf_zone_ok s\<close>: \<open>Intl.DateTimeFormat\<close>
  accepts the time zone \<open>s\<close>. \<open>pf_parts s t\<close>: the parts \<open>formatToParts\<close> returns for the zone
  \<open>s\<close> and the time \<open>t\<close>, each a type and a value. \<open>pf_zone\<close> and \<open>pf_locale\<close>: the system's
  time zone and locale. \<open>pf_resolve s\<close>: the numbering system and the calendar that
  \<open>Intl\<close> resolves the locale \<open>s\<close> to, or \<open>None\<close> when it throws.\<close>

record platform =
  pf_tzo :: "int \<Rightarrow> rat"
  pf_zone_ok :: "string \<Rightarrow> bool"
  pf_parts :: "string \<Rightarrow> int \<Rightarrow> (string \<times> string) list"
  pf_zone :: string
  pf_locale :: string
  pf_resolve :: "string \<Rightarrow> (string \<times> string) option"

subsection \<open>Zones\<close>

datatype zone = SystemZone | IANAZone string bool | FixedOffsetZone rat | InvalidZone string

definition isValidZone :: "'a platform_scheme \<Rightarrow> string \<Rightarrow> bool" where
  [luxon_defs]: "isValidZone E z = (z \<noteq> [] \<and> pf_zone_ok E z)"

definition IANAZone_create :: "'a platform_scheme \<Rightarrow> string \<Rightarrow> zone" where
  [luxon_defs]: "IANAZone_create E name = IANAZone name (isValidZone E name)"

definition utcInstance :: zone where
  [luxon_defs]: "utcInstance = FixedOffsetZone 0"

definition FixedOffsetZone_instance :: "rat \<Rightarrow> zone" where
  [luxon_defs]: "FixedOffsetZone_instance offset =
     (if offset = 0 then utcInstance else FixedOffsetZone offset)"

text \<open>The match of \<open>/^utc(?:([+-]\d{1,2})(?::(\d{2}))?)?$/i\<close>, with its two groups.\<close>

definition match_utc :: "string \<Rightarrow> (string option \<times> string option) option" where
  [luxon_defs]: "match_utc s =
     (if toLowerCase (take 3 s) \<noteq> ''utc'' then None
      else case drop 3 s of [] \<Rightarrow> Some (None, None)
      | sg # r \<Rightarrow>
        let ds = takeWhile is_digit r; rest = dropWhile is_digit r in
        if sg \<noteq> CHR ''+'' \<and> sg \<noteq> CHR ''-'' \<or> length ds = 0 \<or> length ds > 2 then None
        else case rest of [] \<Rightarrow> Some (Some (sg # ds), None)
        | c # mm \<Rightarrow>
          if c = CHR '':'' \<and> length mm = 2 \<and> list_all is_digit mm
          then Some (Some (sg # ds), Some mm) else None)"

definition parseSpecifier :: "string \<Rightarrow> zone option" where
  [luxon_defs]: "parseSpecifier s =
     (if s = [] then None
      else map_option (\<lambda>(h, m). FixedOffsetZone (of_int (signedOffset h m))) (match_utc s))"

definition zone_type :: "zone \<Rightarrow> string" where
  [luxon_defs]: "zone_type z = (case z of SystemZone \<Rightarrow> ''system'' | IANAZone _ _ \<Rightarrow> ''iana''
     | FixedOffsetZone _ \<Rightarrow> ''fixed'' | InvalidZone _ \<Rightarrow> ''invalid'')"

definition zone_isValid :: "zone \<Rightarrow> bool" where
  [luxon_defs]: "zone_isValid z = (case z of IANAZone _ valid \<Rightarrow> valid | InvalidZone _ \<Rightarrow> False
     | _ \<Rightarrow> True)"

definition zone_isUniversal :: "zone \<Rightarrow> bool" where
  [luxon_defs]: "zone_isUniversal z = (case z of FixedOffsetZone _ \<Rightarrow> True | _ \<Rightarrow> False)"

definition zone_name :: "'a platform_scheme \<Rightarrow> zone \<Rightarrow> string" where
  [luxon_defs]: "zone_name E z = (case z of SystemZone \<Rightarrow> pf_zone E | IANAZone n _ \<Rightarrow> n
     | FixedOffsetZone f \<Rightarrow> if f = 0 then ''UTC'' else ''UTC'' @ res_val (formatOffset f ''narrow'')
     | InvalidZone n \<Rightarrow> n)"

definition zone_ianaName :: "'a platform_scheme \<Rightarrow> zone \<Rightarrow> string" where
  [luxon_defs]: "zone_ianaName E z = (case z of
       FixedOffsetZone f \<Rightarrow>
         if f = 0 then ''Etc/UTC'' else ''Etc/GMT'' @ res_val (formatOffset (- f) ''narrow'')
     | _ \<Rightarrow> zone_name E z)"

definition zone_equals :: "zone \<Rightarrow> zone \<Rightarrow> bool" where
  [luxon_defs]: "zone_equals z other = (case z of
       SystemZone \<Rightarrow> zone_type other = ''system''
     | IANAZone n _ \<Rightarrow> (case other of IANAZone m _ \<Rightarrow> m = n | _ \<Rightarrow> False)
     | FixedOffsetZone f \<Rightarrow> (case other of FixedOffsetZone g \<Rightarrow> g = f | _ \<Rightarrow> False)
     | InvalidZone _ \<Rightarrow> False)"

text \<open>The parts of a formatted date: six numbers by their position, and the era.\<close>

definition typeToPos :: "(string \<times> nat) list" where
  [luxon_defs]: "typeToPos = [(''year'', 0), (''month'', 1), (''day'', 2), (''era'', 3),
     (''hour'', 4), (''minute'', 5), (''second'', 6)]"

definition partsOffset :: "(string \<times> string) list \<Rightarrow> (nat \<Rightarrow> int option) \<times> string option" where
  [luxon_defs]: "partsOffset formatted =
     fold (\<lambda>(ty, value) (filled, era).
       if ty = ''era'' then (filled, Some value)
       else (case map_of typeToPos ty of None \<Rightarrow> (filled, era)
             | Some pos \<Rightarrow> (filled(pos := parseInt value), era)))
     formatted (Map.empty, None)"

definition iana_offset :: "(int \<Rightarrow> (string \<times> string) list) \<Rightarrow> num \<Rightarrow> num" where
  [luxon_defs]: "iana_offset parts ts = (case date_of ts of None \<Rightarrow> None
     | Some date \<Rightarrow>
       let filled = fst (partsOffset (parts date));
           adOrBc = snd (partsOffset (parts date));
           year = (if adOrBc = Some ''BC'' then map_option (\<lambda>y. - \<bar>y\<bar> + 1) (filled 0) else filled 0);
           adjustedHour = (if filled 4 = Some 24 then Some 0 else filled 4);
           asUTC = objToLocalTS (Map.empty(UYear := year, UMonth := filled 1, UDay := filled 2,
             UHour := adjustedHour, UMinute := filled 5, USecond := filled 6,
             UMillisecond := Some 0));
           over = js_rem date 1000;
           asTS = date - (if over \<ge> 0 then over else 1000 + over)
       in map_option (\<lambda>u. of_int (u - asTS) / (60 * 1000)) asUTC)"

text \<open>The offset east of UTC in minutes. (For a name \<open>Intl\<close> does not accept the code throws a
  \<open>RangeError\<close>; only \<open>quickDT\<close> asks for it without testing \<open>isValid\<close> before.)\<close>

definition zone_offset :: "'a platform_scheme \<Rightarrow> zone \<Rightarrow> num \<Rightarrow> num" where
  [luxon_defs]: "zone_offset E z ts = (case z of
       SystemZone \<Rightarrow> map_option (\<lambda>t. - pf_tzo E t) (date_of ts)
     | IANAZone n valid \<Rightarrow> if valid then iana_offset (pf_parts E n) ts else None
     | FixedOffsetZone f \<Rightarrow> Some f
     | InvalidZone _ \<Rightarrow> None)"

text \<open>What may be given as a zone: \<open>ZOther\<close> is a value of another type, as a string. (An
  object that is no \<open>Zone\<close> but has a number as its \<open>offset\<close> is not modelled.)\<close>

datatype zone_input = ZUndefined | ZNull | ZZone zone | ZString string | ZNumber rat | ZOther string

definition normalizeZone :: "'a platform_scheme \<Rightarrow> zone_input \<Rightarrow> zone \<Rightarrow> zone" where
  [luxon_defs]: "normalizeZone E input dflt = (case input of
       ZUndefined \<Rightarrow> dflt
     | ZNull \<Rightarrow> dflt
     | ZZone z \<Rightarrow> z
     | ZString s \<Rightarrow>
         let lowered = toLowerCase s in
         if lowered = ''local'' \<or> lowered = ''system'' then dflt
         else if lowered = ''utc'' \<or> lowered = ''gmt'' then utcInstance
         else (case parseSpecifier lowered of Some z \<Rightarrow> z | None \<Rightarrow> IANAZone_create E s)
     | ZNumber n \<Rightarrow> FixedOffsetZone_instance n
     | ZOther s \<Rightarrow> InvalidZone s)"

subsection \<open>Settings\<close>

record settings = platform +
  st_now :: int
  st_defaultZone :: zone_input
  st_defaultLocale :: "string option"
  st_defaultNumberingSystem :: "string option"
  st_defaultOutputCalendar :: "string option"
  st_throwOnInvalid :: bool

definition defaultZone :: "settings \<Rightarrow> zone" where
  [luxon_defs]: "defaultZone E = normalizeZone E (st_defaultZone E) SystemZone"

subsection \<open>Locales\<close>

record locale_obj =
  l_locale :: string
  l_numberingSystem :: "string option"
  l_outputCalendar :: "string option"
  l_intl :: string
  l_specifiedLocale :: "string option"

text \<open>\<open>a || b\<close> on strings that may be absent: the empty string counts as absent.\<close>

definition js_or :: "string option \<Rightarrow> string option \<Rightarrow> string option" where
  [luxon_defs]: "js_or a b = (case a of None \<Rightarrow> b | Some s \<Rightarrow> if s = [] then b else a)"

fun indexOf :: "string \<Rightarrow> string \<Rightarrow> nat option" where
  "indexOf pat [] = (if pat = [] then Some 0 else None)"
| "indexOf pat (c # s) =
     (if take (length pat) (c # s) = pat then Some 0 else map_option Suc (indexOf pat s))"

definition parseLocaleString ::
  "'a platform_scheme \<Rightarrow> string \<Rightarrow> (string \<times> string option \<times> string option) res" where
  [luxon_defs]: "parseLocaleString E localeStr = (case indexOf ''-u-'' localeStr of
       None \<Rightarrow> Ok (localeStr, None, None)
     | Some uIndex \<Rightarrow>
         let smaller = take uIndex localeStr in
         (case pf_resolve E localeStr of
            Some (n, c) \<Rightarrow> Ok (smaller, Some n, Some c)
          | None \<Rightarrow> (case pf_resolve E smaller of
              Some (n, c) \<Rightarrow> Ok (smaller, Some n, Some c)
            | None \<Rightarrow> Throw (RangeError (''Incorrect locale information provided'')))))"

definition intlConfigString :: "string \<Rightarrow> string option \<Rightarrow> string option \<Rightarrow> string" where
  [luxon_defs]: "intlConfigString localeStr numberingSystem outputCalendar =
     (case (js_or outputCalendar None, js_or numberingSystem None) of
        (None, None) \<Rightarrow> localeStr
      | (oc, ns) \<Rightarrow> localeStr @ ''-u'' @
          (case oc of None \<Rightarrow> [] | Some c \<Rightarrow> ''-ca-'' @ c) @
          (case ns of None \<Rightarrow> [] | Some n \<Rightarrow> ''-nu-'' @ n))"

definition Locale_new :: "'a platform_scheme \<Rightarrow> string \<Rightarrow> string option \<Rightarrow> string option \<Rightarrow>
  string option \<Rightarrow> locale_obj res" where
  [luxon_defs]: "Locale_new E locale numbering outputCalendar specifiedLocale =
     rbind (parseLocaleString E locale) (\<lambda>(parsedLocale, parsedNumberingSystem, parsedOutputCalendar).
       let ns = js_or numbering parsedNumberingSystem; oc = js_or outputCalendar parsedOutputCalendar
       in Ok \<lparr>l_locale = parsedLocale, l_numberingSystem = js_or ns None,
              l_outputCalendar = js_or oc None,
              l_intl = intlConfigString parsedLocale (js_or ns None) (js_or oc None),
              l_specifiedLocale = specifiedLocale\<rparr>)"

definition Locale_create :: "settings \<Rightarrow> string option \<Rightarrow> string option \<Rightarrow> string option \<Rightarrow>
  bool \<Rightarrow> locale_obj res" where
  [luxon_defs]: "Locale_create E locale numberingSystem outputCalendar defaultToEN =
     (let specifiedLocale = js_or locale (st_defaultLocale E);
          localeR = (case js_or specifiedLocale None of Some l \<Rightarrow> l
            | None \<Rightarrow> if defaultToEN then ''en-US'' else pf_locale E);
          numberingSystemR = js_or numberingSystem (st_defaultNumberingSystem E);
          outputCalendarR = js_or outputCalendar (st_defaultOutputCalendar E)
      in Locale_new E localeR numberingSystemR outputCalendarR specifiedLocale)"

record locale_opts =
  lo_locale :: "string option"
  lo_numberingSystem :: "string option"
  lo_outputCalendar :: "string option"

definition no_locale_opts :: locale_opts where
  [luxon_defs]: "no_locale_opts =
     \<lparr>lo_locale = None, lo_numberingSystem = None, lo_outputCalendar = None\<rparr>"

definition Locale_fromObject :: "settings \<Rightarrow> locale_opts \<Rightarrow> locale_obj res" where
  [luxon_defs]: "Locale_fromObject E t =
     Locale_create E (lo_locale t) (lo_numberingSystem t) (lo_outputCalendar t) False"

text \<open>\<open>alts\<close> is \<open>None\<close> when no options are given; an object with undefined properties is not empty.\<close>

definition Locale_clone :: "settings \<Rightarrow> locale_obj \<Rightarrow> locale_opts option \<Rightarrow> bool \<Rightarrow> locale_obj res" where
  [luxon_defs]: "Locale_clone E loc alts defaultToEN = (case alts of None \<Rightarrow> Ok loc
     | Some a \<Rightarrow> Locale_create E (js_or (lo_locale a) (l_specifiedLocale loc))
         (js_or (lo_numberingSystem a) (l_numberingSystem loc))
         (js_or (lo_outputCalendar a) (l_outputCalendar loc)) defaultToEN)"

definition Locale_equals :: "locale_obj \<Rightarrow> locale_obj \<Rightarrow> bool" where
  [luxon_defs]: "Locale_equals loc other \<longleftrightarrow> l_locale loc = l_locale other \<and>
     l_numberingSystem loc = l_numberingSystem other \<and>
     l_outputCalendar loc = l_outputCalendar other"

subsection \<open>Facts\<close>

text \<open>A fixed offset is printed and read back, when the narrow format of its minutes has two digits
  or none.\<close>

lemma show_int_sign_digits: "0 \<le> n \<Longrightarrow> c \<in> set (show_int n) \<Longrightarrow> is_digit c"
  by (simp add: show_int_def show_nat_digits)

lemma digits_show_int [simp]:
  assumes "0 \<le> n"
  shows "takeWhile is_digit (show_int n) = show_int n" "dropWhile is_digit (show_int n) = []"
    "takeWhile is_digit (show_int n @ CHR '':'' # r) = show_int n"
    "dropWhile is_digit (show_int n @ CHR '':'' # r) = CHR '':'' # r"
    "list_all is_digit (show_int n)" "digits_val 0 (show_int n) = nat n" "show_int n \<noteq> []"
proof -
  note d = show_int_sign_digits [OF assms]
  have c: "\<not> is_digit (CHR '':'')" by (simp add: is_digit_def)
  show "takeWhile is_digit (show_int n) = show_int n" "dropWhile is_digit (show_int n) = []"
    "list_all is_digit (show_int n)" "digits_val 0 (show_int n) = nat n" "show_int n \<noteq> []"
    using d assms by (simp_all add: takeWhile_all dropWhile_eq_Nil_conv list_all_iff show_int_def)
  show "takeWhile is_digit (show_int n @ CHR '':'' # r) = show_int n"
    using d c by (subst takeWhile_append2) simp_all
  show "dropWhile is_digit (show_int n @ CHR '':'' # r) = CHR '':'' # r"
    using d c by (subst dropWhile_append2) simp_all
qed

lemma show_int_length [simp]: "0 \<le> n \<Longrightarrow> n < 100 \<Longrightarrow> length (show_int n) \<le> 2"
  using show_nat_length_bound [of "nat n" 2] by (simp add: show_int_def nat_less_iff)

lemma show_int_length_2 [simp]:
  assumes "10 \<le> n" "n < 100"
  shows "length (show_int n) = 2"
proof -
  have "nat n div 10 < 10" "\<not> nat n < 10" using assms by linarith+
  then show ?thesis by (simp add: show_int_def show_nat.simps [of "nat n"] show_nat.simps [of "nat n div 10"])
      (use assms in simp)
qed

lemma scan_int_signed:
  assumes "0 \<le> n" "sg = CHR ''+'' \<or> sg = CHR ''-''"
  shows "scan_int (sg # show_int n) = Some (sg = CHR ''-'', nat n)"
proof -
  have "\<not> is_space sg" using assms(2) by (auto simp: is_space_def)
  moreover have "\<not> is_digit sg" using assms(2) by (auto simp: is_digit_def)
  ultimately show ?thesis using assms by (auto simp: scan_int_def Let_def)
qed

lemma toLowerCase_utc: "toLowerCase (take 3 (''UTC'' @ s)) = ''utc''"
  by (simp add: toLowerCase_def lower_char_def) code_simp

lemma match_utc_hours:
  assumes "0 \<le> h" "h < 100" "sg = CHR ''+'' \<or> sg = CHR ''-''"
  shows "match_utc (''UTC'' @ sg # show_int h) = Some (Some (sg # show_int h), None)"
  using assms toLowerCase_utc [of "sg # show_int h"] by (auto simp: match_utc_def Let_def not_less)

lemma match_utc_minutes:
  assumes "0 \<le> h" "h < 100" "sg = CHR ''+'' \<or> sg = CHR ''-''" "10 \<le> m" "m < 100"
  shows "match_utc (''UTC'' @ sg # show_int h @ CHR '':'' # show_int m)
    = Some (Some (sg # show_int h), Some (show_int m))"
  using assms toLowerCase_utc [of "sg # show_int h @ CHR '':'' # show_int m"]
  by (auto simp: match_utc_def Let_def not_less)

text \<open>The offsets whose narrow name is read back.\<close>

definition readable_offset :: "int \<Rightarrow> bool" where
  "readable_offset n \<longleftrightarrow> \<bar>n\<bar> < 6000 \<and> (\<bar>n\<bar> mod 60 = 0 \<or> 10 \<le> \<bar>n\<bar> mod 60)"

lemma narrow_offset:
  "formatOffset (of_int n) ''narrow'' = Ok ((if 0 \<le> n then ''+'' else ''-'') @
     show_int (\<bar>n\<bar> div 60) @ (if \<bar>n\<bar> mod 60 > 0 then '':'' @ show_int (\<bar>n\<bar> mod 60) else []))"
proof -
  have h: "\<lfloor>\<bar>of_int n / 60 :: rat\<bar>\<rfloor> = \<bar>n\<bar> div 60"
    using floor_divide_of_int_eq [of "\<bar>n\<bar>" 60, where ?'a = rat] by simp
  have "\<lfloor>\<bar>of_int n :: rat\<bar> / 60\<rfloor> = \<bar>n\<bar> div 60"
    using floor_divide_of_int_eq [of "\<bar>n\<bar>" 60, where ?'a = rat] by simp
  then have "\<bar>of_int n :: rat\<bar> - 60 * of_int \<lfloor>\<bar>of_int n :: rat\<bar> / 60\<rfloor> = of_int (\<bar>n\<bar> - 60 * (\<bar>n\<bar> div 60))"
    by simp
  then have m: "\<lfloor>\<bar>of_int n :: rat\<bar> - 60 * of_int \<lfloor>\<bar>of_int n :: rat\<bar> / 60\<rfloor>\<rfloor> = \<bar>n\<bar> mod 60"
    by (simp only: floor_of_int minus_mult_div_eq_mod)
  show ?thesis unfolding formatOffset_def Let_def h m by simp
qed

lemma parseSpecifier_zone_name:
  assumes "readable_offset n"
  shows "parseSpecifier (zone_name E (FixedOffsetZone (of_int n))) = Some (FixedOffsetZone (of_int n))"
proof (cases "n = 0")
  case True
  have "match_utc ''UTC'' = Some (None, None)" by code_simp
  with True show ?thesis by (simp add: zone_name_def parseSpecifier_def signedOffset_def)
next
  case False
  define sg where "sg = (if 0 \<le> n then CHR ''+'' else CHR ''-'')"
  define h m where "h = \<bar>n\<bar> div 60" and "m = \<bar>n\<bar> mod 60"
  have sg: "sg = CHR ''+'' \<or> sg = CHR ''-''" by (simp add: sg_def)
  define k where "k = \<bar>n\<bar>"
  have k: "0 \<le> k" "k < 6000" "k mod 60 = 0 \<or> 10 \<le> k mod 60"
    using assms unfolding readable_offset_def k_def by simp_all
  have h: "0 \<le> h" "h < 100" and m: "0 \<le> m" "m < 100" "m = 0 \<or> 10 \<le> m"
    and n: "\<bar>n\<bar> = 60 * h + m"
  proof -
    show "0 \<le> h" "0 \<le> m" using k(1) by (simp_all add: h_def m_def k_def [symmetric])
    show "h < 100" unfolding h_def k_def [symmetric] using k(2) by linarith
    show "m < 100" unfolding m_def k_def [symmetric] by linarith
    show "m = 0 \<or> 10 \<le> m" unfolding m_def k_def [symmetric] by (rule k(3))
    show "\<bar>n\<bar> = 60 * h + m" unfolding m_def h_def by (rule mult_div_mod_eq [symmetric])
  qed
  have name: "zone_name E (FixedOffsetZone (of_int n)) =
      ''UTC'' @ sg # show_int h @ (if m > 0 then CHR '':'' # show_int m else [])"
    using False unfolding zone_name_def zone.case narrow_offset res.sel by (simp add: sg_def h_def m_def)
  have mm: "10 \<le> m \<Longrightarrow> parseInt (show_int m) = Some m" by simp
  have "match_utc (zone_name E (FixedOffsetZone (of_int n))) =
      Some (Some (sg # show_int h), if m > 0 then Some (show_int m) else None)"
    using match_utc_hours [OF h sg] match_utc_minutes [OF h sg _ m(2)] m unfolding name by auto
  moreover have "signedOffset (Some (sg # show_int h)) (if m > 0 then Some (show_int m) else None) = n"
    unfolding signedOffset_def Let_def bind.bind_lunit scan_int_signed [OF h(1) sg]
    using n m h by (cases "0 \<le> n") (auto simp: sg_def)
  ultimately show ?thesis by (simp add: parseSpecifier_def) (simp add: name)
qed

lemma zone_equals_sym: "zone_equals y z \<longleftrightarrow> zone_equals z y"
  by (cases y; cases z) (auto simp: zone_equals_def zone_type_def)

text \<open>Equal zones have the same offset at all times, when names \<open>Intl\<close> rejects are marked.\<close>

definition zone_ok :: "'a platform_scheme \<Rightarrow> zone \<Rightarrow> bool" where
  "zone_ok E z \<longleftrightarrow> (case z of IANAZone n valid \<Rightarrow> valid = isValidZone E n | _ \<Rightarrow> True)"

lemma zone_equals_eq: "zone_ok E y \<Longrightarrow> zone_ok E z \<Longrightarrow> zone_equals y z \<Longrightarrow> y = z"
  by (cases y; cases z) (auto simp: zone_equals_def zone_type_def zone_ok_def)

lemma zone_ok_normalizeZone:
  "zone_ok E d \<Longrightarrow> (\<And>z. i = ZZone z \<Longrightarrow> zone_ok E z) \<Longrightarrow> zone_ok E (normalizeZone E i d)"
  by (auto simp: normalizeZone_def zone_ok_def Let_def parseSpecifier_def IANAZone_create_def
      utcInstance_def FixedOffsetZone_instance_def split: zone_input.splits option.splits)

end
