(* ===== verification/LuxonDuration.thy ===== *)
theory LuxonDuration
  imports LuxonZone
begin

text \<open>
  Durations (\<open>Duration\<close> in \<open>ui/js/bundle.js\<close>): amounts of calendar units, their
  arithmetic, and the conversion of one unit to another by a matrix of lengths. The values are an
  association list because the conversion visits the units in the order in which they were set.
  Amounts are exact rationals. The formatting of durations is in \<open>LuxonFormat\<close> and \<open>LuxonRelative\<close>.
\<close>

subsection \<open>Units and matrices\<close>

datatype dunit = Years | Quarters | Months | Weeks | Days | Hours | Minutes | Seconds | Milliseconds

definition dunit_orderedUnits :: "dunit list" where
  [luxon_defs]: "dunit_orderedUnits =
     [Years, Quarters, Months, Weeks, Days, Hours, Minutes, Seconds, Milliseconds]"

definition dunit_reverseUnits :: "dunit list" where
  [luxon_defs]: "dunit_reverseUnits = rev dunit_orderedUnits"

type_synonym matrix = "dunit \<Rightarrow> dunit \<Rightarrow> rat"

text \<open>\<open>matrix[a][b]\<close> for a unit \<open>b\<close> smaller than \<open>a\<close>; 0 stands for \<open>undefined\<close>, which
  the code never reads.\<close>

definition lowOrderMatrix :: matrix where
  [luxon_defs]: "lowOrderMatrix a b = (case (a, b) of
       (Weeks, Days) \<Rightarrow> 7 | (Weeks, Hours) \<Rightarrow> 7 * 24 | (Weeks, Minutes) \<Rightarrow> 7 * 24 * 60
     | (Weeks, Seconds) \<Rightarrow> 7 * 24 * 60 * 60 | (Weeks, Milliseconds) \<Rightarrow> 7 * 24 * 60 * 60 * 1000
     | (Days, Hours) \<Rightarrow> 24 | (Days, Minutes) \<Rightarrow> 24 * 60 | (Days, Seconds) \<Rightarrow> 24 * 60 * 60
     | (Days, Milliseconds) \<Rightarrow> 24 * 60 * 60 * 1000
     | (Hours, Minutes) \<Rightarrow> 60 | (Hours, Seconds) \<Rightarrow> 60 * 60 | (Hours, Milliseconds) \<Rightarrow> 60 * 60 * 1000
     | (Minutes, Seconds) \<Rightarrow> 60 | (Minutes, Milliseconds) \<Rightarrow> 60 * 1000
     | (Seconds, Milliseconds) \<Rightarrow> 1000 | _ \<Rightarrow> 0)"

definition casualMatrix :: matrix where
  [luxon_defs]: "casualMatrix a b = (case (a, b) of
       (Years, Quarters) \<Rightarrow> 4 | (Years, Months) \<Rightarrow> 12 | (Years, Weeks) \<Rightarrow> 52 | (Years, Days) \<Rightarrow> 365
     | (Years, Hours) \<Rightarrow> 365 * 24 | (Years, Minutes) \<Rightarrow> 365 * 24 * 60
     | (Years, Seconds) \<Rightarrow> 365 * 24 * 60 * 60 | (Years, Milliseconds) \<Rightarrow> 365 * 24 * 60 * 60 * 1000
     | (Quarters, Months) \<Rightarrow> 3 | (Quarters, Weeks) \<Rightarrow> 13 | (Quarters, Days) \<Rightarrow> 91
     | (Quarters, Hours) \<Rightarrow> 91 * 24 | (Quarters, Minutes) \<Rightarrow> 91 * 24 * 60
     | (Quarters, Seconds) \<Rightarrow> 91 * 24 * 60 * 60
     | (Quarters, Milliseconds) \<Rightarrow> 91 * 24 * 60 * 60 * 1000
     | (Months, Weeks) \<Rightarrow> 4 | (Months, Days) \<Rightarrow> 30 | (Months, Hours) \<Rightarrow> 30 * 24
     | (Months, Minutes) \<Rightarrow> 30 * 24 * 60 | (Months, Seconds) \<Rightarrow> 30 * 24 * 60 * 60
     | (Months, Milliseconds) \<Rightarrow> 30 * 24 * 60 * 60 * 1000
     | _ \<Rightarrow> lowOrderMatrix a b)"

definition daysInYearAccurate :: rat where
  [luxon_defs]: "daysInYearAccurate = 146097 / 400"

definition daysInMonthAccurate :: rat where
  [luxon_defs]: "daysInMonthAccurate = 146097 / 4800"

definition accurateMatrix :: matrix where
  [luxon_defs]: "accurateMatrix a b = (case (a, b) of
       (Years, Quarters) \<Rightarrow> 4 | (Years, Months) \<Rightarrow> 12 | (Years, Weeks) \<Rightarrow> daysInYearAccurate / 7
     | (Years, Days) \<Rightarrow> daysInYearAccurate | (Years, Hours) \<Rightarrow> daysInYearAccurate * 24
     | (Years, Minutes) \<Rightarrow> daysInYearAccurate * 24 * 60
     | (Years, Seconds) \<Rightarrow> daysInYearAccurate * 24 * 60 * 60
     | (Years, Milliseconds) \<Rightarrow> daysInYearAccurate * 24 * 60 * 60 * 1000
     | (Quarters, Months) \<Rightarrow> 3 | (Quarters, Weeks) \<Rightarrow> daysInYearAccurate / 28
     | (Quarters, Days) \<Rightarrow> daysInYearAccurate / 4 | (Quarters, Hours) \<Rightarrow> daysInYearAccurate * 24 / 4
     | (Quarters, Minutes) \<Rightarrow> daysInYearAccurate * 24 * 60 / 4
     | (Quarters, Seconds) \<Rightarrow> daysInYearAccurate * 24 * 60 * 60 / 4
     | (Quarters, Milliseconds) \<Rightarrow> daysInYearAccurate * 24 * 60 * 60 * 1000 / 4
     | (Months, Weeks) \<Rightarrow> daysInMonthAccurate / 7 | (Months, Days) \<Rightarrow> daysInMonthAccurate
     | (Months, Hours) \<Rightarrow> daysInMonthAccurate * 24
     | (Months, Minutes) \<Rightarrow> daysInMonthAccurate * 24 * 60
     | (Months, Seconds) \<Rightarrow> daysInMonthAccurate * 24 * 60 * 60
     | (Months, Milliseconds) \<Rightarrow> daysInMonthAccurate * 24 * 60 * 60 * 1000
     | _ \<Rightarrow> lowOrderMatrix a b)"

type_synonym dvals = "(dunit \<times> rat) list"

record duration =
  d_values :: dvals
  d_loc :: locale_obj
  d_longterm :: bool
  d_invalid :: "invalid option"

definition Duration_isValid :: "duration \<Rightarrow> bool" where
  [luxon_defs]: "Duration_isValid d = (d_invalid d = None)"

definition d_matrix :: "duration \<Rightarrow> matrix" where
  [luxon_defs]: "d_matrix d = (if d_longterm d then accurateMatrix else casualMatrix)"

definition Duration_normalizeUnit :: "string \<Rightarrow> dunit res" where
  [luxon_defs]: "Duration_normalizeUnit unit =
     (case map_of [(''year'', Years), (''years'', Years), (''quarter'', Quarters),
        (''quarters'', Quarters), (''month'', Months), (''months'', Months), (''week'', Weeks),
        (''weeks'', Weeks), (''day'', Days), (''days'', Days), (''hour'', Hours), (''hours'', Hours),
        (''minute'', Minutes), (''minutes'', Minutes), (''second'', Seconds), (''seconds'', Seconds),
        (''millisecond'', Milliseconds), (''milliseconds'', Milliseconds)] (toLowerCase unit) of
       None \<Rightarrow> Throw (InvalidUnitError (''Invalid unit '' @ unit)) | Some u \<Rightarrow> Ok u)"

subsection \<open>Construction\<close>

text \<open>\<open>longterm\<close> is \<open>opts.conversionAccuracy === "longterm"\<close>.\<close>

definition Duration_fromObject :: "settings \<Rightarrow> (string \<times> rat uval) list \<Rightarrow> locale_opts \<Rightarrow> bool \<Rightarrow>
  duration res" where
  [luxon_defs]: "Duration_fromObject E ob opts longterm =
     rbind (normalizeObject ob Duration_normalizeUnit) (\<lambda>vals.
     rbind (Locale_fromObject E opts) (\<lambda>loc.
       Ok \<lparr>d_values = vals, d_loc = loc, d_longterm = longterm, d_invalid = None\<rparr>))"

definition uval_of_num :: "num \<Rightarrow> rat uval" where
  [luxon_defs]: "uval_of_num n = (case n of None \<Rightarrow> VNaN | Some x \<Rightarrow> VNum x)"

definition Duration_fromMillis :: "settings \<Rightarrow> num \<Rightarrow> locale_opts \<Rightarrow> bool \<Rightarrow> duration res" where
  [luxon_defs]: "Duration_fromMillis E count opts longterm =
     Duration_fromObject E [(''milliseconds'', uval_of_num count)] opts longterm"

text \<open>What \<open>plus\<close> and its like accept; \<open>DOther\<close> is a value of another type, with its text and
  the name of its type.\<close>

datatype durationLike = DNumber num | DDuration duration | DObject "(string \<times> rat uval) list" | DNull
  | DOther string string

definition fromDurationLike :: "settings \<Rightarrow> durationLike \<Rightarrow> duration res" where
  [luxon_defs]: "fromDurationLike E d = (case d of
       DNumber n \<Rightarrow> Duration_fromMillis E n no_locale_opts False
     | DDuration dur \<Rightarrow> Ok dur
     | DObject ob \<Rightarrow> Duration_fromObject E ob no_locale_opts False
     | DNull \<Rightarrow> Throw (InvalidArgumentError
         ''Duration.fromObject: argument expected to be an object, got null'')
     | DOther v ty \<Rightarrow> Throw (InvalidArgumentError
         (''Unknown duration argument '' @ v @ '' of type '' @ ty)))"

definition Duration_invalid :: "settings \<Rightarrow> invalid \<Rightarrow> duration res" where
  [luxon_defs]: "Duration_invalid E why =
     (if st_throwOnInvalid E
      then Throw (InvalidDurationError (''Invalid Duration: '' @ toMessage why))
      else rbind (Locale_create E None None None False) (\<lambda>loc.
        Ok \<lparr>d_values = [], d_loc = loc, d_longterm = False, d_invalid = Some why\<rparr>))"

text \<open>\<open>clone$1(this, { values: vals }, true)\<close>.\<close>

definition with_values :: "duration \<Rightarrow> dvals \<Rightarrow> duration" where
  [luxon_defs]: "with_values d vals = d\<lparr>d_values := vals, d_invalid := None\<rparr>"

definition Duration_reconfigure :: "settings \<Rightarrow> duration \<Rightarrow> locale_opts \<Rightarrow> bool option \<Rightarrow> duration res" where
  [luxon_defs]: "Duration_reconfigure E d alts longterm =
     rbind (Locale_clone E (d_loc d) (Some (alts\<lparr>lo_outputCalendar := None\<rparr>)) False) (\<lambda>loc.
     rbind (Locale_clone E (d_loc d) (Some \<lparr>lo_locale = Some (l_locale loc),
         lo_numberingSystem = l_numberingSystem loc, lo_outputCalendar = l_outputCalendar loc\<rparr>) False)
       (\<lambda>loc'. Ok (d\<lparr>d_loc := loc', d_invalid := None,
          d_longterm := (case longterm of None \<Rightarrow> d_longterm d | Some b \<Rightarrow> b)\<rparr>)))"

subsection \<open>Conversion\<close>

definition dval :: "dvals \<Rightarrow> dunit \<Rightarrow> rat" where
  [luxon_defs]: "dval vals u = (case map_of vals u of None \<Rightarrow> 0 | Some x \<Rightarrow> x)"

definition antiTrunc :: "rat \<Rightarrow> int" where
  [luxon_defs]: "antiTrunc n = (if n < 0 then \<lfloor>n\<rfloor> else \<lceil>n\<rceil>)"

text \<open>How much of the larger unit \<open>convert\<close> makes of an amount of the smaller one.\<close>

definition convert_added :: "rat \<Rightarrow> rat \<Rightarrow> rat \<Rightarrow> int" where
  [luxon_defs]: "convert_added conv from to =
     (let raw = from / conv; sameSign = (sgn raw = sgn to)
      in if \<not> sameSign \<and> to \<noteq> 0 \<and> \<bar>raw\<bar> \<le> 1 then antiTrunc raw else js_trunc raw)"

definition convert :: "matrix \<Rightarrow> dvals \<Rightarrow> dunit \<Rightarrow> dvals \<Rightarrow> dunit \<Rightarrow> dvals \<times> dvals" where
  [luxon_defs]: "convert m fromMap fromUnit toMap toUnit =
     (let conv = m toUnit fromUnit;
          added = of_int (convert_added conv (dval fromMap fromUnit) (dval toMap toUnit))
      in (AList.update fromUnit (dval fromMap fromUnit - added * conv) fromMap,
          AList.update toUnit (dval toMap toUnit + added) toMap))"

text \<open>The case where both maps are the same object.\<close>

definition convert_same :: "matrix \<Rightarrow> dvals \<Rightarrow> dunit \<Rightarrow> dunit \<Rightarrow> dvals" where
  [luxon_defs]: "convert_same m vals fromUnit toUnit =
     (let conv = m toUnit fromUnit;
          added = of_int (convert_added conv (dval vals fromUnit) (dval vals toUnit));
          vals1 = AList.update toUnit (dval vals toUnit + added) vals
      in AList.update fromUnit (dval vals1 fromUnit - added * conv) vals1)"

definition normalize_step :: "matrix \<Rightarrow> dunit \<Rightarrow> dvals \<times> dunit option \<Rightarrow> dvals \<times> dunit option" where
  [luxon_defs]: "normalize_step m current s =
     (if map_of (fst s) current \<noteq> None
      then ((case snd s of None \<Rightarrow> fst s | Some previous \<Rightarrow> convert_same m (fst s) previous current),
            Some current)
      else s)"

definition normalizeValues :: "matrix \<Rightarrow> dvals \<Rightarrow> dvals" where
  [luxon_defs]: "normalizeValues m vals = fst (fold (normalize_step m) dunit_reverseUnits (vals, None))"

definition Duration_normalize :: "duration \<Rightarrow> duration" where
  [luxon_defs]: "Duration_normalize d =
     (if \<not> Duration_isValid d then d else with_values d (normalizeValues (d_matrix d) (d_values d)))"

text \<open>The loop of \<open>shiftTo\<close> over the units from the largest to the smallest: what is built, what is
  kept in the wings, what is left of the values, and the last unit built.\<close>

record shift =
  sh_built :: dvals
  sh_accumulated :: dvals
  sh_vals :: dvals
  sh_lastUnit :: "dunit option"

fun unit_index :: "dunit \<Rightarrow> nat" where
  "unit_index Years = 0" | "unit_index Quarters = 1" | "unit_index Months = 2" | "unit_index Weeks = 3"
| "unit_index Days = 4" | "unit_index Hours = 5" | "unit_index Minutes = 6" | "unit_index Seconds = 7"
| "unit_index Milliseconds = 8"

definition shift_own :: "matrix \<Rightarrow> dunit \<Rightarrow> dvals \<Rightarrow> dvals \<Rightarrow> rat" where
  [luxon_defs]: "shift_own m k accumulated vals =
     fold (\<lambda>ak own. own + m (fst ak) k * snd ak) accumulated 0 + dval vals k"

definition shift_downs :: "matrix \<Rightarrow> dunit \<Rightarrow> dvals \<Rightarrow> dvals \<Rightarrow> dvals \<times> dvals" where
  [luxon_defs]: "shift_downs m k vals built =
     fold (\<lambda>down (vals, built).
        if unit_index down > unit_index k then convert m vals down built k else (vals, built))
      (map fst vals) (vals, built)"

definition shift_step :: "matrix \<Rightarrow> dunit list \<Rightarrow> dunit \<Rightarrow> shift \<Rightarrow> shift" where
  [luxon_defs]: "shift_step m units k s =
     (if k \<in> set units then
        let own = shift_own m k (sh_accumulated s) (sh_vals s);
            i = of_int (js_trunc own);
            vb = shift_downs m k (sh_vals s) (AList.update k i (sh_built s))
        in \<lparr>sh_built = snd vb,
            sh_accumulated = AList.update k ((own * 1000 - i * 1000) / 1000)
              (map (\<lambda>ak. (fst ak, 0)) (sh_accumulated s)),
            sh_vals = fst vb, sh_lastUnit = Some k\<rparr>
      else (case map_of (sh_vals s) k of None \<Rightarrow> s
            | Some v \<Rightarrow> s\<lparr>sh_accumulated := AList.update k v (sh_accumulated s)\<rparr>))"

definition shift_leftover :: "matrix \<Rightarrow> dunit \<Rightarrow> dvals \<Rightarrow> dvals \<Rightarrow> dvals" where
  [luxon_defs]: "shift_leftover m lastUnit accumulated built =
     fold (\<lambda>(key, a) built.
        if a = 0 then built
        else AList.update lastUnit (dval built lastUnit + (if key = lastUnit then a else a / m lastUnit key))
          built)
      accumulated built"

definition shift_values :: "matrix \<Rightarrow> dunit list \<Rightarrow> dvals \<Rightarrow> dvals" where
  [luxon_defs]: "shift_values m units vals =
     (let s = fold (shift_step m units) dunit_orderedUnits
            \<lparr>sh_built = [], sh_accumulated = [], sh_vals = vals, sh_lastUnit = None\<rparr>
      in (case sh_lastUnit s of None \<Rightarrow> sh_built s
          | Some u \<Rightarrow> shift_leftover m u (sh_accumulated s) (sh_built s)))"

definition shiftTo_units :: "duration \<Rightarrow> dunit list \<Rightarrow> duration" where
  [luxon_defs]: "shiftTo_units d units =
     (if \<not> Duration_isValid d \<or> units = [] then d
      else Duration_normalize (with_values d (shift_values (d_matrix d) units (d_values d))))"

definition shiftTo :: "duration \<Rightarrow> string list \<Rightarrow> duration res" where
  [luxon_defs]: "shiftTo d units =
     (if \<not> Duration_isValid d then Ok d
      else rmap (shiftTo_units d) (mapM Duration_normalizeUnit units))"

subsection \<open>Reading and arithmetic\<close>

text \<open>The getters \<open>years\<close>, \<open>quarters\<close> and so on.\<close>

definition dget :: "duration \<Rightarrow> dunit \<Rightarrow> num" where
  [luxon_defs]: "dget d u = (if Duration_isValid d then Some (dval (d_values d) u) else None)"

definition Duration_get :: "duration \<Rightarrow> string \<Rightarrow> num res" where
  [luxon_defs]: "Duration_get d unit = rmap (dget d) (Duration_normalizeUnit unit)"

definition Duration_as :: "duration \<Rightarrow> string \<Rightarrow> num res" where
  [luxon_defs]: "Duration_as d unit =
     (if Duration_isValid d then rbind (shiftTo d [unit]) (\<lambda>e. Duration_get e unit) else Ok None)"

definition Duration_toMillis :: "duration \<Rightarrow> num res" where
  [luxon_defs]: "Duration_toMillis d = Duration_as d ''milliseconds''"

definition Duration_toObject :: "duration \<Rightarrow> dvals" where
  [luxon_defs]: "Duration_toObject d = (if Duration_isValid d then d_values d else [])"

definition negate_values :: "dvals \<Rightarrow> dvals" where
  [luxon_defs]: "negate_values vals = map (\<lambda>(k, v). (k, if v = 0 then 0 else - v)) vals"

definition negate :: "duration \<Rightarrow> duration" where
  [luxon_defs]: "negate d = (if \<not> Duration_isValid d then d else with_values d (negate_values (d_values d)))"

definition plus_values :: "dvals \<Rightarrow> dvals \<Rightarrow> dvals" where
  [luxon_defs]: "plus_values a b = map (\<lambda>k. (k, dval b k + dval a k))
     (filter (\<lambda>k. map_of b k \<noteq> None \<or> map_of a k \<noteq> None) dunit_orderedUnits)"

text \<open>An invalid argument has no values, and reading a property of \<open>undefined\<close> throws.\<close>

definition plus_duration :: "duration \<Rightarrow> duration \<Rightarrow> duration res" where
  [luxon_defs]: "plus_duration d dur =
     (if \<not> Duration_isValid dur
      then Throw (TypeError ''Cannot convert undefined or null to object'')
      else Ok (with_values d (plus_values (d_values d) (d_values dur))))"

definition Duration_plus :: "settings \<Rightarrow> duration \<Rightarrow> durationLike \<Rightarrow> duration res" where
  [luxon_defs]: "Duration_plus E d dl =
     (if \<not> Duration_isValid d then Ok d else rbind (fromDurationLike E dl) (plus_duration d))"

definition Duration_minus :: "settings \<Rightarrow> duration \<Rightarrow> durationLike \<Rightarrow> duration res" where
  [luxon_defs]: "Duration_minus E d dl =
     (if \<not> Duration_isValid d then Ok d
      else rbind (fromDurationLike E dl) (\<lambda>dur. Duration_plus E d (DDuration (negate dur))))"

definition mapUnits :: "(rat \<Rightarrow> dunit \<Rightarrow> rat uval) \<Rightarrow> duration \<Rightarrow> duration res" where
  [luxon_defs]: "mapUnits fn d =
     (if \<not> Duration_isValid d then Ok d
      else rmap (with_values d)
        (mapM (\<lambda>(k, v). rmap (Pair k) (asNumber (fn v k))) (d_values d)))"

definition Duration_set :: "duration \<Rightarrow> (string \<times> rat uval) list \<Rightarrow> duration res" where
  [luxon_defs]: "Duration_set d values =
     (if \<not> Duration_isValid d then Ok d
      else rmap (\<lambda>n. with_values d (fold (\<lambda>(k, v) vals. AList.update k v vals) n (d_values d)))
        (normalizeObject values Duration_normalizeUnit))"

definition eq_values :: "dvals \<Rightarrow> dvals \<Rightarrow> bool" where
  [luxon_defs]: "eq_values a b = list_all (\<lambda>u.
     (if map_of a u = None \<or> map_of a u = Some 0 then map_of b u = None \<or> map_of b u = Some 0
      else map_of a u = map_of b u)) dunit_orderedUnits"

definition Duration_equals :: "duration \<Rightarrow> duration \<Rightarrow> bool" where
  [luxon_defs]: "Duration_equals d other \<longleftrightarrow> Duration_isValid d \<and> Duration_isValid other \<and>
     Locale_equals (d_loc d) (d_loc other) \<and> eq_values (d_values d) (d_values other)"

end
