(* ===== verification/DurationLaws.thy ===== *)
theory DurationLaws
  imports LuxonDuration
begin

text \<open>
  What the conversions of durations keep: a matrix whose lengths fit together gives every duration
  a length in milliseconds, which \<open>convert\<close>, \<open>normalize\<close> and \<open>shiftTo\<close> do not
  change. The \<open>longterm\<close> matrix fits together for all units, the \<open>casual\<close> one from weeks
  down. Reading any duration \<open>as("milliseconds")\<close> is a linear function of its values.
\<close>

subsection \<open>Lengths\<close>

definition unit_ms :: "matrix \<Rightarrow> dunit \<Rightarrow> rat" where
  "unit_ms m u = (if u = Milliseconds then 1 else m u Milliseconds)"

definition tot :: "matrix \<Rightarrow> (dunit \<Rightarrow> rat) \<Rightarrow> rat" where
  "tot m f = (\<Sum>u\<leftarrow>dunit_orderedUnits. f u * unit_ms m u)"

text \<open>The length of a duration in milliseconds.\<close>

definition values_ms :: "matrix \<Rightarrow> dvals \<Rightarrow> rat" where
  "values_ms m vals = tot m (dval vals)"

definition fits :: "matrix \<Rightarrow> dunit set \<Rightarrow> bool" where
  "fits m us \<longleftrightarrow> (\<forall>a\<in>us. \<forall>b\<in>us. unit_index a < unit_index b \<longrightarrow>
     m a b * unit_ms m b = unit_ms m a \<and> m a b \<noteq> 0)"

lemma accurate_fits: "fits accurateMatrix UNIV"
proof -
  have "unit_index a < unit_index b \<Longrightarrow>
      accurateMatrix a b * unit_ms accurateMatrix b = unit_ms accurateMatrix a \<and> accurateMatrix a b \<noteq> 0"
    for a b
    by (cases a; cases b) (simp_all add: accurateMatrix_def unit_ms_def lowOrderMatrix_def
        daysInYearAccurate_def daysInMonthAccurate_def)
  then show ?thesis by (simp add: fits_def)
qed

lemma casual_fits: "fits casualMatrix {Weeks, Days, Hours, Minutes, Seconds, Milliseconds}"
  by (simp add: fits_def casualMatrix_def unit_ms_def lowOrderMatrix_def)

lemma unit_mem [simp]: "u \<in> set dunit_orderedUnits"
  by (cases u) (simp_all add: dunit_orderedUnits_def)

lemma unit_index_inject [simp]: "unit_index a = unit_index b \<longleftrightarrow> a = b"
  by (cases a; cases b) simp_all

lemma dval_Nil [simp]: "dval [] u = 0"
  by (simp add: dval_def)

lemma dval_update [simp]: "dval (AList.update k v vals) u = (if u = k then v else dval vals u)"
  by (simp add: dval_def update_conv')

definition keys :: "dvals \<Rightarrow> dunit set" where
  "keys vals = fst ` set vals"

lemma keys_Nil [simp]: "keys [] = {}"
  by (simp add: keys_def)

lemma keys_map_of: "u \<in> keys vals \<longleftrightarrow> map_of vals u \<noteq> None"
  by (simp add: keys_def map_of_eq_None_iff)

lemma keys_Cons [simp]: "keys ((a, x) # vals) = insert a (keys vals)"
  by (simp add: keys_def)

lemma dval_Cons [simp]: "dval ((a, x) # vals) u = (if u = a then x else dval vals u)"
  by (simp add: dval_def)

lemma dval_absent: "u \<notin> keys vals \<Longrightarrow> dval vals u = 0"
  by (simp add: dval_def keys_map_of)

lemma keys_update [simp]: "keys (AList.update k v vals) = insert k (keys vals)"
  by (rule set_eqI) (simp add: keys_map_of update_conv')

lemma tot_add: "tot m (\<lambda>u. f u + g u) = tot m f + tot m g"
  by (simp add: tot_def dunit_orderedUnits_def algebra_simps)

lemma tot_point: "tot m (f(k := v)) = tot m f + (v - f k) * unit_ms m k"
  by (cases k) (simp_all add: tot_def dunit_orderedUnits_def algebra_simps)

lemma tot_cong: "(\<And>u. f u = g u) \<Longrightarrow> tot m f = tot m g"
  by (simp add: ext [of f g])

lemma tot_zero [simp]: "tot m (\<lambda>u. 0) = 0"
  by (simp add: tot_def dunit_orderedUnits_def)

lemma dval_update_fun: "dval (AList.update k v vals) = (dval vals)(k := v)"
  by (rule ext) simp

lemma values_ms_update:
  "values_ms m (AList.update k v vals) = values_ms m vals + (v - dval vals k) * unit_ms m k"
  by (simp add: values_ms_def dval_update_fun tot_point)

lemma values_ms_Nil [simp]: "values_ms m [] = 0"
  by (simp add: values_ms_def tot_def dunit_orderedUnits_def)

text \<open>A map of one key.\<close>

lemma values_ms_single: "keys vals = {u} \<Longrightarrow> values_ms m vals = dval vals u * unit_ms m u"
proof -
  assume "keys vals = {u}"
  then have "dval vals = (\<lambda>u. 0)(u := dval vals u)" by (intro ext) (auto intro: dval_absent)
  then show ?thesis unfolding values_ms_def by (metis add_0 diff_0_right fun_upd_same tot_point tot_zero)
qed

subsection \<open>Conversion keeps the length\<close>

lemma convert_ms:
  assumes "m toU fromU * unit_ms m fromU = unit_ms m toU"
  shows "convert m vals fromU built toU = (vals', built') \<Longrightarrow>
    values_ms m vals' + values_ms m built' = values_ms m vals + values_ms m built"
  unfolding assms [symmetric] convert_def Let_def
  by (auto simp: values_ms_update assms [symmetric] algebra_simps)

lemma convert_same_ms:
  assumes "m toU fromU * unit_ms m fromU = unit_ms m toU" "fromU \<noteq> toU"
  shows "values_ms m (convert_same m vals fromU toU) = values_ms m vals"
  using assms(2) by (simp add: convert_same_def Let_def values_ms_update assms(1) [symmetric] algebra_simps)

lemma convert_keys:
  "convert m vals f built t = (vals', built') \<Longrightarrow> f \<in> keys vals \<Longrightarrow>
    keys vals' = keys vals \<and> keys built' = insert t (keys built)"
  by (auto simp: convert_def Let_def)

lemma convert_same_keys:
  "f \<in> keys vals \<Longrightarrow> t \<in> keys vals \<Longrightarrow> keys (convert_same m vals f t) = keys vals"
  by (auto simp: convert_same_def Let_def)

lemma fitsD:
  "fits m us \<Longrightarrow> a \<in> us \<Longrightarrow> b \<in> us \<Longrightarrow> unit_index a < unit_index b \<Longrightarrow>
    m a b * unit_ms m b = unit_ms m a \<and> m a b \<noteq> 0"
  by (simp add: fits_def)

lemma fits_subset: "fits m us \<Longrightarrow> vs \<subseteq> us \<Longrightarrow> fits m vs"
  by (auto simp: fits_def)

text \<open>One pass over units from small to large.\<close>

lemma normalize_fold:
  assumes "fits m (keys v)" "sorted_wrt (\<lambda>a b. unit_index b < unit_index a) us"
    "\<And>p. prev = Some p \<Longrightarrow> p \<in> keys v \<and> (\<forall>u\<in>set us. unit_index u < unit_index p)"
  shows "values_ms m (fst (fold (normalize_step m) us (v, prev))) = values_ms m v
    \<and> keys (fst (fold (normalize_step m) us (v, prev))) = keys v"
  using assms
proof (induction us arbitrary: v prev)
  case (Cons u us)
  show ?case
  proof (cases "u \<in> keys v")
    case False
    then have "normalize_step m u (v, prev) = (v, prev)" by (simp add: normalize_step_def keys_map_of)
    then show ?thesis using Cons.prems Cons.IH [of v prev] by simp
  next
    case True
    define v' where "v' = (case prev of None \<Rightarrow> v | Some p \<Rightarrow> convert_same m v p u)"
    have step: "normalize_step m u (v, prev) = (v', Some u)"
      using True by (auto simp: normalize_step_def keys_map_of v'_def split: option.split)
    have "values_ms m v' = values_ms m v \<and> keys v' = keys v"
    proof (cases prev)
      case (Some p)
      then have p: "p \<in> keys v" "unit_index u < unit_index p" using Cons.prems(3) by auto
      then have "p \<noteq> u" by auto
      with fitsD [OF Cons.prems(1) True p] p True Some show ?thesis
        by (auto simp: v'_def convert_same_ms convert_same_keys)
    qed (simp add: v'_def)
    moreover have "sorted_wrt (\<lambda>a b. unit_index b < unit_index a) us"
      "\<forall>w\<in>set us. unit_index w < unit_index u" using Cons.prems(2) by auto
    ultimately show ?thesis using Cons.prems(1) True Cons.IH [of v' "Some u"] by (simp add: step)
  qed
qed simp

lemma normalizeValues_ms:
  assumes "fits m (keys v)"
  shows "values_ms m (normalizeValues m v) = values_ms m v" "keys (normalizeValues m v) = keys v"
proof -
  have "sorted_wrt (\<lambda>a b. unit_index b < unit_index a) dunit_reverseUnits"
    by (simp add: dunit_reverseUnits_def dunit_orderedUnits_def)
  from normalize_fold [OF assms this, of None]
  show "values_ms m (normalizeValues m v) = values_ms m v" "keys (normalizeValues m v) = keys v"
    by (simp_all add: normalizeValues_def)
qed

subsection \<open>Shifting keeps the length\<close>

lemma shift_downs_ms:
  assumes "fits m (insert k (keys vals))" "k \<in> keys built" "set ds \<subseteq> keys vals"
  defines "r \<equiv> fold (\<lambda>down (vals, built).
        if unit_index down > unit_index k then convert m vals down built k else (vals, built))
      ds (vals, built)"
  shows "values_ms m (fst r) + values_ms m (snd r) = values_ms m vals + values_ms m built
    \<and> keys (fst r) = keys vals \<and> keys (snd r) = keys built
    \<and> (\<forall>u. unit_index u \<le> unit_index k \<longrightarrow> dval (fst r) u = dval vals u)"
  using assms(1-3) unfolding r_def
proof (induction ds arbitrary: vals built)
  case (Cons d ds)
  obtain vals' built' where c: "(if unit_index d > unit_index k then convert m vals d built k else (vals, built))
      = (vals', built')" by fastforce
  have "values_ms m vals' + values_ms m built' = values_ms m vals + values_ms m built
    \<and> keys vals' = keys vals \<and> keys built' = keys built
    \<and> (\<forall>u. unit_index u \<le> unit_index k \<longrightarrow> dval vals' u = dval vals u)"
  proof (cases "unit_index d > unit_index k")
    case True
    with Cons.prems c have cv: "convert m vals d built k = (vals', built')" "d \<in> keys vals" by auto
    moreover have "m k d * unit_ms m d = unit_ms m k" using Cons.prems True by (auto simp: fits_def)
    ultimately show ?thesis
      using convert_ms [OF _ cv(1)] convert_keys [OF cv] Cons.prems(2) True
      by (auto simp: insert_absorb) (auto simp: convert_def Let_def)
  qed (use c in auto)
  then show ?case using Cons.prems Cons.IH [of vals' built'] c by simp
qed simp

lemma values_ms_Cons:
  "a \<notin> keys acc \<Longrightarrow> values_ms m ((a, x) # acc) = values_ms m acc + x * unit_ms m a"
proof -
  assume "a \<notin> keys acc"
  then have "dval ((a, x) # acc) = (dval acc)(a := x)" "dval acc a = 0"
    by (auto simp: dval_def keys_map_of)
  then show ?thesis by (simp add: values_ms_def tot_point)
qed

text \<open>What is in the wings, expressed in a smaller unit.\<close>

lemma shift_own_ms:
  assumes "distinct (map fst acc)" "\<And>a. a \<in> keys acc \<Longrightarrow> m a k * unit_ms m k = unit_ms m a"
  shows "shift_own m k acc vals * unit_ms m k = values_ms m acc + dval vals k * unit_ms m k"
proof -
  have "fold (\<lambda>ak own. own + m (fst ak) k * snd ak) acc own * unit_ms m k
      = own * unit_ms m k + values_ms m acc" for own
    using assms
  proof (induction acc arbitrary: own)
    case Nil
    then show ?case by (simp add: values_ms_def tot_def)
  next
    case (Cons ax acc)
    obtain a x where ax: "ax = (a, x)" by fastforce
    have a: "a \<notin> keys acc" "m a k * unit_ms m k = unit_ms m a"
      using Cons.prems by (auto simp: keys_def ax)
    have "fold (\<lambda>ak own. own + m (fst ak) k * snd ak) (ax # acc) own * unit_ms m k
        = (own + m a k * x) * unit_ms m k + values_ms m acc"
      unfolding ax using Cons.IH [of "own + m a k * x"] Cons.prems by (simp add: keys_def)
    also have "\<dots> = own * unit_ms m k + x * (m a k * unit_ms m k) + values_ms m acc"
      by (simp add: algebra_simps)
    finally show ?case unfolding a(2) ax values_ms_Cons [OF a(1)] by simp
  qed
  from this [of 0] show ?thesis by (simp add: shift_own_def distrib_right)
qed

lemma values_ms_zeroed: "values_ms m (map (\<lambda>ak. (fst ak, 0)) acc) = 0"
proof -
  have "dval (map (\<lambda>ak. (fst ak, 0)) acc) u = 0" for u
    by (induction acc) (auto simp: dval_def)
  then show ?thesis by (simp add: values_ms_def tot_def)
qed

lemma keys_zeroed [simp]: "keys (map (\<lambda>ak. (fst ak, 0)) acc) = keys acc"
  by (simp add: keys_def image_image)

lemma dval_zeroed [simp]: "dval (map (\<lambda>ak. (fst ak, 0)) acc) u = 0"
  by (induction acc) (auto simp: dval_def)

text \<open>The invariant of the loop over the remaining units \<open>us\<close>: the length is shared between what
  is built, what is in the wings and what remains.\<close>

definition remaining :: "dunit list \<Rightarrow> dvals \<Rightarrow> dunit \<Rightarrow> rat" where
  "remaining us vals u = (if u \<in> set us then dval vals u else 0)"

record shift_params =
  sp_keys :: "dunit set"
  sp_units :: "dunit list"
  sp_ms :: rat

definition shift_inv :: "matrix \<Rightarrow> shift_params \<Rightarrow> dunit list \<Rightarrow> shift \<Rightarrow> bool" where
  "shift_inv m p us s \<longleftrightarrow>
     values_ms m (sh_built s) + values_ms m (sh_accumulated s) + tot m (remaining us (sh_vals s)) = sp_ms p \<and>
     keys (sh_vals s) = sp_keys p \<and> keys (sh_accumulated s) \<subseteq> sp_keys p \<union> set (sp_units p) \<and>
     distinct (map fst (sh_accumulated s)) \<and>
     (\<forall>a\<in>keys (sh_accumulated s). \<forall>u\<in>set us. unit_index a < unit_index u) \<and>
     keys (sh_built s) \<inter> set us = {} \<and>
     (case sh_lastUnit s of None \<Rightarrow> set (sp_units p) \<subseteq> set us
      | Some l \<Rightarrow> l \<in> set (sp_units p) \<and> (\<forall>u\<in>set us. unit_index l < unit_index u) \<and>
          (\<forall>a\<in>keys (sh_accumulated s). dval (sh_accumulated s) a \<noteq> 0 \<longrightarrow> unit_index l \<le> unit_index a))"

lemma tot_remaining:
  assumes "k \<notin> set us"
  shows "tot m (remaining (k # us) vals) = dval vals k * unit_ms m k + tot m (remaining us vals)"
proof -
  have "remaining (k # us) vals = (remaining us vals)(k := dval vals k)"
    using assms by (auto simp: remaining_def)
  with assms show ?thesis by (simp add: tot_point) (simp add: remaining_def)
qed

lemma shift_step_skip:
  assumes inv: "shift_inv m p (k # us) s" and k: "k \<notin> set (sp_units p)" "k \<notin> set us"
    and us: "\<forall>u\<in>set us. unit_index k < unit_index u"
  shows "shift_inv m p us (shift_step m (sp_units p) k s)"
proof (cases "map_of (sh_vals s) k")
  case None
  then have "dval (sh_vals s) k = 0" by (simp add: dval_def)
  with None inv k show ?thesis
    by (auto simp: shift_inv_def shift_step_def tot_remaining split: option.splits)
next
  case (Some v)
  then have v: "dval (sh_vals s) k = v" "k \<in> sp_keys p"
    using inv by (auto simp: dval_def shift_inv_def keys_map_of)
  have "k \<notin> keys (sh_accumulated s)" using inv by (auto simp: shift_inv_def)
  then have "dval (sh_accumulated s) k = 0" by (rule dval_absent)
  then show ?thesis
    using Some inv k us v
    by (auto simp: shift_inv_def shift_step_def tot_remaining values_ms_update distinct_update
        split: option.splits)
qed

lemma shift_step_build:
  assumes inv: "shift_inv m p (k # us) s" and k: "k \<in> set (sp_units p)" "k \<notin> set us"
    and us: "\<forall>u\<in>set us. unit_index k < unit_index u"
      "\<forall>u\<in>sp_keys p. unit_index k < unit_index u \<longrightarrow> u \<in> set us"
    and f: "fits m (sp_keys p \<union> set (sp_units p))"
  shows "shift_inv m p us (shift_step m (sp_units p) k s)"
proof -
  define own where "own = shift_own m k (sh_accumulated s) (sh_vals s)"
  define i :: rat where "i = of_int (js_trunc own)"
  define vb where "vb = shift_downs m k (sh_vals s) (AList.update k i (sh_built s))"
  have acc: "a \<in> keys (sh_accumulated s) \<Longrightarrow> m a k * unit_ms m k = unit_ms m a" for a
    using inv k f unfolding shift_inv_def by (auto simp: fits_def)
  have d: "distinct (map fst (sh_accumulated s))" and kv: "keys (sh_vals s) = sp_keys p"
    and kb: "k \<notin> keys (sh_built s)" using inv by (auto simp: shift_inv_def)
  have own: "own * unit_ms m k = values_ms m (sh_accumulated s) + dval (sh_vals s) k * unit_ms m k"
    unfolding own_def by (rule shift_own_ms [OF d acc])
  have downs: "values_ms m (fst vb) + values_ms m (snd vb)
      = values_ms m (sh_vals s) + values_ms m (AList.update k i (sh_built s))
    \<and> keys (fst vb) = sp_keys p \<and> keys (snd vb) = insert k (keys (sh_built s))
    \<and> (\<forall>u. unit_index u \<le> unit_index k \<longrightarrow> dval (fst vb) u = dval (sh_vals s) u)"
  proof -
    have "fits m (insert k (keys (sh_vals s)))" using f k(1) kv by (auto intro: fits_subset)
    from shift_downs_ms [OF this, of "AList.update k i (sh_built s)" "map fst (sh_vals s)"] kv
    show ?thesis unfolding vb_def shift_downs_def by (simp add: keys_def [symmetric])
  qed
  have rem: "tot m (remaining us (fst vb)) - values_ms m (fst vb)
      = tot m (remaining us (sh_vals s)) - values_ms m (sh_vals s)"
  proof -
    have split: "tot m (remaining us v) = values_ms m v - tot m (\<lambda>u. if u \<in> set us then 0 else dval v u)"
      for v
    proof -
      have "dval v = (\<lambda>u. remaining us v u + (if u \<in> set us then 0 else dval v u))"
        by (auto simp: remaining_def)
      then have "values_ms m v = tot m (remaining us v) + tot m (\<lambda>u. if u \<in> set us then 0 else dval v u)"
        unfolding values_ms_def by (metis tot_add)
      then show ?thesis by simp
    qed
    have "u \<notin> set us \<Longrightarrow> dval (fst vb) u = dval (sh_vals s) u" for u
    proof (cases "unit_index u \<le> unit_index k")
      case False
      assume "u \<notin> set us"
      with us(2) False have "u \<notin> sp_keys p" by auto
      with downs kv show ?thesis by (simp add: dval_absent)
    qed (use downs in blast)
    then have "(\<lambda>u. if u \<in> set us then 0 else dval (fst vb) u)
      = (\<lambda>u. if u \<in> set us then 0 else dval (sh_vals s) u)" by auto
    then show ?thesis unfolding split by simp
  qed
  have built: "values_ms m (AList.update k i (sh_built s)) = values_ms m (sh_built s) + i * unit_ms m k"
    using kb by (simp add: values_ms_update dval_absent)
  have step: "shift_step m (sp_units p) k s =
    \<lparr>sh_built = snd vb, sh_accumulated = AList.update k (own - i)
        (map (\<lambda>ak. (fst ak, 0)) (sh_accumulated s)), sh_vals = fst vb, sh_lastUnit = Some k\<rparr>"
    using k by (simp add: shift_step_def own_def i_def vb_def Let_def diff_divide_distrib)
  have "values_ms m (snd vb) + (own - i) * unit_ms m k + tot m (remaining us (fst vb)) = sp_ms p"
    using inv rem downs built own unfolding shift_inv_def tot_remaining [OF k(2)]
    by (simp add: left_diff_distrib)
  then show ?thesis
    using inv us(1) k downs kb unfolding step shift_inv_def
    by (auto simp: values_ms_update values_ms_zeroed distinct_update o_def split: option.splits)
qed

lemma shift_fold_inv:
  assumes "fits m (sp_keys p \<union> set (sp_units p))" "sorted_wrt (\<lambda>a b. unit_index a < unit_index b) us"
    "shift_inv m p us s"
    "\<forall>k\<in>set us. \<forall>u\<in>sp_keys p. unit_index k < unit_index u \<longrightarrow> u \<in> set us"
  shows "shift_inv m p [] (fold (shift_step m (sp_units p)) us s)"
  using assms(2-4)
proof (induction us arbitrary: s)
  case (Cons k us)
  have k: "k \<notin> set us" and us: "\<forall>u\<in>set us. unit_index k < unit_index u"
    using Cons.prems(1) by auto
  have k2: "\<forall>u\<in>sp_keys p. unit_index k < unit_index u \<longrightarrow> u \<in> set us" using Cons.prems(3) by fastforce
  have "shift_inv m p us (shift_step m (sp_units p) k s)"
    by (cases "k \<in> set (sp_units p)")
      (use shift_step_build [OF Cons.prems(2) _ k us k2 assms(1)]
        shift_step_skip [OF Cons.prems(2) _ k us] in auto)
  moreover have "\<forall>k\<in>set us. \<forall>u\<in>sp_keys p. unit_index k < unit_index u \<longrightarrow> u \<in> set us"
    using Cons.prems(3) us by (metis less_irrefl less_trans list.set_intros(2) set_ConsD)
  ultimately show ?case using Cons.IH Cons.prems(1) by simp
qed simp

lemma shift_leftover_ms:
  assumes "distinct (map fst acc)"
    "\<And>a. a \<in> keys acc \<Longrightarrow> dval acc a \<noteq> 0 \<Longrightarrow> a \<noteq> l \<Longrightarrow> m l a * unit_ms m a = unit_ms m l \<and> m l a \<noteq> 0"
  shows "values_ms m (shift_leftover m l acc built) = values_ms m built + values_ms m acc"
  using assms unfolding shift_leftover_def
proof (induction acc arbitrary: built)
  case Nil
  then show ?case by (simp add: values_ms_def tot_def)
next
  case (Cons ax acc)
  obtain a x where ax: "ax = (a, x)" by fastforce
  have a: "a \<notin> keys acc" using Cons.prems(1) by (auto simp: keys_def ax)
  have x: "x \<noteq> 0 \<Longrightarrow> a \<noteq> l \<Longrightarrow> m l a * unit_ms m a = unit_ms m l \<and> m l a \<noteq> 0"
    using Cons.prems(2) [of a] by (simp add: ax)
  define b' where "b' = (if x = 0 then built
    else AList.update l (dval built l + (if a = l then x else x / m l a)) built)"
  have "values_ms m b' = values_ms m built + x * unit_ms m a"
  proof (cases "x = 0 \<or> a = l")
    case False
    then have ml: "unit_ms m l = m l a * unit_ms m a" "m l a \<noteq> 0" using x by auto
    have "(x / m l a) * unit_ms m l = x * unit_ms m a" unfolding ml(1) using ml(2) by simp
    with False show ?thesis by (simp add: b'_def values_ms_update)
  qed (auto simp: b'_def values_ms_update)
  moreover have "values_ms m (fold (\<lambda>(key, a) built. if a = 0 then built
      else AList.update l (dval built l + (if key = l then a else a / m l key)) built) acc b')
      = values_ms m b' + values_ms m acc"
  proof (rule Cons.IH)
    show "distinct (map fst acc)" using Cons.prems(1) by simp
    show "m l c * unit_ms m c = unit_ms m l \<and> m l c \<noteq> 0"
      if "c \<in> keys acc" "dval acc c \<noteq> 0" "c \<noteq> l" for c
      using that a Cons.prems(2) [of c] by (cases "c = a") (simp_all add: ax)
  qed
  ultimately show ?case by (simp add: ax b'_def values_ms_Cons [OF a])
qed

lemma shift_values_ms:
  assumes f: "fits m (keys vals \<union> set units)" and "units \<noteq> []"
  shows "values_ms m (shift_values m units vals) = values_ms m vals"
proof -
  define p where "p = \<lparr>sp_keys = keys vals, sp_units = units, sp_ms = values_ms m vals\<rparr>"
  define s where "s = fold (shift_step m units) dunit_orderedUnits
      \<lparr>sh_built = [], sh_accumulated = [], sh_vals = vals, sh_lastUnit = None\<rparr>"
  have "remaining dunit_orderedUnits vals = dval vals" by (rule ext) (simp add: remaining_def)
  then have "shift_inv m p dunit_orderedUnits
      \<lparr>sh_built = [], sh_accumulated = [], sh_vals = vals, sh_lastUnit = None\<rparr>"
    by (simp add: shift_inv_def p_def subset_iff) (simp add: values_ms_def)
  moreover have "sorted_wrt (\<lambda>a b. unit_index a < unit_index b) dunit_orderedUnits"
    by (simp add: dunit_orderedUnits_def)
  ultimately have inv: "shift_inv m p [] s"
    using shift_fold_inv [of m p dunit_orderedUnits] f by (simp add: p_def s_def)
  with assms(2) obtain l where l: "sh_lastUnit s = Some l" "l \<in> set units"
    by (cases "sh_lastUnit s") (auto simp: shift_inv_def p_def)
  have "remaining [] (sh_vals s) = (\<lambda>u. 0)" by (auto simp: remaining_def)
  with inv have ms: "values_ms m (sh_built s) + values_ms m (sh_accumulated s) = values_ms m vals"
    by (simp add: shift_inv_def p_def)
  have "values_ms m (shift_leftover m l (sh_accumulated s) (sh_built s))
      = values_ms m (sh_built s) + values_ms m (sh_accumulated s)"
  proof (rule shift_leftover_ms)
    show "distinct (map fst (sh_accumulated s))" using inv by (simp add: shift_inv_def)
    show "m l a * unit_ms m a = unit_ms m l \<and> m l a \<noteq> 0"
      if "a \<in> keys (sh_accumulated s)" "dval (sh_accumulated s) a \<noteq> 0" "a \<noteq> l" for a
    proof -
      have "unit_index l \<le> unit_index a" "a \<in> keys vals \<union> set units"
        using inv that l by (auto simp: shift_inv_def p_def)
      with that(3) have "unit_index l < unit_index a" by (simp add: order.not_eq_order_implies_strict)
      with f l(2) \<open>a \<in> keys vals \<union> set units\<close> show ?thesis by (simp add: fits_def)
    qed
  qed
  with ms l show ?thesis by (simp add: shift_values_def s_def [symmetric])
qed

text \<open>Under a fitting matrix the length of a duration survives \<open>normalize\<close> and \<open>shiftTo\<close>.\<close>

lemma with_values_simps [simp]:
  "d_matrix (with_values d v) = d_matrix d" "d_values (with_values d v) = v"
  "d_loc (with_values d v) = d_loc d" "d_longterm (with_values d v) = d_longterm d"
  "Duration_isValid (with_values d v)"
  by (simp_all add: with_values_def d_matrix_def Duration_isValid_def)

definition d_ms :: "duration \<Rightarrow> rat" where
  "d_ms d = values_ms (d_matrix d) (d_values d)"

lemma d_ms_normalize: "fits (d_matrix d) (keys (d_values d)) \<Longrightarrow> d_ms (Duration_normalize d) = d_ms d"
  by (simp add: d_ms_def Duration_normalize_def normalizeValues_ms)

subsection \<open>Keys of what is built\<close>

lemma shift_downs_keys:
  "set ds \<subseteq> keys vals \<Longrightarrow> k \<in> keys built \<Longrightarrow>
   keys (snd (fold (\<lambda>down (vals, built).
        if unit_index down > unit_index k then convert m vals down built k else (vals, built))
      ds (vals, built))) = keys built"
proof (induction ds arbitrary: vals built)
  case (Cons d ds)
  obtain vals' built' where c: "convert m vals d built k = (vals', built')" by fastforce
  then have "keys vals' = keys vals" "keys built' = keys built"
    using convert_keys [OF c] Cons.prems by auto
  then show ?case using Cons c by auto
qed simp

lemma shift_step_keys:
  "keys (sh_built (shift_step m units k s)) =
     (if k \<in> set units then insert k (keys (sh_built s)) else keys (sh_built s))"
proof (cases "k \<in> set units")
  case True
  then show ?thesis
    using shift_downs_keys [of "map fst (sh_vals s)" "sh_vals s" k "AList.update k _ (sh_built s)" m]
    by (simp add: shift_step_def Let_def shift_downs_def keys_def [symmetric])
qed (auto simp: shift_step_def split: option.splits)

lemma shift_fold_keys:
  "keys (sh_built (fold (shift_step m units) us s)) = keys (sh_built s) \<union> (set us \<inter> set units)"
  by (induction us arbitrary: s) (auto simp: shift_step_keys)

lemma shift_leftover_keys: "l \<in> keys built \<Longrightarrow> keys (shift_leftover m l acc built) = keys built"
  unfolding shift_leftover_def by (induction acc arbitrary: built) (auto simp: insert_absorb split: if_splits)

lemma shift_fold_last:
  "(\<forall>l. sh_lastUnit s = Some l \<longrightarrow> l \<in> keys (sh_built s)) \<Longrightarrow>
   sh_lastUnit (fold (shift_step m units) us s) = Some l \<Longrightarrow>
   l \<in> keys (sh_built (fold (shift_step m units) us s))"
proof (induction us arbitrary: s)
  case (Cons k us)
  have "\<forall>l. sh_lastUnit (shift_step m units k s) = Some l \<longrightarrow>
      l \<in> keys (sh_built (shift_step m units k s))"
    unfolding shift_step_keys using Cons.prems(1)
    by (auto simp: shift_step_def Let_def split: option.splits)
  then show ?case using Cons.IH Cons.prems(2) by simp
qed simp

lemma shift_values_keys: "keys (shift_values m units vals) = set units"
proof -
  define s where "s = fold (shift_step m units) dunit_orderedUnits
      \<lparr>sh_built = [], sh_accumulated = [], sh_vals = vals, sh_lastUnit = None\<rparr>"
  have "keys (sh_built s) = set units" by (auto simp: s_def shift_fold_keys)
  moreover have "sh_lastUnit s = Some l \<Longrightarrow> l \<in> keys (sh_built s)" for l
    unfolding s_def by (rule shift_fold_last) simp_all
  ultimately show ?thesis
    by (cases "sh_lastUnit s") (simp_all add: shift_values_def s_def [symmetric] shift_leftover_keys)
qed

lemma d_ms_shiftTo:
  assumes "fits (d_matrix d) (keys (d_values d) \<union> set units)"
  shows "d_ms (shiftTo_units d units) = d_ms d"
proof (cases "Duration_isValid d \<and> units \<noteq> []")
  case True
  let ?e = "with_values d (shift_values (d_matrix d) units (d_values d))"
  have "fits (d_matrix ?e) (keys (d_values ?e))"
    using assms by (auto simp: shift_values_keys intro: fits_subset)
  from d_ms_normalize [OF this] show ?thesis
    using True shift_values_ms [OF assms] by (simp add: d_ms_def shiftTo_units_def)
qed (auto simp: shiftTo_units_def)

lemma shiftTo_keys:
  assumes "Duration_isValid d" "units \<noteq> []" "fits (d_matrix d) (set units)"
  shows "keys (d_values (shiftTo_units d units)) = set units"
proof -
  have "fits (d_matrix d) (keys (shift_values (d_matrix d) units (d_values d)))"
    using assms by (simp add: shift_values_keys)
  from normalizeValues_ms(2) [OF this] show ?thesis
    using assms by (simp add: shiftTo_units_def Duration_normalize_def shift_values_keys)
qed

subsection \<open>Reading in milliseconds\<close>

lemma shift_fold_skip:
  "(\<forall>u\<in>set us. u \<notin> set units) \<Longrightarrow> sh_built (fold (shift_step m units) us s) = sh_built s
    \<and> sh_vals (fold (shift_step m units) us s) = sh_vals s"
proof (induction us arbitrary: s)
  case (Cons u us)
  then have "sh_built (shift_step m units u s) = sh_built s" "sh_vals (shift_step m units u s) = sh_vals s"
    by (auto simp: shift_step_def split: option.split)
  with Cons show ?case by simp
qed simp

lemma shift_inv_skip:
  assumes "sorted_wrt (\<lambda>a b. unit_index a < unit_index b) (us @ [Milliseconds])"
    "shift_inv m p (us @ [Milliseconds]) s" "sp_units p = [Milliseconds]"
  shows "shift_inv m p [Milliseconds] (fold (shift_step m [Milliseconds]) us s)"
  using assms
proof (induction us arbitrary: s)
  case (Cons u us)
  have "u \<noteq> Milliseconds" using Cons.prems(1) by auto
  then have "shift_inv m p (us @ [Milliseconds]) (shift_step m (sp_units p) u s)"
    using Cons.prems by (intro shift_step_skip) auto
  then show ?case using Cons by simp
qed simp

text \<open>For any matrix: the last unit needs the lengths in milliseconds only.\<close>

lemma shift_values_milliseconds:
  "dval (shift_values m [Milliseconds] vals) Milliseconds = values_ms m vals
   \<and> keys (shift_values m [Milliseconds] vals) = {Milliseconds}"
proof -
  define big where "big = [Years, Quarters, Months, Weeks, Days, Hours, Minutes, Seconds]"
  define p where "p = \<lparr>sp_keys = keys vals, sp_units = [Milliseconds], sp_ms = values_ms m vals\<rparr>"
  define s0 where "s0 = \<lparr>sh_built = [], sh_accumulated = [], sh_vals = vals, sh_lastUnit = None\<rparr>"
  define s where "s = fold (shift_step m [Milliseconds]) big s0"
  have ord: "dunit_orderedUnits = big @ [Milliseconds]" by (simp add: dunit_orderedUnits_def big_def)
  have "remaining dunit_orderedUnits vals = dval vals" by (rule ext) (simp add: remaining_def)
  then have "shift_inv m p (big @ [Milliseconds]) s0"
    unfolding ord [symmetric] by (simp add: shift_inv_def p_def s0_def) (simp add: values_ms_def)
  moreover have "sorted_wrt (\<lambda>a b. unit_index a < unit_index b) (big @ [Milliseconds])"
    by (simp add: big_def)
  ultimately have inv: "shift_inv m p [Milliseconds] s"
    unfolding s_def by (intro shift_inv_skip) (simp_all add: p_def)
  have "\<forall>u\<in>set big. u \<notin> set [Milliseconds]" by (simp add: big_def)
  from shift_fold_skip [OF this, of m s0]
  have sv: "sh_vals s = vals" "sh_built s = []" by (simp_all add: s_def s0_def)
  have acc: "a \<in> keys (sh_accumulated s) \<Longrightarrow>
      m a Milliseconds * unit_ms m Milliseconds = unit_ms m a" for a
    using inv by (auto simp: shift_inv_def unit_ms_def)
  have d: "distinct (map fst (sh_accumulated s))" "Milliseconds \<notin> keys (sh_accumulated s)"
    using inv by (auto simp: shift_inv_def)
  define own where "own = shift_own m Milliseconds (sh_accumulated s) vals"
  have "own = values_ms m (sh_accumulated s) + dval vals Milliseconds"
    using shift_own_ms [OF d(1) acc, of vals] unfolding own_def by (simp add: unit_ms_def)
  moreover have "tot m (remaining [Milliseconds] vals) = dval vals Milliseconds"
    by (simp add: tot_def dunit_orderedUnits_def remaining_def unit_ms_def)
  ultimately have own: "own = values_ms m vals"
    using inv by (simp add: shift_inv_def p_def sv)
  define i :: rat where "i = of_int (js_trunc own)"
  define acc' where "acc' = AList.update Milliseconds (own - i)
      (map (\<lambda>ak. (fst ak, 0)) (sh_accumulated s))"
  have "fold (\<lambda>down (vals, built). if unit_index down > unit_index Milliseconds
      then convert m vals down built Milliseconds else (vals, built)) ds (v, b) = (v, b)" for ds v b
  proof (induction ds)
    case (Cons d ds)
    then show ?case by (cases d) simp_all
  qed simp
  then have downs: "shift_downs m Milliseconds v b = (v, b)" for v b by (simp add: shift_downs_def)
  have step: "shift_step m [Milliseconds] Milliseconds s = \<lparr>sh_built = [(Milliseconds, i)],
      sh_accumulated = acc', sh_vals = vals, sh_lastUnit = Some Milliseconds\<rparr>"
    by (simp add: shift_step_def downs sv Let_def own_def [symmetric] i_def [symmetric] acc'_def
        diff_divide_distrib)
  have res: "shift_values m [Milliseconds] vals = shift_leftover m Milliseconds acc' [(Milliseconds, i)]"
    unfolding shift_values_def ord s0_def [symmetric] by (simp add: s_def [symmetric] step)
  have "values_ms m (shift_leftover m Milliseconds acc' [(Milliseconds, i)])
      = values_ms m [(Milliseconds, i)] + values_ms m acc'"
    by (rule shift_leftover_ms) (use d in \<open>simp_all add: acc'_def distinct_update o_def split: if_splits\<close>)
  moreover have "values_ms m acc' = own - i"
    using d by (simp add: acc'_def values_ms_update values_ms_zeroed unit_ms_def)
  moreover have k: "keys (shift_values m [Milliseconds] vals) = {Milliseconds}"
    by (simp add: shift_values_keys)
  ultimately show ?thesis
    using values_ms_single [OF k] values_ms_single [of "[(Milliseconds, i)]" Milliseconds m]
    by (simp add: res own unit_ms_def)
qed

lemma unit_names:
  "Duration_normalizeUnit ''milliseconds'' = Ok Milliseconds"
  "Duration_normalizeUnit ''month'' = Ok Months" "Duration_normalizeUnit ''day'' = Ok Days"
  by code_simp+

lemma Duration_toMillis_ms:
  assumes "Duration_isValid d"
  shows "Duration_toMillis d = Ok (Some (d_ms d))"
proof -
  let ?m = "d_matrix d"
  let ?v = "shift_values ?m [Milliseconds] (d_values d)"
  have k: "keys ?v = {Milliseconds}" "dval ?v Milliseconds = d_ms d"
    using shift_values_milliseconds by (simp_all add: d_ms_def)
  then have "fits ?m (keys ?v)" by (simp add: fits_def)
  note n = normalizeValues_ms [OF this]
  have "dval (normalizeValues ?m ?v) Milliseconds = dval ?v Milliseconds"
    using n k values_ms_single [of "normalizeValues ?m ?v" Milliseconds ?m]
      values_ms_single [of ?v Milliseconds ?m] by (simp add: unit_ms_def)
  then show ?thesis
    using assms k by (simp add: Duration_toMillis_def Duration_as_def shiftTo_def unit_names
        Duration_get_def dget_def shiftTo_units_def Duration_normalize_def)
qed

subsection \<open>Sums and differences\<close>

lemma map_of_pairs: "map_of (map (\<lambda>k. (k, f k)) ks) u = (if u \<in> set ks then Some (f u) else None)"
  by (induction ks) auto

lemma dval_plus [simp]: "dval (plus_values a b) u = dval a u + dval b u"
proof (cases "map_of a u = None \<and> map_of b u = None")
  case True
  then show ?thesis by (simp add: dval_def plus_values_def map_of_pairs)
next
  case False
  then show ?thesis by (subst dval_def) (auto simp: plus_values_def map_of_pairs)
qed

lemma dval_negate [simp]: "dval (negate_values vals) u = - dval vals u"
  by (induction vals) (auto simp: negate_values_def)

lemma keys_plus: "keys (plus_values a b) = keys a \<union> keys b"
  by (auto simp: keys_map_of plus_values_def map_of_pairs split: if_splits)

lemma keys_negate [simp]: "keys (negate_values vals) = keys vals"
  by (auto simp: keys_def negate_values_def image_iff) force+

lemma values_ms_plus: "values_ms m (plus_values a b) = values_ms m a + values_ms m b"
  by (simp add: values_ms_def tot_add [symmetric] cong: tot_cong)

lemma values_ms_negate: "values_ms m (negate_values vals) = - values_ms m vals"
proof -
  have "values_ms m (negate_values vals) + values_ms m vals = tot m (\<lambda>u. 0)"
    unfolding values_ms_def tot_add [symmetric] by (rule tot_cong) simp
  then show ?thesis by simp
qed

lemma negate_values_twice: "negate_values (negate_values vals) = vals"
  by (induction vals) (auto simp: negate_values_def)

end
