(* ===== verification/LuxonDateTime.thy ===== *)
theory LuxonDateTime
  imports DurationLaws
begin

text \<open>
  Points in time (\<open>DateTime\<close> in \<open>ui/js/bundle.js\<close>): a time stamp, a zone, and the calendar
  fields and the offset computed from them. Construction, validation, setting units, adding
  durations, the starts and ends of units, change of zone, ISO output and comparison.

  An object is immutable in the code as well: the setters return a new one. The cached week data
  are computed again here. Unit values are integers, time stamps rationals or \<open>NaN\<close>.
\<close>

subsection \<open>State\<close>

record datetime =
  dt_ts :: num
  dt_zone :: zone
  dt_loc :: locale_obj
  dt_invalid :: "invalid option"
  dt_c :: "cal option"
  dt_o :: num

definition MAX_DATE :: rat where
  [luxon_defs]: "MAX_DATE = 8640000000000000"

definition unsupportedZone :: "'a platform_scheme \<Rightarrow> zone \<Rightarrow> invalid" where
  [luxon_defs]: "unsupportedZone E z = Invalid ''unsupported zone''
     (Some (''the zone \"'' @ zone_name E z @ ''\" is not supported''))"

definition isValid :: "datetime \<Rightarrow> bool" where
  [luxon_defs]: "isValid dt = (dt_invalid dt = None)"

definition tsToObj :: "num \<Rightarrow> num \<Rightarrow> cal option" where
  [luxon_defs]: "tsToObj t offset = map_option cal_of_ms (date_of (nadd t (min_ms offset)))"

definition toObject :: "datetime \<Rightarrow> obj" where
  [luxon_defs]: "toObject dt = (if \<not> isValid dt then Map.empty
     else (case dt_c dt of None \<Rightarrow> Map.empty | Some c \<Rightarrow> obj_of_cal c))"

subsection \<open>Construction\<close>

text \<open>The configuration the constructor takes; an absent property is \<open>None\<close>.\<close>

record dt_config =
  cf_ts :: "num option"
  cf_zone :: "zone option"
  cf_loc :: "locale_obj option"
  cf_invalid :: "invalid option"
  cf_old :: "datetime option"

definition no_config :: dt_config where
  [luxon_defs]: "no_config =
     \<lparr>cf_ts = None, cf_zone = None, cf_loc = None, cf_invalid = None, cf_old = None\<rparr>"

definition config_invalid :: "settings \<Rightarrow> dt_config \<Rightarrow> zone \<Rightarrow> invalid option" where
  [luxon_defs]: "config_invalid E config z = (case cf_invalid config of Some i \<Rightarrow> Some i
     | None \<Rightarrow> if cf_ts config = Some None then Some (Invalid ''invalid input'' None)
               else if \<not> zone_isValid z then Some (unsupportedZone E z) else None)"

definition DateTime_new :: "settings \<Rightarrow> dt_config \<Rightarrow> datetime res" where
  [luxon_defs]: "DateTime_new E config =
     (let z = (case cf_zone config of None \<Rightarrow> defaultZone E | Some z \<Rightarrow> z);
          inv0 = config_invalid E config z;
          t = (case cf_ts config of None \<Rightarrow> Some (of_int (st_now E)) | Some t \<Rightarrow> t);
          unchanged = (case cf_old config of None \<Rightarrow> False
            | Some old \<Rightarrow> neq (dt_ts old) t \<and> zone_equals (dt_zone old) z);
          ot = zone_offset E z t;
          c1 = tsToObj t ot;
          cio = (if inv0 \<noteq> None then (None, None, inv0)
                 else if unchanged then
                   (case cf_old config of None \<Rightarrow> (None, None, None)
                    | Some old \<Rightarrow> (dt_c old, dt_o old, None))
                 else if c1 = None then (None, None, Some (Invalid ''invalid input'' None))
                 else (c1, ot, None))
      in rbind (case cf_loc config of None \<Rightarrow> Locale_create E None None None False | Some l \<Rightarrow> Ok l)
        (\<lambda>l. Ok \<lparr>dt_ts = t, dt_zone = z, dt_loc = l, dt_invalid = snd (snd cio),
              dt_c = fst cio, dt_o = fst (snd cio)\<rparr>))"

text \<open>\<open>clone(inst, alts)\<close> with a new time stamp, zone or locale. (The constructor does not use the
  \<open>o\<close> that some callers pass.)\<close>

definition clone_dt :: "settings \<Rightarrow> datetime \<Rightarrow> num \<Rightarrow> zone \<Rightarrow> locale_obj \<Rightarrow> datetime res" where
  [luxon_defs]: "clone_dt E inst t z l = DateTime_new E
     \<lparr>cf_ts = Some t, cf_zone = Some z, cf_loc = Some l, cf_invalid = dt_invalid inst,
      cf_old = Some inst\<rparr>"

definition DateTime_invalid :: "settings \<Rightarrow> invalid \<Rightarrow> datetime res" where
  [luxon_defs]: "DateTime_invalid E why =
     (if st_throwOnInvalid E
      then Throw (InvalidDateTimeError (''Invalid DateTime: '' @ toMessage why))
      else DateTime_new E (no_config\<lparr>cf_invalid := Some why\<rparr>))"

definition DateTime_now :: "settings \<Rightarrow> datetime res" where
  [luxon_defs]: "DateTime_now E = DateTime_new E no_config"

definition fromMillis :: "settings \<Rightarrow> num \<Rightarrow> zone_input \<Rightarrow> locale_opts \<Rightarrow> datetime res" where
  [luxon_defs]: "fromMillis E milliseconds zi lo =
     (if nless milliseconds (Some (- MAX_DATE)) \<or> nless (Some MAX_DATE) milliseconds
      then DateTime_invalid E (Invalid ''Timestamp out of range'' None)
      else rbind (Locale_fromObject E lo) (\<lambda>l. DateTime_new E
        (no_config\<lparr>cf_ts := Some milliseconds, cf_zone := Some (normalizeZone E zi (defaultZone E)),
           cf_loc := Some l\<rparr>)))"

definition fromSeconds :: "settings \<Rightarrow> num \<Rightarrow> zone_input \<Rightarrow> locale_opts \<Rightarrow> datetime res" where
  [luxon_defs]: "fromSeconds E seconds zi lo =
     rbind (Locale_fromObject E lo) (\<lambda>l. DateTime_new E
        (no_config\<lparr>cf_ts := Some (map_option (\<lambda>s. s * 1000) seconds),
           cf_zone := Some (normalizeZone E zi (defaultZone E)), cf_loc := Some l\<rparr>))"

text \<open>A JavaScript date is its time value, \<open>None\<close> when it is invalid.\<close>

definition fromJSDate :: "settings \<Rightarrow> int option \<Rightarrow> zone_input \<Rightarrow> locale_opts \<Rightarrow> datetime res" where
  [luxon_defs]: "fromJSDate E date zi lo =
     (case date of None \<Rightarrow> DateTime_invalid E (Invalid ''invalid input'' None)
      | Some t \<Rightarrow>
        let zoneToUse = normalizeZone E zi (defaultZone E) in
        if \<not> zone_isValid zoneToUse then DateTime_invalid E (unsupportedZone E zoneToUse)
        else rbind (Locale_fromObject E lo) (\<lambda>l. DateTime_new E
          (no_config\<lparr>cf_ts := Some (Some (of_int t)), cf_zone := Some zoneToUse, cf_loc := Some l\<rparr>)))"

subsection \<open>Local time\<close>

text \<open>The time stamp and the offset of a local time in a zone, from a guess of the offset.\<close>

definition fixOffset :: "num \<Rightarrow> num \<Rightarrow> (num \<Rightarrow> num) \<Rightarrow> num \<times> num" where
  [luxon_defs]: "fixOffset localTS' o0 tz =
     (let utcGuess = nsub localTS' (min_ms o0); o2 = tz utcGuess in
      if neq o0 o2 then (utcGuess, o0)
      else let utcGuess2 = nsub utcGuess (min_ms (nsub o2 o0)); o3 = tz utcGuess2 in
        if neq o2 o3 then (utcGuess2, o2)
        else (nsub localTS' (min_ms (nmin o2 o3)), nmax o2 o3))"

definition objToTS :: "settings \<Rightarrow> obj \<Rightarrow> num \<Rightarrow> zone \<Rightarrow> num \<times> num" where
  [luxon_defs]: "objToTS E ob offset z = fixOffset (num_of (objToLocalTS ob)) offset (zone_offset E z)"

definition normalizeUnit :: "string \<Rightarrow> dtunit res" where
  [luxon_defs]: "normalizeUnit unit =
     (case map_of [(''year'', UYear), (''years'', UYear), (''month'', UMonth), (''months'', UMonth),
        (''day'', UDay), (''days'', UDay), (''hour'', UHour), (''hours'', UHour),
        (''minute'', UMinute), (''minutes'', UMinute), (''quarter'', UQuarter),
        (''quarters'', UQuarter), (''second'', USecond), (''seconds'', USecond),
        (''millisecond'', UMillisecond), (''milliseconds'', UMillisecond), (''weekday'', UWeekday),
        (''weekdays'', UWeekday), (''weeknumber'', UWeekNumber), (''weeksnumber'', UWeekNumber),
        (''weeknumbers'', UWeekNumber), (''weekyear'', UWeekYear), (''weekyears'', UWeekYear),
        (''ordinal'', UOrdinal)] (toLowerCase unit) of
       None \<Rightarrow> Throw (InvalidUnitError (''Invalid unit '' @ unit)) | Some u \<Rightarrow> Ok u)"

definition defaultUnitValues :: obj where
  [luxon_defs]: "defaultUnitValues = [UMonth \<mapsto> 1, UDay \<mapsto> 1, UHour \<mapsto> 0, UMinute \<mapsto> 0, USecond \<mapsto> 0,
     UMillisecond \<mapsto> 0]"

definition defaultWeekUnitValues :: obj where
  [luxon_defs]: "defaultWeekUnitValues = [UWeekNumber \<mapsto> 1, UWeekday \<mapsto> 1, UHour \<mapsto> 0, UMinute \<mapsto> 0,
     USecond \<mapsto> 0, UMillisecond \<mapsto> 0]"

definition defaultOrdinalUnitValues :: obj where
  [luxon_defs]: "defaultOrdinalUnitValues = [UOrdinal \<mapsto> 1, UHour \<mapsto> 0, UMinute \<mapsto> 0, USecond \<mapsto> 0,
     UMillisecond \<mapsto> 0]"

definition orderedUnits :: "dtunit list" where
  [luxon_defs]: "orderedUnits = [UYear, UMonth, UDay, UHour, UMinute, USecond, UMillisecond]"

definition orderedWeekUnits :: "dtunit list" where
  [luxon_defs]: "orderedWeekUnits =
     [UWeekYear, UWeekNumber, UWeekday, UHour, UMinute, USecond, UMillisecond]"

definition orderedOrdinalUnits :: "dtunit list" where
  [luxon_defs]: "orderedOrdinalUnits = [UYear, UOrdinal, UHour, UMinute, USecond, UMillisecond]"

text \<open>A number that is neither 0 nor missing.\<close>

definition truthy :: "int option \<Rightarrow> bool" where
  [luxon_defs]: "truthy n = (n \<noteq> None \<and> n \<noteq> Some 0)"

subsection \<open>Getters\<close>

text \<open>\<open>None\<close> is \<open>NaN\<close>.\<close>

definition dt_get :: "(cal \<Rightarrow> int) \<Rightarrow> datetime \<Rightarrow> int option" where
  [luxon_defs]: "dt_get f dt = (if isValid dt then map_option f (dt_c dt) else None)"

abbreviation year :: "datetime \<Rightarrow> int option" where "year \<equiv> dt_get c_year"
abbreviation month :: "datetime \<Rightarrow> int option" where "month \<equiv> dt_get c_month"
abbreviation day :: "datetime \<Rightarrow> int option" where "day \<equiv> dt_get c_day"
abbreviation hour :: "datetime \<Rightarrow> int option" where "hour \<equiv> dt_get c_hour"
abbreviation minute :: "datetime \<Rightarrow> int option" where "minute \<equiv> dt_get c_minute"
abbreviation second :: "datetime \<Rightarrow> int option" where "second \<equiv> dt_get c_second"

definition quarter :: "datetime \<Rightarrow> int option" where
  [luxon_defs]: "quarter dt = map_option (\<lambda>m. \<lceil>of_int m / 3 :: rat\<rceil>) (month dt)"

definition weekData :: "datetime \<Rightarrow> obj" where
  [luxon_defs]: "weekData dt = gregorianToWeek (toObject dt)"

definition weekYear :: "datetime \<Rightarrow> int option" where
  [luxon_defs]: "weekYear dt = (if isValid dt then weekData dt UWeekYear else None)"

definition weekNumber :: "datetime \<Rightarrow> int option" where
  [luxon_defs]: "weekNumber dt = (if isValid dt then weekData dt UWeekNumber else None)"

definition weekday :: "datetime \<Rightarrow> int option" where
  [luxon_defs]: "weekday dt = (if isValid dt then weekData dt UWeekday else None)"

definition dt_ordinal :: "datetime \<Rightarrow> int option" where
  [luxon_defs]: "dt_ordinal dt = (if isValid dt then gregorianToOrdinal (toObject dt) UOrdinal else None)"

definition dt_offset :: "datetime \<Rightarrow> num" where
  [luxon_defs]: "dt_offset dt = (if isValid dt then dt_o dt else None)"

definition isOffsetFixed :: "datetime \<Rightarrow> bool" where
  [luxon_defs]: "isOffsetFixed dt = (isValid dt \<and> zone_isUniversal (dt_zone dt))"

definition dt_daysInMonth :: "datetime \<Rightarrow> int option" where
  [luxon_defs]: "dt_daysInMonth dt = (case (year dt, month dt) of
     (Some y, Some m) \<Rightarrow> Some (daysInMonth y m) | _ \<Rightarrow> None)"

definition dt_daysInYear :: "datetime \<Rightarrow> int option" where
  [luxon_defs]: "dt_daysInYear dt = map_option daysInYear (year dt)"

definition isInLeapYear :: "datetime \<Rightarrow> bool" where
  [luxon_defs]: "isInLeapYear dt = (case year dt of None \<Rightarrow> False | Some y \<Rightarrow> isLeapYear y)"

definition dt_weeksInWeekYear :: "datetime \<Rightarrow> int option" where
  [luxon_defs]: "dt_weeksInWeekYear dt = map_option weeksInWeekYear (weekYear dt)"

definition toMillis :: "datetime \<Rightarrow> num" where
  [luxon_defs]: "toMillis dt = (if isValid dt then dt_ts dt else None)"

definition toSeconds :: "datetime \<Rightarrow> num" where
  [luxon_defs]: "toSeconds dt = map_option (\<lambda>t. t / 1000) (toMillis dt)"

definition toUnixInteger :: "datetime \<Rightarrow> int option" where
  [luxon_defs]: "toUnixInteger dt = map_option (\<lambda>t. \<lfloor>t / 1000\<rfloor>) (toMillis dt)"

definition toJSDate :: "datetime \<Rightarrow> int option" where
  [luxon_defs]: "toJSDate dt = date_of (toMillis dt)"

definition meridiemForDateTime :: "datetime \<Rightarrow> string" where
  [luxon_defs]: "meridiemForDateTime dt =
     meridiems ! (case hour dt of Some h \<Rightarrow> if h < 12 then 0 else 1 | None \<Rightarrow> 1)"

definition weekdayForDateTime :: "datetime \<Rightarrow> string \<Rightarrow> string option" where
  [luxon_defs]: "weekdayForDateTime dt len =
     Option.bind (weekdays len) (\<lambda>names. Option.bind (weekday dt) (\<lambda>w. js_nth names (w - 1)))"

definition monthForDateTime :: "datetime \<Rightarrow> string \<Rightarrow> string option" where
  [luxon_defs]: "monthForDateTime dt len =
     Option.bind (months len) (\<lambda>names. Option.bind (month dt) (\<lambda>m. js_nth names (m - 1)))"

definition eraForDateTime :: "datetime \<Rightarrow> string \<Rightarrow> string option" where
  [luxon_defs]: "eraForDateTime dt len = Option.bind (eras len)
     (\<lambda>names. js_nth names (case year dt of Some y \<Rightarrow> if y < 0 then 0 else 1 | None \<Rightarrow> 1))"

subsection \<open>Setting units\<close>

text \<open>The body of \<open>set\<close> once the units are normalized.\<close>

definition set_mixed :: "cal option \<Rightarrow> obj \<Rightarrow> obj" where
  [luxon_defs]: "set_mixed c0 normalized =
     (let c = (case c0 of None \<Rightarrow> Map.empty | Some c \<Rightarrow> obj_of_cal c) in
      if normalized UWeekYear \<noteq> None \<or> normalized UWeekNumber \<noteq> None \<or> normalized UWeekday \<noteq> None
      then weekToGregorian (extends (gregorianToWeek c) normalized)
      else if normalized UOrdinal \<noteq> None
      then ordinalToGregorian (extends (gregorianToOrdinal c) normalized)
      else let mixed = extends c normalized in
        if normalized UDay = None
        then (case (mixed UYear, mixed UMonth, mixed UDay) of
                (Some y, Some m, Some d) \<Rightarrow> mixed(UDay \<mapsto> min (daysInMonth y m) d)
              | _ \<Rightarrow> mixed(UDay := None))
        else mixed)"

definition conflicting :: "obj \<Rightarrow> js_error option" where
  [luxon_defs]: "conflicting normalized =
     (let containsOrdinal = (normalized UOrdinal \<noteq> None);
          containsGregorYear = (normalized UYear \<noteq> None);
          containsGregorMD = (normalized UMonth \<noteq> None \<or> normalized UDay \<noteq> None);
          containsGregor = (containsGregorYear \<or> containsGregorMD);
          definiteWeekDef = (truthy (normalized UWeekYear) \<or> truthy (normalized UWeekNumber))
      in if (containsGregor \<or> containsOrdinal) \<and> definiteWeekDef
         then Some (ConflictingSpecificationError
           ''Can't mix weekYear/weekNumber units with year/month/day or ordinals'')
         else if containsGregorMD \<and> containsOrdinal
         then Some (ConflictingSpecificationError ''Can't mix ordinal dates with month/day'')
         else None)"

definition set_obj :: "settings \<Rightarrow> datetime \<Rightarrow> obj \<Rightarrow> datetime res" where
  [luxon_defs]: "set_obj E dt normalized = (case conflicting normalized of
       Some e \<Rightarrow> Throw e
     | None \<Rightarrow>
         let t = fst (objToTS E (set_mixed (dt_c dt) normalized) (dt_o dt) (dt_zone dt))
         in clone_dt E dt t (dt_zone dt) (dt_loc dt))"

definition DateTime_set :: "settings \<Rightarrow> datetime \<Rightarrow> (string \<times> int uval) list \<Rightarrow> datetime res" where
  [luxon_defs]: "DateTime_set E dt values =
     (if \<not> isValid dt then Ok dt
      else rbind (normalizeObject values normalizeUnit) (\<lambda>n. set_obj E dt (map_of n)))"

definition setZone :: "settings \<Rightarrow> datetime \<Rightarrow> zone_input \<Rightarrow> bool \<Rightarrow> datetime res" where
  [luxon_defs]: "setZone E dt zi keepLocalTime =
     (let z = normalizeZone E zi (defaultZone E) in
      if zone_equals z (dt_zone dt) then Ok dt
      else if \<not> zone_isValid z then DateTime_invalid E (unsupportedZone E z)
      else let newTS = (if keepLocalTime
             then fst (objToTS E (toObject dt) (zone_offset E z (dt_ts dt)) z) else dt_ts dt)
        in clone_dt E dt newTS z (dt_loc dt))"

definition toUTC :: "settings \<Rightarrow> datetime \<Rightarrow> rat \<Rightarrow> bool \<Rightarrow> datetime res" where
  [luxon_defs]: "toUTC E dt offset keepLocalTime =
     setZone E dt (ZZone (FixedOffsetZone_instance offset)) keepLocalTime"

definition toLocal :: "settings \<Rightarrow> datetime \<Rightarrow> datetime res" where
  [luxon_defs]: "toLocal E dt = setZone E dt (ZZone (defaultZone E)) False"

definition reconfigure :: "settings \<Rightarrow> datetime \<Rightarrow> locale_opts \<Rightarrow> datetime res" where
  [luxon_defs]: "reconfigure E dt lo = rbind (Locale_clone E (dt_loc dt) (Some lo) False)
     (\<lambda>l. clone_dt E dt (dt_ts dt) (dt_zone dt) l)"

definition setLocale :: "settings \<Rightarrow> datetime \<Rightarrow> string \<Rightarrow> datetime res" where
  [luxon_defs]: "setLocale E dt l = reconfigure E dt (no_locale_opts\<lparr>lo_locale := Some l\<rparr>)"

subsection \<open>Adding durations\<close>

definition frac :: "rat \<Rightarrow> rat" where
  [luxon_defs]: "frac x = x - of_int (js_trunc x)"

text \<open>The calendar fields after the whole years, quarters, months, weeks and days are added; the
  day is clipped to the month before days are added.\<close>

definition adjust_cal :: "cal \<Rightarrow> dvals \<Rightarrow> obj" where
  [luxon_defs]: "adjust_cal c dur =
     (let y = c_year c + js_trunc (dval dur Years);
          m = c_month c + js_trunc (dval dur Months) + js_trunc (dval dur Quarters) * 3
      in extends (obj_of_cal c) [UYear \<mapsto> y, UMonth \<mapsto> m,
           UDay \<mapsto> min (c_day c) (daysInMonth y m) + js_trunc (dval dur Days)
             + js_trunc (dval dur Weeks) * 7])"

definition millisToAdd :: "settings \<Rightarrow> dvals \<Rightarrow> num res" where
  [luxon_defs]: "millisToAdd E dur =
     rbind (Duration_fromObject E
       [(''years'', VNum (frac (dval dur Years))), (''quarters'', VNum (frac (dval dur Quarters))),
        (''months'', VNum (frac (dval dur Months))), (''weeks'', VNum (frac (dval dur Weeks))),
        (''days'', VNum (frac (dval dur Days))), (''hours'', VNum (dval dur Hours)),
        (''minutes'', VNum (dval dur Minutes)), (''seconds'', VNum (dval dur Seconds)),
        (''milliseconds'', VNum (dval dur Milliseconds))] no_locale_opts False)
     (\<lambda>d. Duration_as d ''milliseconds'')"

text \<open>The time stamp of \<open>adjustTime\<close>. With an invalid duration all its units are \<open>NaN\<close>, and
  \<open>Duration.fromObject\<close> throws.\<close>

definition adjustTime :: "settings \<Rightarrow> datetime \<Rightarrow> duration \<Rightarrow> num res" where
  [luxon_defs]: "adjustTime E inst dur =
     (if \<not> Duration_isValid dur then Throw (InvalidArgumentError ''Invalid unit value NaN'')
      else rbind (millisToAdd E (d_values dur)) (\<lambda>ms.
        let lts = (case dt_c inst of None \<Rightarrow> None
                   | Some c \<Rightarrow> num_of (objToLocalTS (adjust_cal c (d_values dur))));
            t = fst (fixOffset lts (dt_o inst) (zone_offset E (dt_zone inst)))
        in Ok (if ms \<noteq> Some 0 then nadd t ms else t)))"

definition plus :: "settings \<Rightarrow> datetime \<Rightarrow> durationLike \<Rightarrow> datetime res" where
  [luxon_defs]: "plus E dt d =
     (if \<not> isValid dt then Ok dt
      else rbind (fromDurationLike E d) (\<lambda>dur. rbind (adjustTime E dt dur)
        (\<lambda>t. clone_dt E dt t (dt_zone dt) (dt_loc dt))))"

definition minus :: "settings \<Rightarrow> datetime \<Rightarrow> durationLike \<Rightarrow> datetime res" where
  [luxon_defs]: "minus E dt d =
     (if \<not> isValid dt then Ok dt
      else rbind (fromDurationLike E d) (\<lambda>dur. rbind (adjustTime E dt (negate dur))
        (\<lambda>t. clone_dt E dt t (dt_zone dt) (dt_loc dt))))"

subsection \<open>Starts and ends of units\<close>

text \<open>The units \<open>startOf\<close> sets; the cases of the switch fall through.\<close>

definition startOf_values :: "dunit \<Rightarrow> int option \<Rightarrow> (string \<times> int uval) list" where
  [luxon_defs]: "startOf_values u q =
     (let o0 = (if u = Years then [(''month'', VNum 1)] else []);
          o1 = (if u \<in> {Years, Quarters, Months} then AList.update ''day'' (VNum 1) o0 else o0);
          o2 = (if u \<in> {Years, Quarters, Months, Weeks, Days}
                then AList.update ''hour'' (VNum 0) o1 else o1);
          o3 = (if u \<in> {Years, Quarters, Months, Weeks, Days, Hours}
                then AList.update ''minute'' (VNum 0) o2 else o2);
          o4 = (if u \<in> {Years, Quarters, Months, Weeks, Days, Hours, Minutes}
                then AList.update ''second'' (VNum 0) o3 else o3);
          o5 = (if u \<noteq> Milliseconds then AList.update ''millisecond'' (VNum 0) o4 else o4);
          o6 = (if u = Weeks then AList.update ''weekday'' (VNum 1) o5 else o5)
      in if u = Quarters
         then AList.update ''month'' (case q of None \<Rightarrow> VNaN | Some n \<Rightarrow> VNum ((n - 1) * 3 + 1)) o6
         else o6)"

definition startOf :: "settings \<Rightarrow> datetime \<Rightarrow> string \<Rightarrow> datetime res" where
  [luxon_defs]: "startOf E dt unit =
     (if \<not> isValid dt then Ok dt
      else rbind (Duration_normalizeUnit unit)
        (\<lambda>u. DateTime_set E dt (startOf_values u (quarter dt))))"

definition endOf :: "settings \<Rightarrow> datetime \<Rightarrow> string \<Rightarrow> datetime res" where
  [luxon_defs]: "endOf E dt unit =
     (if isValid dt then
        rbind (plus E dt (DObject [(unit, VNum 1)])) (\<lambda>a.
        rbind (startOf E a unit) (\<lambda>b. minus E b (DNumber (Some 1))))
      else Ok dt)"

definition isInDST :: "settings \<Rightarrow> datetime \<Rightarrow> bool res" where
  [luxon_defs]: "isInDST E dt =
     (if isOffsetFixed dt then Ok False
      else rbind (DateTime_set E dt [(''month'', VNum 1), (''day'', VNum 1)]) (\<lambda>a.
        if nless (dt_offset a) (dt_offset dt) then Ok True
        else rbind (DateTime_set E dt [(''month'', VNum 5)]) (\<lambda>b.
          Ok (nless (dt_offset b) (dt_offset dt)))))"

subsection \<open>ISO output\<close>

definition toISODate_cal :: "cal \<Rightarrow> bool \<Rightarrow> string" where
  [luxon_defs]: "toISODate_cal c extended =
     (let longFormat = (c_year c > 9999 \<or> c_year c < 0);
          plus = (if longFormat \<and> c_year c \<ge> 0 then ''+'' else []);
          y = padStart (c_year c) (if longFormat then 6 else 4)
      in if extended
         then plus @ y @ ''-'' @ padStart (c_month c) 2 @ ''-'' @ padStart (c_day c) 2
         else plus @ y @ padStart (c_month c) 2 @ padStart (c_day c) 2)"

record iso_opts =
  io_extended :: bool
  io_suppressSeconds :: bool
  io_suppressMilliseconds :: bool
  io_includeOffset :: bool
  io_extendedZone :: bool

definition iso_defaults :: iso_opts where
  [luxon_defs]: "iso_defaults = \<lparr>io_extended = True, io_suppressSeconds = False,
     io_suppressMilliseconds = False, io_includeOffset = True, io_extendedZone = False\<rparr>"

definition toISOTime_clock :: "cal \<Rightarrow> iso_opts \<Rightarrow> string" where
  [luxon_defs]: "toISOTime_clock c op =
     (let secs = (c_second c \<noteq> 0 \<or> \<not> io_suppressSeconds op)
      in padStart (c_hour c) 2 @
         (if io_extended op then '':'' @ padStart (c_minute c) 2 @ (if secs then '':'' else [])
          else padStart (c_minute c) 2) @
         (if secs then padStart (c_second c) 2 @
            (if c_millisecond c \<noteq> 0 \<or> \<not> io_suppressMilliseconds op
             then ''.'' @ padStart (c_millisecond c) 3 else [])
          else []))"

definition toISO_offset :: "bool \<Rightarrow> rat \<Rightarrow> bool \<Rightarrow> string" where
  [luxon_defs]: "toISO_offset fixed off extendedZone =
     (if fixed \<and> off = 0 \<and> \<not> extendedZone then ''Z''
      else let a = (if off < 0 then - off else off) in
        (if off < 0 then ''-'' else ''+'') @ padStart (js_trunc (a / 60)) 2 @ '':'' @
          padStart (js_trunc (a - 60 * of_int (js_trunc (a / 60)))) 2)"

definition toISOTime_dt :: "settings \<Rightarrow> datetime \<Rightarrow> cal \<Rightarrow> rat \<Rightarrow> iso_opts \<Rightarrow> string" where
  [luxon_defs]: "toISOTime_dt E dt c off op = toISOTime_clock c op @
     (if io_includeOffset op then toISO_offset (isOffsetFixed dt) off (io_extendedZone op) else []) @
     (if io_extendedZone op then ''['' @ zone_ianaName E (dt_zone dt) @ '']'' else [])"

text \<open>\<open>None\<close> is \<open>null\<close>.\<close>

definition toISO :: "settings \<Rightarrow> datetime \<Rightarrow> iso_opts \<Rightarrow> string option" where
  [luxon_defs]: "toISO E dt op =
     (if \<not> isValid dt then None
      else (case (dt_c dt, dt_o dt) of
          (Some c, Some off) \<Rightarrow>
            Some (toISODate_cal c (io_extended op) @ ''T'' @ toISOTime_dt E dt c off op)
        | _ \<Rightarrow> None))"

definition toISODate :: "datetime \<Rightarrow> bool \<Rightarrow> string option" where
  [luxon_defs]: "toISODate dt extended =
     (if \<not> isValid dt then None else map_option (\<lambda>c. toISODate_cal c extended) (dt_c dt))"

definition toISOTime :: "settings \<Rightarrow> datetime \<Rightarrow> iso_opts \<Rightarrow> bool \<Rightarrow> string option" where
  [luxon_defs]: "toISOTime E dt op includePrefix =
     (if \<not> isValid dt then None
      else (case (dt_c dt, dt_o dt) of
          (Some c, Some off) \<Rightarrow>
            Some ((if includePrefix then ''T'' else []) @ toISOTime_dt E dt c off op)
        | _ \<Rightarrow> None))"

definition toSQLDate :: "datetime \<Rightarrow> string option" where
  [luxon_defs]: "toSQLDate dt = toISODate dt True"

definition DateTime_toString :: "settings \<Rightarrow> datetime \<Rightarrow> string option" where
  [luxon_defs]: "DateTime_toString E dt =
     (if isValid dt then toISO E dt iso_defaults else Some ''Invalid DateTime'')"

subsection \<open>Construction from units\<close>

definition fill_units :: "obj \<Rightarrow> obj \<Rightarrow> dtunit \<Rightarrow> obj \<times> bool \<Rightarrow> obj \<times> bool" where
  [luxon_defs]: "fill_units defaultValues objNow u s =
     (let normalized = fst s; foundFirst = snd s in
      if normalized u \<noteq> None then (normalized, True)
      else if foundFirst then (normalized(u := defaultValues u), foundFirst)
      else (normalized(u := objNow u), foundFirst))"

record from_opts =
  fo_zone :: zone_input
  fo_specificOffset :: "rat option"
  fo_setZone :: bool
  fo_locale :: locale_opts

definition no_from_opts :: from_opts where
  [luxon_defs]: "no_from_opts = \<lparr>fo_zone = ZUndefined, fo_specificOffset = None, fo_setZone = False,
     fo_locale = no_locale_opts\<rparr>"

text \<open>The units, their checks and the conversion to a Gregorian date.\<close>

definition from_units :: "obj \<Rightarrow> cal option \<Rightarrow> obj + invalid" where
  [luxon_defs]: "from_units normalized now =
     (let containsOrdinal = (normalized UOrdinal \<noteq> None);
          containsGregor =
            (normalized UYear \<noteq> None \<or> normalized UMonth \<noteq> None \<or> normalized UDay \<noteq> None);
          definiteWeekDef = (truthy (normalized UWeekYear) \<or> truthy (normalized UWeekNumber));
          useWeekData = (definiteWeekDef \<or> truthy (normalized UWeekday) \<and> \<not> containsGregor);
          objNow = (case now of None \<Rightarrow> Map.empty | Some c \<Rightarrow> obj_of_cal c);
          (units, defaultValues, objNow') =
            (if useWeekData then (orderedWeekUnits, defaultWeekUnitValues, gregorianToWeek objNow)
             else if containsOrdinal then
               (orderedOrdinalUnits, defaultOrdinalUnitValues, gregorianToOrdinal objNow)
             else (orderedUnits, defaultUnitValues, objNow));
          filled = fst (fold (fill_units defaultValues objNow') units (normalized, False));
          higherOrderInvalid = (if useWeekData then hasInvalidWeekData filled
            else if containsOrdinal then hasInvalidOrdinalData filled
            else hasInvalidGregorianData filled)
      in case (case higherOrderInvalid of None \<Rightarrow> hasInvalidTimeData filled | Some i \<Rightarrow> Some i) of
           Some i \<Rightarrow> Inr i
         | None \<Rightarrow> Inl (if useWeekData then weekToGregorian filled
             else if containsOrdinal then ordinalToGregorian filled else filled))"

definition fromObject :: "settings \<Rightarrow> (string \<times> int uval) list \<Rightarrow> from_opts \<Rightarrow> datetime res" where
  [luxon_defs]: "fromObject E ob opts =
     (let zoneToUse = normalizeZone E (fo_zone opts) (defaultZone E) in
      if \<not> zone_isValid zoneToUse then DateTime_invalid E (unsupportedZone E zoneToUse)
      else
        let tsNow = Some (of_int (st_now E));
            offsetProvis = (case fo_specificOffset opts of Some off \<Rightarrow> Some off
              | None \<Rightarrow> zone_offset E zoneToUse tsNow)
        in rbind (normalizeObject ob normalizeUnit) (\<lambda>n.
           let normalized = map_of n in
           rbind (Locale_fromObject E (fo_locale opts)) (\<lambda>l.
           case conflicting normalized of Some e \<Rightarrow> Throw e | None \<Rightarrow>
           (case from_units normalized (tsToObj tsNow offsetProvis) of
              Inr i \<Rightarrow> DateTime_invalid E i
            | Inl gregorian \<Rightarrow>
                rbind (DateTime_new E (no_config\<lparr>
                    cf_ts := Some (fst (objToTS E gregorian offsetProvis zoneToUse)),
                    cf_zone := Some zoneToUse, cf_loc := Some l\<rparr>)) (\<lambda>inst.
                if truthy (normalized UWeekday) \<and>
                   (normalized UYear \<noteq> None \<or> normalized UMonth \<noteq> None \<or> normalized UDay \<noteq> None) \<and>
                   \<not> (\<exists>w \<in> set (case map_of ob ''weekday'' of Some (VNum w) \<Rightarrow> [w] | _ \<Rightarrow> []).
                        weekday inst = Some w)
                then DateTime_invalid E (Invalid ''mismatched weekday'' (Some
                  (''you can't specify both a weekday of '' @
                   show_int (case normalized UWeekday of Some w \<Rightarrow> w | None \<Rightarrow> 0) @ '' and a date of '' @
                   (case toISO E inst iso_defaults of Some s \<Rightarrow> s | None \<Rightarrow> ''null''))))
                else Ok inst)))))"

text \<open>\<open>DateTime.local\<close> and \<open>DateTime.utc\<close>. Asking an unknown zone for its offset throws.\<close>

definition quickDT :: "settings \<Rightarrow> obj \<Rightarrow> zone_input \<Rightarrow> locale_opts \<Rightarrow> datetime res" where
  [luxon_defs]: "quickDT E ob zi lo =
     (let z = normalizeZone E zi (defaultZone E); tsNow = Some (of_int (st_now E)) in
      rbind (Locale_fromObject E lo) (\<lambda>l.
      if ob UYear \<noteq> None then
        let filled = fold (\<lambda>u a. if a u = None then a(u := defaultUnitValues u) else a) orderedUnits ob
        in case (case hasInvalidGregorianData filled of None \<Rightarrow> hasInvalidTimeData filled
                 | Some i \<Rightarrow> Some i) of
             Some i \<Rightarrow> DateTime_invalid E i
           | None \<Rightarrow>
             (case z of IANAZone n False \<Rightarrow> Throw (RangeError (''Invalid time zone specified: '' @ n))
              | _ \<Rightarrow> DateTime_new E (no_config\<lparr>
                  cf_ts := Some (fst (objToTS E filled (zone_offset E z tsNow) z)),
                  cf_zone := Some z, cf_loc := Some l\<rparr>))
      else DateTime_new E (no_config\<lparr>cf_ts := Some tsNow, cf_zone := Some z, cf_loc := Some l\<rparr>)))"

definition local_units :: "int option list \<Rightarrow> obj" where
  [luxon_defs]: "local_units args = map_of (List.map_filter
     (\<lambda>(u, v). map_option (Pair u) v) (zip orderedUnits args))"

definition DateTime_local :: "settings \<Rightarrow> int option list \<Rightarrow> zone_input \<Rightarrow> locale_opts \<Rightarrow> datetime res" where
  [luxon_defs]: "DateTime_local E args zi lo = quickDT E (local_units args) zi lo"

definition DateTime_utc :: "settings \<Rightarrow> int option list \<Rightarrow> locale_opts \<Rightarrow> datetime res" where
  [luxon_defs]: "DateTime_utc E args lo = quickDT E (local_units args) (ZZone utcInstance) lo"

definition parseDataToDateTime :: "settings \<Rightarrow> (string \<times> int uval) list option \<Rightarrow> zone option \<Rightarrow>
  from_opts \<Rightarrow> string \<Rightarrow> string \<Rightarrow> rat option \<Rightarrow> datetime res" where
  [luxon_defs]: "parseDataToDateTime E parsed parsedZone opts format txt specificOffset =
     (if parsed \<noteq> None \<and> parsed \<noteq> Some [] then
        let interpretationZone = (case parsedZone of Some z \<Rightarrow> ZZone z | None \<Rightarrow> fo_zone opts)
        in rbind (fromObject E (case parsed of None \<Rightarrow> [] | Some p \<Rightarrow> p)
               (opts\<lparr>fo_zone := interpretationZone, fo_specificOffset := specificOffset\<rparr>)) (\<lambda>inst.
             if fo_setZone opts then Ok inst else setZone E inst (fo_zone opts) False)
      else DateTime_invalid E (Invalid ''unparsable'' (Some
        (''the input \"'' @ txt @ ''\" can't be parsed as '' @ format))))"

subsection \<open>Comparison\<close>

definition DateTime_equals :: "datetime \<Rightarrow> datetime \<Rightarrow> bool" where
  [luxon_defs]: "DateTime_equals dt other \<longleftrightarrow> isValid dt \<and> isValid other \<and>
     neq (toMillis dt) (toMillis other) \<and> zone_equals (dt_zone dt) (dt_zone other) \<and>
     Locale_equals (dt_loc dt) (dt_loc other)"

definition hasSame :: "settings \<Rightarrow> datetime \<Rightarrow> datetime \<Rightarrow> string \<Rightarrow> bool res" where
  [luxon_defs]: "hasSame E dt other unit =
     (if \<not> isValid dt then Ok False
      else let inputMs = toMillis other in
        rbind (setZone E dt (ZZone (dt_zone other)) True) (\<lambda>adjustedToZone.
        rbind (startOf E adjustedToZone unit) (\<lambda>s.
        if nle (toMillis s) inputMs
        then rbind (endOf E adjustedToZone unit) (\<lambda>e. Ok (nle inputMs (toMillis e)))
        else Ok False)))"

definition bestBy :: "'a list \<Rightarrow> ('a \<Rightarrow> num) \<Rightarrow> (num \<Rightarrow> num \<Rightarrow> num) \<Rightarrow> 'a option" where
  [luxon_defs]: "bestBy arr by compare =
     map_option snd (fold (\<lambda>next best. let pair = (by next, next) in
         case best of None \<Rightarrow> Some pair
         | Some b \<Rightarrow> if neq (compare (fst b) (fst pair)) (fst b) then Some b else Some pair)
       arr None)"

definition DateTime_min :: "datetime list \<Rightarrow> datetime option" where
  [luxon_defs]: "DateTime_min dateTimes = bestBy dateTimes toMillis nmin"

definition DateTime_max :: "datetime list \<Rightarrow> datetime option" where
  [luxon_defs]: "DateTime_max dateTimes = bestBy dateTimes toMillis nmax"

end
