(* ===== verification/DateTimeLaws.thy ===== *)
theory DateTimeLaws
  imports LuxonDateTime
begin

text \<open>
  Points in time in a zone of constant offset. The locale \<open>const_zone\<close> states what the code
  relies on: the zone is valid and has the same whole number of minutes as its offset over the
  range of \<open>Date\<close>. Within it the operations of
  \<open>DateTime\<close> are functions of the calendar fields. It is interpreted on fixed-offset zones.
\<close>

subsection \<open>A point in time from its fields\<close>

definition dt_at :: "zone \<Rightarrow> int \<Rightarrow> locale_obj \<Rightarrow> cal \<Rightarrow> datetime" where
  "dt_at z off l c = \<lparr>dt_ts = Some (of_int (cal_ms c - off * 60000)), dt_zone = z, dt_loc = l,
     dt_invalid = None, dt_c = Some c, dt_o = Some (of_int off)\<rparr>"

text \<open>Time stamps from the year 69 on, away from the end of what \<open>Date\<close> holds. (Earlier ones are left
  out because \<open>Date.UTC\<close> reads the years 0 to 99 as 1900 to 1999.)\<close>

definition stamp_ok :: "int \<Rightarrow> bool" where
  "stamp_ok t \<longleftrightarrow> - 60000000000000 \<le> t \<and> t \<le> 8000000000000000"

text \<open>The local time is in the range of \<open>Date\<close>, and the universal time a stamp as above.\<close>

definition in_range :: "int \<Rightarrow> int \<Rightarrow> bool" where
  "in_range off t \<longleftrightarrow> \<bar>t\<bar> \<le> 8640000000000000 \<and> stamp_ok (t - off * 60000)"

lemma dt_at_simps [simp]:
  "isValid (dt_at z off l c)" "dt_zone (dt_at z off l c) = z" "dt_loc (dt_at z off l c) = l"
  "dt_invalid (dt_at z off l c) = None" "dt_c (dt_at z off l c) = Some c"
  "dt_o (dt_at z off l c) = Some (of_int off)"
  "dt_ts (dt_at z off l c) = Some (of_int (cal_ms c - off * 60000))"
  "dt_get f (dt_at z off l c) = Some (f c)" "toObject (dt_at z off l c) = obj_of_cal c"
  "toMillis (dt_at z off l c) = Some (of_int (cal_ms c - off * 60000))"
  by (simp_all add: dt_at_def isValid_def dt_get_def toObject_def toMillis_def)

lemma zone_equals_refl: "zone_isValid z \<Longrightarrow> zone_equals z z"
  by (cases z) (auto simp: zone_equals_def zone_isValid_def zone_type_def)

subsection \<open>Durations as arguments\<close>

lemma all_unit_names:
  "Duration_normalizeUnit ''years'' = Ok Years" "Duration_normalizeUnit ''quarters'' = Ok Quarters"
  "Duration_normalizeUnit ''months'' = Ok Months" "Duration_normalizeUnit ''weeks'' = Ok Weeks"
  "Duration_normalizeUnit ''days'' = Ok Days" "Duration_normalizeUnit ''hours'' = Ok Hours"
  "Duration_normalizeUnit ''minutes'' = Ok Minutes" "Duration_normalizeUnit ''seconds'' = Ok Seconds"
  "Duration_normalizeUnit ''milliseconds'' = Ok Milliseconds"
  "Duration_normalizeUnit ''month'' = Ok Months" "Duration_normalizeUnit ''day'' = Ok Days"
  "Duration_normalizeUnit ''year'' = Ok Years"
  by code_simp+

lemma unit_names_dt:
  "normalizeUnit ''year'' = Ok UYear" "normalizeUnit ''month'' = Ok UMonth"
  "normalizeUnit ''day'' = Ok UDay" "normalizeUnit ''hour'' = Ok UHour"
  "normalizeUnit ''minute'' = Ok UMinute" "normalizeUnit ''second'' = Ok USecond"
  "normalizeUnit ''millisecond'' = Ok UMillisecond" "normalizeUnit ''weekday'' = Ok UWeekday"
  by code_simp+

lemma normalizeObject_one:
  "normalizer u = Ok k \<Longrightarrow> normalizeObject [(u, VNum n)] normalizer = Ok [(k, n)]"
  by (simp add: normalizeObject_def asNumber_def)

lemma frac_of_int [simp]: "frac (of_int n) = 0"
  by (simp add: frac_def)

definition whole :: "rat \<Rightarrow> bool" where
  "whole x \<longleftrightarrow> frac x = 0"

lemma whole_of_int [simp]: "whole (of_int n)" "whole 0" "whole 1" "whole (- 1)"
  using frac_of_int [of n] frac_of_int [of 0] frac_of_int [of 1] frac_of_int [of "- 1"]
  by (simp_all add: whole_def)

text \<open>The milliseconds of a duration whose calendar units are whole: hours and below.\<close>

definition clock_ms :: "dvals \<Rightarrow> rat" where
  "clock_ms v = dval v Hours * 3600000 + dval v Minutes * 60000 + dval v Seconds * 1000
     + dval v Milliseconds"

lemma millisToAdd_whole:
  assumes "whole (dval v Years)" "whole (dval v Quarters)" "whole (dval v Months)"
    "whole (dval v Weeks)" "whole (dval v Days)" "Locale_fromObject E no_locale_opts = Ok l"
  shows "millisToAdd E v = Ok (Some (clock_ms v))"
proof -
  define vals where "vals = [(Years, frac (dval v Years)), (Quarters, frac (dval v Quarters)),
    (Months, frac (dval v Months)), (Weeks, frac (dval v Weeks)), (Days, frac (dval v Days)),
    (Hours, dval v Hours), (Minutes, dval v Minutes), (Seconds, dval v Seconds),
    (Milliseconds, dval v Milliseconds)]"
  have "millisToAdd E v = Duration_toMillis
      \<lparr>d_values = vals, d_loc = l, d_longterm = False, d_invalid = None\<rparr>"
    by (simp add: millisToAdd_def Duration_fromObject_def normalizeObject_def asNumber_def
        all_unit_names assms vals_def Duration_toMillis_def)
  also have "\<dots> = Ok (Some (values_ms casualMatrix vals))"
    by (simp add: Duration_toMillis_ms Duration_isValid_def d_ms_def d_matrix_def)
  also have "values_ms casualMatrix vals = clock_ms v"
    using assms by (simp add: values_ms_def tot_def dunit_orderedUnits_def vals_def whole_def
        clock_ms_def unit_ms_def casualMatrix_def lowOrderMatrix_def)
  finally show ?thesis .
qed

subsection \<open>Zones of constant offset\<close>

locale const_zone =
  fixes E :: settings and z :: zone and off :: int
  assumes valid: "zone_isValid z"
    and offset: "stamp_ok t \<Longrightarrow> zone_offset E z (Some (of_int t)) = Some (of_int off)"
begin

lemma fixOffset_const:
  assumes "stamp_ok (t - off * 60000)"
  shows "fixOffset (Some (of_int t)) (Some (of_int off)) (zone_offset E z)
    = (Some (of_int (t - off * 60000)), Some (of_int off))"
  using offset [OF assms] by (simp add: fixOffset_def Let_def)

lemma tsToObj_const:
  "\<bar>t\<bar> \<le> 8640000000000000 \<Longrightarrow>
   tsToObj (Some (of_int (t - off * 60000))) (Some (of_int off)) = Some (cal_of_ms t)"
proof -
  assume "\<bar>t\<bar> \<le> 8640000000000000"
  then have "date_of (Some (of_int t)) = Some t" by (simp only: date_of_int TimeClip_Some_iff)
  then show ?thesis by (simp add: tsToObj_def)
qed

text \<open>Moving to the local time \<open>t\<close>.\<close>

lemma clone_const:
  assumes "valid_cal c" "in_range off t"
  shows "clone_dt E (dt_at z off l c) (Some (of_int (t - off * 60000))) z l
    = Ok (dt_at z off l (cal_of_ms t))"
proof -
  have r: "\<bar>t\<bar> \<le> 8640000000000000" "stamp_ok (t - off * 60000)"
    using assms(2) by (auto simp: in_range_def)
  have c: "cal_ms c = t \<Longrightarrow> cal_of_ms t = c" using assms(1) by auto
  have eq: "(rat_of_int (cal_ms c) - rat_of_int (off * 60000) = rat_of_int t - rat_of_int (off * 60000))
      = (cal_ms c = t)" by simp
  show ?thesis
    using tsToObj_const [OF r(1)] offset [OF r(2)] valid c zone_equals_refl [OF valid]
    by (auto simp: clone_dt_def DateTime_new_def config_invalid_def Let_def dt_at_def)
qed

lemma new_const:
  assumes "in_range off t"
  shows "DateTime_new E \<lparr>cf_ts = Some (Some (of_int (t - off * 60000))), cf_zone = Some z,
      cf_loc = Some l, cf_invalid = None, cf_old = None\<rparr> = Ok (dt_at z off l (cal_of_ms t))"
proof -
  have r: "\<bar>t\<bar> \<le> 8640000000000000" "stamp_ok (t - off * 60000)"
    using assms by (auto simp: in_range_def)
  show ?thesis
    using tsToObj_const [OF r(1)] offset [OF r(2)] valid
    by (simp add: DateTime_new_def config_invalid_def Let_def dt_at_def)
qed

text \<open>Setting units to what denotes the local time \<open>t\<close>.\<close>

lemma set_obj_const:
  assumes "valid_cal c" "conflicting n = None" "objToLocalTS (set_mixed (Some c) n) = Some t"
    "in_range off t"
  shows "set_obj E (dt_at z off l c) n = Ok (dt_at z off l (cal_of_ms t))"
proof -
  have "stamp_ok (t - off * 60000)" using assms(4) by (simp add: in_range_def)
  from fixOffset_const [OF this] clone_const [OF assms(1,4)] show ?thesis
    by (simp add: set_obj_def assms objToTS_def)
qed

end

subsection \<open>Setting one unit\<close>

definition cal_set :: "dtunit \<Rightarrow> int \<Rightarrow> cal \<Rightarrow> cal" where
  "cal_set u n c = (case u of
     UYear \<Rightarrow> c\<lparr>c_year := n, c_day := min (daysInMonth n (c_month c)) (c_day c)\<rparr>
   | UMonth \<Rightarrow> c\<lparr>c_month := n, c_day := min (daysInMonth (c_year c) n) (c_day c)\<rparr>
   | UDay \<Rightarrow> c\<lparr>c_day := n\<rparr> | UHour \<Rightarrow> c\<lparr>c_hour := n\<rparr> | UMinute \<Rightarrow> c\<lparr>c_minute := n\<rparr>
   | USecond \<Rightarrow> c\<lparr>c_second := n\<rparr> | UMillisecond \<Rightarrow> c\<lparr>c_millisecond := n\<rparr> | _ \<Rightarrow> c)"

definition set_ok :: "dtunit \<Rightarrow> int \<Rightarrow> cal \<Rightarrow> bool" where
  "set_ok u n c \<longleftrightarrow> (case u of UYear \<Rightarrow> True | UMonth \<Rightarrow> 1 \<le> n \<and> n \<le> 12
     | UDay \<Rightarrow> 1 \<le> n \<and> n \<le> daysInMonth (c_year c) (c_month c) | UHour \<Rightarrow> 0 \<le> n \<and> n \<le> 23
     | UMinute \<Rightarrow> 0 \<le> n \<and> n \<le> 59 | USecond \<Rightarrow> 0 \<le> n \<and> n \<le> 59
     | UMillisecond \<Rightarrow> 0 \<le> n \<and> n \<le> 999 | _ \<Rightarrow> False)"

lemma valid_cal_day_min:
  assumes "valid_cal c" "1 \<le> m" "m \<le> 12"
  shows "valid_cal (c\<lparr>c_year := y, c_month := m, c_day := min (daysInMonth y m) (c_day c)\<rparr>)"
  using valid_calD [OF assms(1)] assms(2,3) daysInMonth_bounds(1) [of y m]
  by (intro valid_calI) auto

lemma valid_cal_set:
  assumes "valid_cal c" "set_ok u n c"
  shows "valid_cal (cal_set u n c)"
proof (cases u)
  case UYear
  then show ?thesis
    using valid_cal_day_min [OF assms(1), of "c_month c" n] valid_calD [OF assms(1)] by (simp add: cal_set_def)
next
  case UMonth
  then show ?thesis
    using valid_cal_day_min [OF assms(1), of n "c_year c"] assms(2) by (simp add: cal_set_def set_ok_def)
qed (use valid_calD [OF assms(1)] assms(2) in \<open>auto simp: cal_set_def set_ok_def intro!: valid_calI\<close>)

lemma set_mixed_one:
  assumes "set_ok u n c" "valid_cal c"
  shows "set_mixed (Some c) [u \<mapsto> n] = obj_of_cal (cal_set u n c)"
proof (rule ext)
  fix k
  show "set_mixed (Some c) [u \<mapsto> n] k = obj_of_cal (cal_set u n c) k"
    using assms(1) valid_calD(4) [OF assms(2)]
    by (cases u; cases k) (simp_all add: set_mixed_def obj_of_cal_def cal_set_def set_ok_def)
qed

lemma conflicting_one:
  "set_ok u n c \<Longrightarrow> conflicting [u \<mapsto> n] = None"
  by (cases u) (simp_all add: conflicting_def set_ok_def truthy_def)

lemma objToLocalTS_in_range:
  "valid_cal c \<Longrightarrow> \<not> cal_lost c \<Longrightarrow> in_range off (cal_ms c) \<Longrightarrow> objToLocalTS (obj_of_cal c) = Some (cal_ms c)"
  by (simp add: objToLocalTS_valid in_range_def)

context const_zone
begin

lemma set_const:
  assumes c: "valid_cal c" and u: "normalizeUnit s = Ok u" "set_ok u n c"
    and r: "\<not> cal_lost (cal_set u n c)" "in_range off (cal_ms (cal_set u n c))"
  shows "DateTime_set E (dt_at z off l c) [(s, VNum n)] = Ok (dt_at z off l (cal_set u n c))"
proof -
  have v: "valid_cal (cal_set u n c)" using c u(2) by (rule valid_cal_set)
  have "set_obj E (dt_at z off l c) [u \<mapsto> n] = Ok (dt_at z off l (cal_set u n c))"
    using set_obj_const [OF c conflicting_one [OF u(2)] _ r(2)] objToLocalTS_in_range [OF v r] v
    by (simp add: set_mixed_one [OF u(2) c])
  then show ?thesis by (simp add: DateTime_set_def normalizeObject_one [where normalizer = normalizeUnit, OF u(1)])
qed

end

subsection \<open>Years beyond the first century\<close>

text \<open>From the year 100 on the fields may overflow; up to the year 10000 everything is in range.\<close>

definition modern :: "int \<Rightarrow> bool" where
  "modern y \<longleftrightarrow> 100 \<le> y \<and> y \<le> 10000"

lemma modern_not_lost: "modern (c_year c) \<Longrightarrow> \<not> cal_lost c"
  by (simp add: modern_def cal_lost_def lost_day_def)

definition clock :: "cal \<Rightarrow> int" where
  "clock c = MakeTime (c_hour c) (c_minute c) (c_second c) (c_millisecond c)"

definition day_no :: "cal \<Rightarrow> int" where
  "day_no c = MakeDay (c_year c) (c_month c - 1) (c_day c)"

lemma cal_ms_day_clock: "cal_ms c = day_no c * msPerDay + clock c"
  by (simp add: cal_ms_def day_no_def clock_def MakeDate_def)

lemma clock_range: "valid_cal c \<Longrightarrow> 0 \<le> clock c \<and> clock c < msPerDay"
  using MakeTime_range by (auto simp: valid_cal_def clock_def)

lemma modern_day:
  assumes "valid_cal c" "modern (c_year c)"
  shows "-683003 \<le> day_no c \<and> day_no c < 2933263"
proof -
  have "DayFromYear 100 \<le> DayFromYear (c_year c)" "DayFromYear (c_year c + 1) \<le> DayFromYear 10001"
    using assms(2) by (auto simp: modern_def intro!: DayFromYear_mono)
  moreover have "DayFromYear 100 = -683003" "DayFromYear 10001 = 2933263" by (simp_all add: DayFromYear_def)
  ultimately show ?thesis
    using assms(1) MakeDay_in_year [of "c_year c" "c_month c - 1" "c_day c"]
    by (simp add: day_no_def valid_cal_def)
qed

lemma modern_in_range:
  assumes "valid_cal c" "modern (c_year c)" "\<bar>off\<bar> \<le> 10000"
  shows "in_range off (cal_ms c)"
  using modern_day [OF assms(1,2)] clock_range [OF assms(1)] assms(3)
  by (simp add: in_range_def stamp_ok_def cal_ms_day_clock msPerDay_def abs_le_iff)

text \<open>The month after the month of \<open>c\<close>, with another day.\<close>

definition next_month :: "int \<Rightarrow> cal \<Rightarrow> cal" where
  "next_month d c = (if c_month c = 12 then c\<lparr>c_year := c_year c + 1, c_month := 1, c_day := d\<rparr>
     else c\<lparr>c_month := c_month c + 1, c_day := d\<rparr>)"

lemma valid_next_month:
  assumes "valid_cal c" "1 \<le> d" "d \<le> daysInMonth (c_year c) (c_month c + 1)"
  shows "valid_cal (next_month d c)"
proof -
  have "daysInMonth (c_year c + 1) 1 = daysInMonth (c_year c) 13"
    by (simp add: daysInMonth_carry month_length_def)
  with assms(3) valid_calD [OF assms(1)] assms(2) show ?thesis
    by (intro valid_calI) (auto simp: next_month_def)
qed

lemma cal_ms_next_month:
  "cal_ms (next_month d c) = MakeDate (MakeDay (c_year c) (c_month c) d) (clock c)"
  by (simp add: cal_ms_def next_month_def clock_def MakeDay_def)

lemma month_start_Suc:
  "0 \<le> m \<Longrightarrow> m < 11 \<Longrightarrow> month_start lp (m + 1) = month_start lp m + month_length lp m"
  by (cases rule: month_cases [of m]) (auto simp: month_eval)

lemma MakeDay_next_month:
  assumes "0 \<le> m" "m \<le> 11"
  shows "MakeDay y (m + 1) 1 = MakeDay y m 1 + month_length (leap y) m"
proof (cases "m = 11")
  case True
  then show ?thesis
    by (simp add: MakeDay_def DayFromYear_Suc DaysInYear_def month_start_def month_length_def)
next
  case False
  with assms show ?thesis by (simp add: MakeDay_def month_start_Suc)
qed

lemma MakeDay_add: "MakeDay y m d = MakeDay y m 1 + (d - 1)"
  by (simp add: MakeDay_def Let_def)

definition end_of_month :: "cal \<Rightarrow> cal" where
  "end_of_month c = c\<lparr>c_day := daysInMonth (c_year c) (c_month c), c_hour := 23, c_minute := 59,
     c_second := 59, c_millisecond := 999\<rparr>"

definition month_begin :: "cal \<Rightarrow> cal" where
  "month_begin c = c\<lparr>c_day := 1, c_hour := 0, c_minute := 0, c_second := 0, c_millisecond := 0\<rparr>"

lemma valid_end_of_month: "valid_cal c \<Longrightarrow> valid_cal (end_of_month c)"
  using valid_calD [of c] daysInMonth_bounds(1) [of "c_year c" "c_month c"]
  by (intro valid_calI) (auto simp: end_of_month_def)

lemma valid_month_begin: "valid_cal c \<Longrightarrow> valid_cal (month_begin c)"
  using valid_calD [of c] daysInMonth_bounds(1) [of "c_year c" "c_month c"]
  by (intro valid_calI) (auto simp: month_begin_def)

lemma end_of_month_ms:
  assumes "valid_cal c"
  shows "cal_ms (month_begin (next_month d c)) - 1 = cal_ms (end_of_month c)"
proof -
  have m: "0 \<le> c_month c - 1" "c_month c - 1 \<le> 11" using valid_calD [OF assms] by auto
  have "cal_ms (month_begin (next_month d c)) = MakeDate (MakeDay (c_year c) (c_month c - 1 + 1) 1) 0"
    by (simp add: cal_ms_def next_month_def month_begin_def MakeDay_def MakeTime_def)
  also have "\<dots> = MakeDate (MakeDay (c_year c) (c_month c - 1) (daysInMonth (c_year c) (c_month c) + 1)) 0"
    using m unfolding MakeDay_next_month [OF m] MakeDay_add [of _ _ "_ + 1"] by (simp add: daysInMonth_eq)
  also have "\<dots> - 1 = cal_ms (end_of_month c)"
    by (simp add: cal_ms_def end_of_month_def MakeDate_def MakeTime_def msPerDay_def
        MakeDay_add [of _ _ "_ + 1"] MakeDay_add [of _ _ "daysInMonth _ _"])
  finally show ?thesis .
qed

lemma localTS_modern:
  "modern y \<Longrightarrow> localTS y m d h mi s ms = TimeClip (MakeDate (MakeDay y (m - 1) d) (MakeTime h mi s ms))"
  by (rule localTS_overflow) (simp add: modern_def)

lemma weekday_at:
  assumes "valid_cal c" "modern (c_year c)"
  shows "weekday (dt_at z off l c) = Some (if WeekDay (day_no c) = 0 then 7 else WeekDay (day_no c))"
proof -
  have "TimeClip (MakeDate (day_no c) 0) = Some (day_no c * msPerDay)"
    using modern_day [OF assms] by (simp add: TimeClip_def MakeDate_def msPerDay_def abs_le_iff)
  then have "Date_UTC (c_year c) (c_month c - 1) (c_day c) 0 0 0 0 = Some (day_no c * msPerDay)"
    using assms(2) by (simp add: Date_UTC_def Let_def modern_def day_no_def MakeTime_def)
  then have "dayOfWeek (c_year c) (c_month c) (c_day c)
      = Some (if WeekDay (day_no c) = 0 then 7 else WeekDay (day_no c))"
    using assms(2) by (simp add: dayOfWeek_def modern_def getUTCDay_def msPerDay_def Let_def)
  moreover have "computeOrdinal (c_year c) (c_month c) (c_day c) \<noteq> None"
    using valid_calD [OF assms(1)]
    by (simp add: computeOrdinal_def js_nth_def nonLeapLadder_def leapLadder_def)
  ultimately show ?thesis
    by (auto simp: weekday_def weekData_def gregorianToWeek_def obj_of_cal_def timeObject_def pick_def Let_def)
qed

text \<open>The zones the program meets: their offset is below a hundred hours and a bit.\<close>

locale sane_zone = const_zone +
  assumes small: "\<bar>off\<bar> \<le> 10000"
begin

lemma set_modern:
  assumes "valid_cal c" "normalizeUnit s = Ok u" "set_ok u n c" "modern (c_year (cal_set u n c))"
  shows "DateTime_set E (dt_at z off l c) [(s, VNum n)] = Ok (dt_at z off l (cal_set u n c))"
  using assms by (intro set_const modern_not_lost modern_in_range valid_cal_set small)

lemma set_obj_cal:
  assumes "valid_cal c" "conflicting n = None" "set_mixed (Some c) n = obj_of_cal c'"
    "valid_cal c'" "modern (c_year c')"
  shows "set_obj E (dt_at z off l c) n = Ok (dt_at z off l c')"
proof -
  have r: "in_range off (cal_ms c')" using assms(4,5) small by (rule modern_in_range)
  have "objToLocalTS (set_mixed (Some c) n) = Some (cal_ms c')"
    unfolding assms(3) using assms(4) modern_not_lost [OF assms(5)] r by (rule objToLocalTS_in_range)
  from set_obj_const [OF assms(1,2) this r] assms(4) show ?thesis by simp
qed

text \<open>A day beyond the end of the month is a day of a later month.\<close>

lemma set_day_overflow:
  assumes "valid_cal c" "modern (c_year c)" "1 \<le> n" "n \<le> 62" "c_year c < 10000"
  shows "DateTime_set E (dt_at z off l c) [(''day'', VNum n)]
    = Ok (dt_at z off l (cal_of_ms (cal_ms c + (n - c_day c) * msPerDay)))"
proof -
  let ?t = "cal_ms c + (n - c_day c) * msPerDay"
  have d: "1 \<le> c_day c" "c_day c \<le> 31"
    using valid_calD [OF assms(1)] daysInMonth_bounds(2) [of "c_year c" "c_month c"] by auto
  have r: "in_range off ?t"
    using modern_day [OF assms(1,2)] clock_range [OF assms(1)] small assms(3,4) d
    by (simp add: in_range_def stamp_ok_def cal_ms_day_clock msPerDay_def abs_le_iff algebra_simps)
  have "objToLocalTS (set_mixed (Some c) [UDay \<mapsto> n]) = TimeClip ?t"
    using assms(2) by (simp add: set_mixed_def objToLocalTS_def obj_of_cal_def localTS_modern)
      (simp add: cal_ms_def MakeDate_def MakeDay_add [of _ _ n] MakeDay_add [of _ _ "c_day c"] algebra_simps)
  then have "objToLocalTS (set_mixed (Some c) [UDay \<mapsto> n]) = Some ?t"
    using r by (simp add: in_range_def)
  from set_obj_const [OF assms(1) _ this r] show ?thesis
    by (simp add: DateTime_set_def normalizeObject_one [where normalizer = normalizeUnit, OF unit_names_dt(3)]
        conflicting_def truthy_def)
qed

text \<open>Adding whole durations.\<close>

lemma adjustTime_const:
  assumes "valid_cal c" "Duration_isValid dur" "d_values dur = v"
    "whole (dval v Years)" "whole (dval v Quarters)" "whole (dval v Months)"
    "whole (dval v Weeks)" "whole (dval v Days)"
    "objToLocalTS (adjust_cal c v) = Some t" "in_range off t" "clock_ms v = of_int k"
    and L: "Locale_fromObject E no_locale_opts = Ok l0"
  shows "adjustTime E (dt_at z off l c) dur = Ok (Some (of_int (t + k - off * 60000)))"
proof -
  have "stamp_ok (t - off * 60000)" using assms(10) by (simp add: in_range_def)
  from fixOffset_const [OF this] millisToAdd_whole [OF assms(4-8) L] assms show ?thesis
    by (simp add: adjustTime_def Let_def)
qed

lemma plus_const:
  assumes "valid_cal c" "fromDurationLike E d = Ok dur" "Duration_isValid dur" "d_values dur = v"
    "whole (dval v Years)" "whole (dval v Quarters)" "whole (dval v Months)"
    "whole (dval v Weeks)" "whole (dval v Days)"
    "objToLocalTS (adjust_cal c v) = Some t" "in_range off t" "clock_ms v = of_int k"
    "in_range off (t + k)"
    and L: "Locale_fromObject E no_locale_opts = Ok l0"
  shows "plus E (dt_at z off l c) d = Ok (dt_at z off l (cal_of_ms (t + k)))"
  using adjustTime_const [OF assms(1,3-12) L] clone_const [OF assms(1,13)]
  by (simp add: plus_def assms(2))

lemma minus_const:
  assumes "valid_cal c" "fromDurationLike E d = Ok dur" "Duration_isValid dur"
    "d_values dur = [(Milliseconds, of_int k)]" "objToLocalTS (obj_of_cal c) = Some (cal_ms c)"
    "in_range off (cal_ms c)" "in_range off (cal_ms c - k)"
    and L: "Locale_fromObject E no_locale_opts = Ok l0"
  shows "minus E (dt_at z off l c) d = Ok (dt_at z off l (cal_of_ms (cal_ms c - k)))"
proof -
  let ?v = "[(Milliseconds, - of_int k)]"
  have neg: "d_values (negate dur) = ?v" "Duration_isValid (negate dur)"
    using assms(3,4) by (simp_all add: negate_def negate_values_def)
  have "min (c_day c) (daysInMonth (c_year c) (c_month c)) = c_day c"
    using valid_calD(4) [OF assms(1)] by simp
  then have "adjust_cal c ?v = obj_of_cal c"
    by (auto simp: adjust_cal_def obj_of_cal_def js_trunc_def)
  with assms(5) have "objToLocalTS (adjust_cal c ?v) = Some (cal_ms c)" by simp
  from adjustTime_const [OF assms(1) neg(2,1) _ _ _ _ _ this assms(6) _ L, of "- k"]
    clone_const [OF assms(1,7)] assms(2) show ?thesis
    by (simp add: minus_def clock_ms_def)
qed

lemma Duration_of_object:
  "Locale_fromObject E no_locale_opts = Ok l0 \<Longrightarrow> Duration_normalizeUnit u = Ok k \<Longrightarrow>
   fromDurationLike E (DObject [(u, VNum x)])
    = Ok \<lparr>d_values = [(k, x)], d_loc = l0, d_longterm = False, d_invalid = None\<rparr>"
  by (simp add: fromDurationLike_def Duration_fromObject_def
      normalizeObject_one [where normalizer = Duration_normalizeUnit])

lemma Duration_of_number:
  "Locale_fromObject E no_locale_opts = Ok l0 \<Longrightarrow> fromDurationLike E (DNumber (Some x))
    = Ok \<lparr>d_values = [(Milliseconds, x)], d_loc = l0, d_longterm = False, d_invalid = None\<rparr>"
  using Duration_of_object [OF _ all_unit_names(9)]
  by (simp add: fromDurationLike_def Duration_fromMillis_def uval_of_num_def)

lemma plus_one_month:
  assumes "valid_cal c" "modern (c_year c)" "c_year c < 10000"
    and L: "Locale_fromObject E no_locale_opts = Ok l0"
  shows "plus E (dt_at z off l c) (DObject [(''month'', VNum 1)])
    = Ok (dt_at z off l (next_month (min (c_day c) (daysInMonth (c_year c) (c_month c + 1))) c))"
proof -
  let ?d = "min (c_day c) (daysInMonth (c_year c) (c_month c + 1))"
  let ?c = "next_month ?d c"
  have d: "1 \<le> ?d" using valid_calD(3) [OF assms(1)] daysInMonth_bounds(1) [of "c_year c" "c_month c + 1"]
    by linarith
  then have v: "valid_cal ?c" using assms(1) by (intro valid_next_month) auto
  have y: "modern (c_year ?c)" using assms(2,3) by (auto simp: next_month_def modern_def)
  have r: "in_range off (cal_ms ?c)" using v y small by (rule modern_in_range)
  have "objToLocalTS (adjust_cal c [(Months, 1)]) = TimeClip (cal_ms ?c)"
    unfolding cal_ms_next_month
    by (simp add: adjust_cal_def objToLocalTS_def obj_of_cal_def localTS_modern [OF assms(2)] clock_def
        js_trunc_def Let_def)
  then have t: "objToLocalTS (adjust_cal c [(Months, 1)]) = Some (cal_ms ?c)"
    using r by (simp add: in_range_def)
  have "plus E (dt_at z off l c) (DObject [(''month'', VNum 1)])
      = Ok (dt_at z off l (cal_of_ms (cal_ms ?c + 0)))"
    by (rule plus_const [OF assms(1) Duration_of_object [OF L all_unit_names(10)] _ refl])
      (use t r L in \<open>simp_all add: Duration_isValid_def clock_ms_def\<close>)
  then show ?thesis using v by simp
qed

lemma plus_days:
  assumes "valid_cal c" "modern (c_year c)" "in_range off (cal_ms c + n * msPerDay)"
    and L: "Locale_fromObject E no_locale_opts = Ok l0"
  shows "plus E (dt_at z off l c) (DObject [(''day'', VNum (of_int n))])
    = Ok (dt_at z off l (cal_of_ms (cal_ms c + n * msPerDay)))"
proof -
  let ?t = "cal_ms c + n * msPerDay"
  have "min (c_day c) (daysInMonth (c_year c) (c_month c)) = c_day c"
    using valid_calD(4) [OF assms(1)] by simp
  then have "objToLocalTS (adjust_cal c [(Days, of_int n)]) = TimeClip ?t"
    by (simp add: adjust_cal_def objToLocalTS_def obj_of_cal_def localTS_modern [OF assms(2)] Let_def
        js_trunc_of_int js_trunc_of_int [of 0, simplified])
      (simp add: cal_ms_def MakeDate_def MakeDay_add [of _ _ "_ + _"] MakeDay_add [of _ _ "c_day c"] algebra_simps)
  then have t: "objToLocalTS (adjust_cal c [(Days, of_int n)]) = Some ?t"
    using assms(3) by (simp add: in_range_def)
  have "plus E (dt_at z off l c) (DObject [(''day'', VNum (of_int n))])
      = Ok (dt_at z off l (cal_of_ms (?t + 0)))"
    by (rule plus_const [OF assms(1) Duration_of_object [OF L all_unit_names(11)] _ refl])
      (use t assms(3) L in \<open>simp_all add: Duration_isValid_def clock_ms_def\<close>)
  then show ?thesis by simp
qed

lemma startOf_month:
  assumes "valid_cal c" "modern (c_year c)"
  shows "startOf E (dt_at z off l c) ''month'' = Ok (dt_at z off l (month_begin c))"
proof -
  have "normalizeObject (startOf_values Months q) normalizeUnit
      = Ok [(UDay, 1), (UHour, 0), (UMinute, 0), (USecond, 0), (UMillisecond, 0)]" for q
    by (simp add: startOf_values_def normalizeObject_def asNumber_def unit_names_dt)
  moreover have "set_obj E (dt_at z off l c)
      (map_of [(UDay, 1), (UHour, 0), (UMinute, 0), (USecond, 0), (UMillisecond, 0)])
      = Ok (dt_at z off l (month_begin c))"
    using assms valid_month_begin [OF assms(1)]
    by (intro set_obj_cal ext) (auto simp: conflicting_def truthy_def set_mixed_def month_begin_def obj_of_cal_def)
  ultimately show ?thesis by (simp add: startOf_def all_unit_names DateTime_set_def)
qed

lemma minus_one:
  assumes "valid_cal c" "modern (c_year c)"
    and L: "Locale_fromObject E no_locale_opts = Ok l0"
  shows "minus E (dt_at z off l c) (DNumber (Some 1)) = Ok (dt_at z off l (cal_of_ms (cal_ms c - 1)))"
proof -
  have r: "in_range off (cal_ms c)" "in_range off (cal_ms c - 1)"
    using modern_day [OF assms(1,2)] clock_range [OF assms(1)] small
    by (simp_all add: in_range_def stamp_ok_def cal_ms_day_clock msPerDay_def abs_le_iff)
  have "objToLocalTS (obj_of_cal c) = Some (cal_ms c)"
    using assms(1) modern_not_lost [OF assms(2)] r(1) by (rule objToLocalTS_in_range)
  from minus_const [OF assms(1) Duration_of_number [OF L] _ _ this r(1) _ L, of 1] r(2)
  show ?thesis by (simp add: Duration_isValid_def)
qed

lemma endOf_month:
  assumes "valid_cal c" "modern (c_year c)" "c_year c < 10000"
    and L: "Locale_fromObject E no_locale_opts = Ok l0"
  shows "endOf E (dt_at z off l c) ''month'' = Ok (dt_at z off l (end_of_month c))"
proof -
  let ?d = "min (c_day c) (daysInMonth (c_year c) (c_month c + 1))"
  have "1 \<le> ?d" using valid_calD(3) [OF assms(1)] daysInMonth_bounds(1) [of "c_year c" "c_month c + 1"]
    by linarith
  then have v: "valid_cal (next_month ?d c)" using assms(1) by (intro valid_next_month) auto
  have y: "modern (c_year (next_month ?d c))" "modern (c_year (month_begin (next_month ?d c)))"
    using assms(2,3) by (auto simp: next_month_def modern_def month_begin_def)
  show ?thesis
    using startOf_month [OF v y(1)] minus_one [OF valid_month_begin [OF v] y(2) L] valid_end_of_month [OF assms(1)]
    by (simp add: endOf_def plus_one_month [OF assms(1-3) L] end_of_month_ms [OF assms(1)])
qed

end

text \<open>The fixed-offset zones, and among them the sane ones.\<close>

interpretation fixed: const_zone E "FixedOffsetZone (of_int off)" off for E off
  by unfold_locales (simp_all add: zone_isValid_def zone_offset_def)

interpretation utc: sane_zone E utcInstance 0 for E
  by unfold_locales (simp_all add: zone_isValid_def zone_offset_def utcInstance_def)

lemma fixed_sane_zone: "\<bar>off\<bar> \<le> 10000 \<Longrightarrow> sane_zone E (FixedOffsetZone (of_int off)) off"
  by unfold_locales simp

end
