(* ===== verification/CronMatcher.thy ===== *)
theory CronMatcher
  imports CronParser DateTimeLaws
begin

text \<open>
  The cron matcher of \<open>ui/js/bundle.js\<close> (module 3, \<open>@datasert/cronjs-matcher\<close>): the values of
  the fields of an expression, the series of candidate times, and the tests whether a time matches
  an expression. The generator and the loop that reads it are one loop with a \<open>break\<close>: the body
  that consumes a time is a parameter of the series.

  The loops that need not end (\<open>getValues\<close> with a step that is not positive, the search for the
  last day of a kind) give \<open>Hang\<close> when they do not.
\<close>

subsection \<open>Fields\<close>

definition matcher_FIELD_INFO :: "fld \<Rightarrow> int \<times> int" where
  [cron_defs]: "matcher_FIELD_INFO f = (case f of SECOND \<Rightarrow> (0, 59) | MINUTE \<Rightarrow> (0, 59) | HOUR \<Rightarrow> (0, 23)
     | DAY_OF_MONTH \<Rightarrow> (1, 31) | MONTH \<Rightarrow> (1, 12) | DAY_OF_WEEK \<Rightarrow> (0, 6) | YEAR \<Rightarrow> (1970, 2099))"

definition TZ_UTC :: string where
  [cron_defs]: "TZ_UTC = ''Etc/UTC''"

definition matcher_FIELDS :: "fld list" where
  [cron_defs]: "matcher_FIELDS = rev [SECOND, MINUTE, HOUR, DAY_OF_MONTH, MONTH, YEAR, DAY_OF_WEEK]"

definition FIELDS_SANS_DAY_REVERSE :: "fld list" where
  [cron_defs]: "FIELDS_SANS_DAY_REVERSE = rev [SECOND, MINUTE, HOUR, MONTH, YEAR]"

definition getWeekDay :: "datetime \<Rightarrow> int option" where
  [cron_defs]: "getWeekDay time = (if weekday time = Some 7 then Some 0 else weekday time)"

definition getValues :: "int \<Rightarrow> int \<Rightarrow> int \<Rightarrow> int list res" where
  [cron_defs]: "getValues from to step = res_of_loop (map_option snd
     (while_option (\<lambda>(i, values). i \<le> to) (\<lambda>(i, values). (i + step, values @ [i])) (from, [])))"

definition isBlank :: "'a list option \<Rightarrow> bool" where
  [cron_defs]: "isBlank values = (values = None \<or> values = Some [])"

definition steps_values :: "cron_step list option \<Rightarrow> int list res" where
  [cron_defs]: "steps_values steps =
     rmap concat (mapM (\<lambda>s. getValues (s_from s) (s_to s) (s_step s)) (opt_list steps))"

text \<open>A start year that is \<open>NaN\<close> gives no values. The values of the steps are pushed twice.\<close>

definition expandField :: "cron_expr \<Rightarrow> fld \<Rightarrow> int option \<Rightarrow> int list res" where
  [cron_defs]: "expandField expr field startYear =
     (let exprField = expr field; (mn, mx) = matcher_FIELD_INFO field in
      if f_omit exprField then Ok (if field = SECOND then [0] else [])
      else if field = DAY_OF_WEEK then
        getValues (fst (matcher_FIELD_INFO DAY_OF_MONTH)) (snd (matcher_FIELD_INFO DAY_OF_MONTH)) 1
      else
        let all = (f_all exprField \<or> f_lastDay exprField \<or> f_lastWeekday exprField \<or>
              \<not> isBlank (f_lastDays exprField) \<or> \<not> isBlank (f_nearestWeekdays exprField) \<or>
              \<not> isBlank (f_nthDays exprField));
            values = opt_list (f_values exprField)
        in if all then
             (case (if field = YEAR then startYear else Some mn) of
                None \<Rightarrow> Ok values
              | Some from \<Rightarrow> rmap (\<lambda>vs. values @ vs) (getValues from mx 1))
           else
             rbind (rmap concat (mapM (\<lambda>r. getValues (r_from r) (r_to r) 1)
               (opt_list (f_ranges exprField)))) (\<lambda>rs.
             rbind (steps_values (f_steps exprField)) (\<lambda>ss.
             rbind (steps_values (f_steps exprField)) (\<lambda>ss2.
             Ok (values @ rs @ ss @ ss2)))))"

definition expandFields :: "cron_exprs \<Rightarrow> fld \<Rightarrow> int option \<Rightarrow> int list res" where
  [cron_defs]: "expandFields exprs field startYear =
     rmap (\<lambda>vss. sort (dedupe (concat vss)))
       (mapM (\<lambda>expr. expandField expr field startYear) (expressions exprs))"

definition mergeExprs :: "cron_exprs \<Rightarrow> int option \<Rightarrow> (fld \<Rightarrow> int list) res" where
  [cron_defs]: "mergeExprs exprs startYear =
     rbind (foldM (\<lambda>field merged.
         if field = DAY_OF_WEEK \<or> field = DAY_OF_MONTH then Ok merged
         else rbind (expandFields exprs field startYear) (\<lambda>vs. Ok (merged(field := vs))))
       matcher_FIELDS (\<lambda>_. [])) (\<lambda>merged.
     rbind (expandFields exprs DAY_OF_MONTH startYear) (\<lambda>doms.
     rbind (expandFields exprs DAY_OF_WEEK startYear) (\<lambda>dows.
     Ok (merged(DAY_OF_MONTH := sort (dedupe (doms @ dows)))))))"

definition simplifyField :: "fld \<Rightarrow> cron_expr \<Rightarrow> cron_expr res" where
  [cron_defs]: "simplifyField field expr = (case f_steps (expr field) of None \<Rightarrow> Ok expr
     | Some steps \<Rightarrow> rbind (steps_values (Some steps)) (\<lambda>vs.
         Ok (expr(field := (expr field)\<lparr>f_values := Some (opt_list (f_values (expr field)) @ vs),
               f_steps := None\<rparr>))))"

definition simplifyExprs :: "cron_exprs \<Rightarrow> cron_exprs res" where
  [cron_defs]: "simplifyExprs exprs =
     rmap (\<lambda>es. exprs\<lparr>expressions := es\<rparr>)
       (mapM (\<lambda>expr. foldM simplifyField matcher_FIELDS expr) (expressions exprs))"

subsection \<open>The series of times\<close>

definition setTime :: "settings \<Rightarrow> datetime \<Rightarrow> string \<Rightarrow> int \<Rightarrow> datetime res" where
  [cron_defs]: "setTime E time unit n = DateTime_set E time [(unit, VNum n)]"

text \<open>\<open>n < x\<close> for a number and a getter, which may be \<open>NaN\<close>.\<close>

definition lt_num :: "int \<Rightarrow> int option \<Rightarrow> bool" where
  [cron_defs]: "lt_num n x = (case x of None \<Rightarrow> False | Some m \<Rightarrow> n < m)"

text \<open>The state of the generator and that of its consumer.\<close>

record 'c series =
  g_time :: datetime
  g_reached :: bool
  g_consumer :: 'c

type_synonym 'c consumer = "datetime \<Rightarrow> 'c \<Rightarrow> 'c ctl res"

definition ctl_map :: "('a \<Rightarrow> 'b) \<Rightarrow> 'a ctl \<Rightarrow> 'b ctl" where
  [cron_defs]: "ctl_map f r = (case r of Next s \<Rightarrow> Next (f s) | Stop s \<Rightarrow> Stop (f s))"

definition second_body :: "settings \<Rightarrow> num \<Rightarrow> 'c consumer \<Rightarrow> int \<Rightarrow> 'c series \<Rightarrow> 'c series ctl res" where
  [cron_defs]: "second_body E startMillis consume sec s =
     rbind (setTime E (g_time s) ''second'' sec) (\<lambda>newTime.
       let reached = (g_reached s \<or> nle startMillis (toMillis newTime)) in
       if reached
       then rmap (ctl_map (\<lambda>c. \<lparr>g_time = newTime, g_reached = True, g_consumer = c\<rparr>))
              (consume newTime (g_consumer s))
       else Ok (Next (s\<lparr>g_time := newTime\<rparr>)))"

definition minute_body :: "settings \<Rightarrow> (fld \<Rightarrow> int list) \<Rightarrow> num \<Rightarrow> 'c consumer \<Rightarrow> int \<Rightarrow> 'c series \<Rightarrow>
  'c series ctl res" where
  [cron_defs]: "minute_body E merged startMillis consume mi s =
     rbind (setTime E (g_time s) ''minute'' mi) (\<lambda>newTime.
       foldB (second_body E startMillis consume) (merged SECOND) (s\<lparr>g_time := newTime\<rparr>))"

definition hour_body :: "settings \<Rightarrow> (fld \<Rightarrow> int list) \<Rightarrow> datetime \<Rightarrow> 'c consumer \<Rightarrow> int \<times> int \<times> int \<Rightarrow>
  int \<Rightarrow> 'c series \<Rightarrow> 'c series ctl res" where
  [cron_defs]: "hour_body E merged startTime consume ymd hr s =
     (case ymd of (y, m, d) \<Rightarrow>
      if year startTime = Some y \<and> month startTime = Some m \<and> day startTime = Some d \<and>
         lt_num hr (hour startTime)
      then Ok (Next s)
      else rbind (setTime E (g_time s) ''hour'' hr) (\<lambda>newTime.
        foldB (minute_body E merged (toMillis startTime) consume) (merged MINUTE)
          (s\<lparr>g_time := newTime\<rparr>)))"

definition day_body :: "settings \<Rightarrow> (fld \<Rightarrow> int list) \<Rightarrow> datetime \<Rightarrow> 'c consumer \<Rightarrow> int \<times> int \<Rightarrow> int \<Rightarrow>
  'c series \<Rightarrow> 'c series ctl res" where
  [cron_defs]: "day_body E merged startTime consume ym d s =
     (case ym of (y, m) \<Rightarrow>
      if year startTime = Some y \<and> month startTime = Some m \<and> lt_num d (day startTime)
      then Ok (Next s)
      else if (case dt_daysInMonth (g_time s) of None \<Rightarrow> False | Some n \<Rightarrow> d > n) then Ok (Next s)
      else rbind (setTime E (g_time s) ''day'' d) (\<lambda>newTime.
        foldB (hour_body E merged startTime consume (y, m, d)) (merged HOUR) (s\<lparr>g_time := newTime\<rparr>)))"

definition month_body :: "settings \<Rightarrow> (fld \<Rightarrow> int list) \<Rightarrow> datetime \<Rightarrow> 'c consumer \<Rightarrow> int \<Rightarrow> int \<Rightarrow>
  'c series \<Rightarrow> 'c series ctl res" where
  [cron_defs]: "month_body E merged startTime consume y m s =
     (if year startTime = Some y \<and> lt_num m (month startTime) then Ok (Next s)
      else rbind (setTime E (g_time s) ''month'' m) (\<lambda>newTime.
        foldB (day_body E merged startTime consume (y, m)) (merged DAY_OF_MONTH)
          (s\<lparr>g_time := newTime\<rparr>)))"

definition year_body :: "settings \<Rightarrow> (fld \<Rightarrow> int list) \<Rightarrow> datetime \<Rightarrow> 'c consumer \<Rightarrow> int \<Rightarrow>
  'c series \<Rightarrow> 'c series ctl res" where
  [cron_defs]: "year_body E merged startTime consume y s =
     (if lt_num y (year startTime) then Ok (Next s)
      else rbind (setTime E (g_time s) ''year'' y) (\<lambda>newTime.
        foldB (month_body E merged startTime consume y) (merged MONTH) (s\<lparr>g_time := newTime\<rparr>)))"

definition getTimeSeries :: "settings \<Rightarrow> cron_exprs \<Rightarrow> datetime \<Rightarrow> 'c consumer \<Rightarrow> 'c \<Rightarrow> 'c res" where
  [cron_defs]: "getTimeSeries E exprs startTime consume c =
     rbind (mergeExprs exprs (year startTime)) (\<lambda>merged.
     rmap (\<lambda>r. g_consumer (ctl_state r))
       (foldB (year_body E merged startTime consume) (merged YEAR)
         \<lparr>g_time = startTime, g_reached = False, g_consumer = c\<rparr>))"

subsection \<open>Days of a month\<close>

definition DAY_SUN :: int where [cron_defs]: "DAY_SUN = 0"
definition DAY_MON :: int where [cron_defs]: "DAY_MON = 1"
definition DAY_FRI :: int where [cron_defs]: "DAY_FRI = 5"
definition DAY_SAT :: int where [cron_defs]: "DAY_SAT = 6"

text \<open>The loop that goes back from the end of the month to a day of the kind.\<close>

definition last_day_loop :: "settings \<Rightarrow> int \<Rightarrow> datetime \<Rightarrow> datetime res" where
  [cron_defs]: "last_day_loop E dow endOfMonth =
     (case while_option (\<lambda>r. case r of Ok t \<Rightarrow> getWeekDay t \<noteq> Some dow | _ \<Rightarrow> False)
             (\<lambda>r. rbind r (\<lambda>t. plus E t (DObject [(''day'', VNum (- 1))]))) (Ok endOfMonth) of
        None \<Rightarrow> Hang | Some r \<Rightarrow> r)"

definition getLastDay :: "settings \<Rightarrow> datetime \<Rightarrow> int option \<Rightarrow> int option res" where
  [cron_defs]: "getLastDay E time dow =
     rbind (endOf E time ''month'') (\<lambda>endOfMonth.
       case dow of None \<Rightarrow> Ok (day endOfMonth)
       | Some w \<Rightarrow> rmap day (last_day_loop E w endOfMonth))"

definition in_week :: "int option \<Rightarrow> bool" where
  [cron_defs]: "in_week d = (case d of None \<Rightarrow> False | Some n \<Rightarrow> DAY_MON \<le> n \<and> n \<le> DAY_FRI)"

definition getLastWeekDay :: "settings \<Rightarrow> datetime \<Rightarrow> int option res" where
  [cron_defs]: "getLastWeekDay E time =
     rbind (endOf E time ''month'') (\<lambda>endOfMonth.
       if in_week (getWeekDay endOfMonth) then Ok (day endOfMonth)
       else getLastDay E time (Some DAY_FRI))"

text \<open>\<open>!=\<close> on getters: \<open>NaN\<close> differs from itself.\<close>

definition differs :: "int option \<Rightarrow> int option \<Rightarrow> bool" where
  [cron_defs]: "differs a b = (a = None \<or> a \<noteq> b)"

definition getDaysOfType :: "settings \<Rightarrow> datetime \<Rightarrow> int \<Rightarrow> int option list res" where
  [cron_defs]: "getDaysOfType E time dow =
     rmap ctl_state (foldB (\<lambda>i days.
       rbind (DateTime_set E time [(''day'', VNum i)]) (\<lambda>newTime.
         if differs (month newTime) (month time) then Ok (Stop days)
         else Ok (Next (if getWeekDay newTime = Some dow then days @ [day newTime] else days))))
       [1..30] [])"

definition isWeekday :: "datetime \<Rightarrow> bool" where
  [cron_defs]: "isWeekday time = in_week (getWeekDay time)"

definition isDay :: "datetime \<Rightarrow> int \<Rightarrow> bool" where
  [cron_defs]: "isDay time dow = (getWeekDay time = Some dow)"

definition setDayWithinMonth :: "settings \<Rightarrow> datetime \<Rightarrow> int \<Rightarrow> datetime res" where
  [cron_defs]: "setDayWithinMonth E time d =
     (let d' = (case dt_daysInMonth time of None \<Rightarrow> d | Some n \<Rightarrow> if n < d then n else d)
      in DateTime_set E time [(''day'', VNum d')])"

definition isNearestWeekDay :: "settings \<Rightarrow> datetime \<Rightarrow> int \<Rightarrow> bool res" where
  [cron_defs]: "isNearestWeekDay E evalTime d =
     (if \<not> isWeekday evalTime then Ok False
      else rbind (setDayWithinMonth E evalTime d) (\<lambda>dayTime.
        if \<not> differs (day evalTime) (day dayTime) then Ok True
        else if isDay dayTime DAY_SAT then
          (if day dayTime = Some 1 then Ok (day evalTime = Some 3)
           else Ok (\<not> differs (map_option (\<lambda>n. n - 1) (day dayTime)) (day evalTime)))
        else if isDay dayTime DAY_SUN then
          (if \<not> differs (day dayTime) (dt_daysInMonth evalTime)
           then Ok (\<not> differs (day evalTime) (map_option (\<lambda>n. n - 2) (dt_daysInMonth evalTime)))
           else Ok (\<not> differs (map_option (\<lambda>n. n + 1) (day dayTime)) (day evalTime)))
        else Ok False))"

subsection \<open>Matching\<close>

definition isInRange :: "int \<Rightarrow> int \<Rightarrow> int option \<Rightarrow> bool" where
  [cron_defs]: "isInRange from to value = (case value of None \<Rightarrow> False | Some v \<Rightarrow> v \<ge> from \<and> v \<le> to)"

definition isFieldMatches :: "cron_expr \<Rightarrow> fld \<Rightarrow> int option \<Rightarrow> bool" where
  [cron_defs]: "isFieldMatches expr field timeValue =
     (let value = expr field in
      if f_all value then True
      else if f_omit value then field = SECOND \<and> timeValue = Some 0
      else if list_ex (\<lambda>v. timeValue = Some v) (opt_list (f_values value)) then True
      else list_ex (\<lambda>r. isInRange (r_from r) (r_to r) timeValue) (opt_list (f_ranges value)))"

definition isDayOfMonthMatches :: "settings \<Rightarrow> cron_expr \<Rightarrow> fld \<Rightarrow> datetime \<Rightarrow> bool res" where
  [cron_defs]: "isDayOfMonthMatches E expr field time =
     (let info = expr field in
      if f_omit info then Ok False
      else
        rbind (if f_lastWeekday info
               then rmap (\<lambda>d. \<not> differs (day time) d) (getLastWeekDay E time) else Ok False) (\<lambda>lw.
        if lw then Ok True else
        rbind (if f_lastDay info
               then rmap (\<lambda>d. \<not> differs (day time) d) (getLastDay E time None) else Ok False) (\<lambda>l.
        if l then Ok True else
        rbind (existsM (isNearestWeekDay E time) (opt_list (f_nearestWeekdays info))) (\<lambda>nw.
        if nw then Ok True else Ok (isFieldMatches expr field (day time))))))"

text \<open>\<open>days[n]\<close> for an index that may lie outside the array.\<close>

definition nth_matches :: "settings \<Rightarrow> datetime \<Rightarrow> nth_day \<Rightarrow> bool res" where
  [cron_defs]: "nth_matches E time nthDay =
     rmap (\<lambda>days. int (length days) > n_instance nthDay \<and>
             (case js_nth days (n_instance nthDay - 1) of None \<Rightarrow> False
              | Some d \<Rightarrow> \<not> differs d (day time)))
       (getDaysOfType E time (n_day_of_week nthDay))"

definition isDayOfWeekMatches :: "settings \<Rightarrow> cron_expr \<Rightarrow> fld \<Rightarrow> datetime \<Rightarrow> bool res" where
  [cron_defs]: "isDayOfWeekMatches E expr field time =
     (let info = expr field in
      if f_omit info then Ok False
      else if f_lastDay info \<and> getWeekDay time = Some DAY_SAT then Ok True
      else
        rbind (existsM (\<lambda>d. rmap (\<lambda>l. \<not> differs (day time) l) (getLastDay E time (Some d)))
          (opt_list (f_lastDays info))) (\<lambda>ld.
        if ld then Ok True else
        rbind (existsM (nth_matches E time) (opt_list (f_nthDays info))) (\<lambda>nth.
        if nth then Ok True else Ok (isFieldMatches expr field (getWeekDay time)))))"

definition time_field :: "fld \<Rightarrow> datetime \<Rightarrow> int option" where
  [cron_defs]: "time_field f time = (case f of SECOND \<Rightarrow> second time | MINUTE \<Rightarrow> minute time
     | HOUR \<Rightarrow> hour time | MONTH \<Rightarrow> month time | YEAR \<Rightarrow> year time | _ \<Rightarrow> None)"

definition isExprMatches :: "settings \<Rightarrow> cron_expr \<Rightarrow> datetime \<Rightarrow> bool res" where
  [cron_defs]: "isExprMatches E expr startTime =
     (if \<not> list_all (\<lambda>field. isFieldMatches expr field (time_field field startTime)) FIELDS_SANS_DAY_REVERSE
      then Ok False
      else rbind (isDayOfMonthMatches E expr DAY_OF_MONTH startTime) (\<lambda>b.
        if b then Ok True else isDayOfWeekMatches E expr DAY_OF_WEEK startTime))"

definition isExprsMatches :: "settings \<Rightarrow> cron_exprs \<Rightarrow> datetime \<Rightarrow> bool res" where
  [cron_defs]: "isExprsMatches E exprs time = existsM (\<lambda>expr. isExprMatches E expr time) (expressions exprs)"

end
