(* ===== verification/JsRegex.thy ===== *)
theory JsRegex
  imports JsString
begin

text \<open>
  The regular expressions the program matches: character classes with a bounded number of
  repetitions, words, sequences, alternatives, optional parts and numbered groups. The matcher is the
  backtracking one of the language standard, with a continuation: alternatives are tried from left to
  right, repetitions and optional parts greedily unless they are lazy, and the first way that lets the rest match wins.
\<close>

type_synonym groups = "nat \<Rightarrow> string option"

datatype rx =
    Cls "char \<Rightarrow> bool" nat nat
  | ClsLazy "char \<Rightarrow> bool" nat nat
  | Lit string
  | Cat rx rx
  | Alt rx rx
  | Opt rx
  | Grp nat rx

text \<open>From \<open>n\<close> characters down to \<open>mn\<close>.\<close>

fun try_down :: "(string \<Rightarrow> groups \<Rightarrow> 'a option) \<Rightarrow> string \<Rightarrow> groups \<Rightarrow> nat \<Rightarrow> nat \<Rightarrow> 'a option" where
  "try_down k s g mn n =
     (if n < mn then None
      else (case k (drop n s) g of Some r \<Rightarrow> Some r
        | None \<Rightarrow> (case n of 0 \<Rightarrow> None | Suc m \<Rightarrow> try_down k s g mn m)))"

declare try_down.simps [simp del]

text \<open>From \<open>n\<close> characters up, for a lazy repetition.\<close>

fun try_up :: "(string \<Rightarrow> groups \<Rightarrow> 'a option) \<Rightarrow> string \<Rightarrow> groups \<Rightarrow> nat \<Rightarrow> nat \<Rightarrow> 'a option" where
  "try_up k s g n 0 = None"
| "try_up k s g n (Suc m) = (case k (drop n s) g of Some r \<Rightarrow> Some r | None \<Rightarrow> try_up k s g (Suc n) m)"

text \<open>An optional part that would match no character does not match.\<close>

primrec rmatch :: "rx \<Rightarrow> string \<Rightarrow> groups \<Rightarrow> (string \<Rightarrow> groups \<Rightarrow> 'a option) \<Rightarrow> 'a option" where
  "rmatch (Cls p mn mx) s g k = try_down k s g mn (length (takeWhile p (take mx s)))"
| "rmatch (ClsLazy p mn mx) s g k = try_up k s g mn (Suc (length (takeWhile p (take mx s))) - mn)"
| "rmatch (Lit w) s g k = (if take (length w) s = w then k (drop (length w) s) g else None)"
| "rmatch (Cat r1 r2) s g k = rmatch r1 s g (\<lambda>s' g'. rmatch r2 s' g' k)"
| "rmatch (Alt r1 r2) s g k = (case rmatch r1 s g k of Some v \<Rightarrow> Some v | None \<Rightarrow> rmatch r2 s g k)"
| "rmatch (Opt r) s g k =
     (case rmatch r s g (\<lambda>s' g'. if length s' < length s then k s' g' else None) of
        Some v \<Rightarrow> Some v | None \<Rightarrow> k s g)"
| "rmatch (Grp i r) s g k = rmatch r s g (\<lambda>s' g'. k s' (g'(i := Some (take (length s - length s') s))))"

text \<open>\<open>RegExp("^" + r + "$").exec(s)\<close>: the groups of the match; group 0 is the whole text.\<close>

definition exec_full :: "rx \<Rightarrow> string \<Rightarrow> groups option" where
  [js_defs]: "exec_full r s = rmatch r s [0 \<mapsto> s] (\<lambda>s' g. if s' = [] then Some g else None)"

fun seq :: "rx list \<Rightarrow> rx" where
  "seq [] = Lit []"
| "seq [r] = r"
| "seq (r # rs) = Cat r (seq rs)"

fun words :: "string list \<Rightarrow> rx" where
  "words [] = Cls (\<lambda>_. False) 1 1"
| "words [w] = Lit w"
| "words (w # ws) = Alt (Lit w) (words ws)"

definition digits :: "nat \<Rightarrow> nat \<Rightarrow> rx" where
  [js_defs]: "digits mn mx = Cls is_digit mn mx"

abbreviation one_of :: "string \<Rightarrow> rx" where
  "one_of cs \<equiv> Cls (\<lambda>c. c \<in> set cs) 1 1"

abbreviation maybe :: "char \<Rightarrow> rx" where
  "maybe c \<equiv> Opt (Lit [c])"

subsection \<open>Facts for evaluation\<close>

lemma try_down_exact [simp]:
  "try_down k s g n n = (case k (drop n s) g of Some r \<Rightarrow> Some r | None \<Rightarrow> None)"
  by (cases n) (auto simp: try_down.simps [of k s g "Suc m" "Suc m" for m] try_down.simps [of k s g 0 0]
      try_down.simps [of k s g "Suc m" m for m] split: option.split)

lemma try_down_less [simp]: "n < mn \<Longrightarrow> try_down k s g mn n = None"
  by (simp add: try_down.simps)

lemma option_case_id [simp]: "(case x of None \<Rightarrow> None | Some r \<Rightarrow> Some r) = x"
  by (cases x) auto

text \<open>A fixed number of characters of a class.\<close>

lemma rmatch_exact:
  "rmatch (Cls p n n) s g k =
     (if length (take n s) = n \<and> list_all p (take n s) then k (drop n s) g else None)"
proof (cases "length (take n s) = n \<and> list_all p (take n s)")
  case True
  then have "length (takeWhile p (take n s)) = n" by (simp add: list_all_iff takeWhile_all)
  with True show ?thesis by simp
next
  case False
  have le: "length (takeWhile p (take n s)) \<le> n"
    using length_takeWhile_le [of p "take n s"] by simp
  have "length (takeWhile p (take n s)) \<noteq> n"
  proof
    assume eq: "length (takeWhile p (take n s)) = n"
    then have "length (take n s) = n" using length_takeWhile_le [of p "take n s"] by simp
    with eq have "takeWhile p (take n s) = take n s"
      by (metis takeWhile_eq_take take_all order_refl)
    then have "list_all p (take n s)" by (metis list_all_iff set_takeWhileD)
    with \<open>length (take n s) = n\<close> False show False by simp
  qed
  with le have "length (takeWhile p (take n s)) < n" by simp
  with False show ?thesis by auto
qed

end
