(* ===== verification/LuxonISO.thy ===== *)
theory LuxonISO
  imports LuxonDateTime JsRegex
begin

text \<open>
  The parsers of well-specified formats of the date library: a regular expression and an extractor
  for each, tried in sequence. An extractor reads the groups of a match from a cursor on; the result
  of a parser is an object of units and the zone the text names, or nothing.
\<close>

text \<open>A text that may be \<open>null\<close>, as the operator + reads it.\<close>

definition str_or_null :: "string option \<Rightarrow> string" where
  [luxon_defs]: "str_or_null s = (case s of None \<Rightarrow> ''null'' | Some t \<Rightarrow> t)"

type_synonym 'n fields = "(string \<times> 'n uval) list"

type_synonym extractor = "groups \<Rightarrow> nat \<Rightarrow> int fields \<times> zone option \<times> nat"

subsection \<open>Combinators\<close>

definition extends :: "'n fields \<Rightarrow> 'n fields \<Rightarrow> 'n fields" where
  [luxon_defs]: "extends a b = fold (\<lambda>(k, v) r. AList.update k v r) b a"

definition combineExtractors :: "extractor list \<Rightarrow> groups \<Rightarrow> int fields \<times> zone option" where
  [luxon_defs]: "combineExtractors extractors m =
     (let (vals, zone, _) = fold (\<lambda>ex (mergedVals, mergedZone, cursor).
        let (val, zone, next) = ex m cursor in
        (extends mergedVals val, (case zone of None \<Rightarrow> mergedZone | z \<Rightarrow> z), next))
        extractors ([], None, 1)
      in (vals, zone))"

fun parse_with :: "string \<Rightarrow> (rx \<times> (groups \<Rightarrow> 'r)) list \<Rightarrow> 'r option" where
  "parse_with s [] = None"
| "parse_with s ((regex, extractor) # patterns) =
     (case exec_full regex s of Some m \<Rightarrow> Some (extractor m) | None \<Rightarrow> parse_with s patterns)"

definition simpleParse :: "string list \<Rightarrow> extractor" where
  [luxon_defs]: "simpleParse ks m cursor =
     (map (\<lambda>(i, k). (k, parseInteger (m (cursor + i)))) (zip [0..<length ks] ks), None,
      cursor + length ks)"

definition group_int :: "groups \<Rightarrow> nat \<Rightarrow> int uval \<Rightarrow> int uval" where
  [luxon_defs]: "group_int m pos fallback = (case m pos of None \<Rightarrow> fallback | s \<Rightarrow> parseInteger s)"

subsection \<open>ISO and SQL dates\<close>

text \<open>The expressions take the number of the first group they bind.\<close>

definition sign_class :: rx where
  [luxon_defs]: "sign_class = one_of ''+-''"

definition offsetRegex :: "nat \<Rightarrow> rx" where
  [luxon_defs]: "offsetRegex n = Alt (Grp n (Lit ''Z''))
     (Cat (Grp (n + 1) (Cat sign_class (digits 2 2)))
       (Opt (Cat (maybe (CHR '':'')) (Grp (n + 2) (digits 2 2)))))"

definition iana_char :: "char \<Rightarrow> bool" where
  [luxon_defs]: "iana_char c = (65 \<le> code c \<and> code c \<le> 90 \<or> 97 \<le> code c \<and> code c \<le> 122 \<or>
     c \<in> {CHR ''_'', CHR ''+'', CHR ''-''})"

definition ianaRegex :: rx where
  [luxon_defs]: "ianaRegex = Cat (Cls iana_char 1 256)
     (Opt (seq [maybe (CHR '':''), Lit ''/'', Cls (\<lambda>c. iana_char c \<or> is_digit c) 1 256,
       Opt (Cat (Lit ''/'') (Cls (\<lambda>c. iana_char c \<or> is_digit c) 1 256))]))"

definition isoExtendedZone :: "nat \<Rightarrow> rx" where
  [luxon_defs]: "isoExtendedZone n = Opt (Cat (Opt (offsetRegex n))
     (Opt (seq [Lit ''['', Grp (n + 3) ianaRegex, Lit '']''])))"

definition isoTimeBaseRegex :: "nat \<Rightarrow> rx" where
  [luxon_defs]: "isoTimeBaseRegex n = Cat (Grp n (digits 2 2))
     (Opt (seq [maybe (CHR '':''), Grp (n + 1) (digits 2 2),
       Opt (seq [maybe (CHR '':''), Grp (n + 2) (digits 2 2),
         Opt (Cat (one_of ''.,'') (Grp (n + 3) (digits 1 30)))])]))"

definition isoTimeRegex :: "nat \<Rightarrow> rx" where
  [luxon_defs]: "isoTimeRegex n = Cat (isoTimeBaseRegex n) (isoExtendedZone (n + 4))"

definition isoTimeExtensionRegex :: "nat \<Rightarrow> rx" where
  [luxon_defs]: "isoTimeExtensionRegex n = Opt (Cat (Lit ''T'') (isoTimeRegex n))"

definition isoYmdRegex :: rx where
  [luxon_defs]: "isoYmdRegex = Cat (Grp 1 (Alt (Cat sign_class (digits 6 6)) (digits 4 4)))
     (Opt (seq [maybe (CHR ''-''), Grp 2 (digits 2 2),
       Opt (Cat (maybe (CHR ''-'')) (Grp 3 (digits 2 2)))]))"

definition isoWeekRegex :: rx where
  [luxon_defs]: "isoWeekRegex = seq [Grp 1 (digits 4 4), maybe (CHR ''-''), Lit ''W'', Grp 2 (digits 2 2),
     Opt (Cat (maybe (CHR ''-'')) (Grp 3 (digits 1 1)))]"

definition isoOrdinalRegex :: rx where
  [luxon_defs]: "isoOrdinalRegex = seq [Grp 1 (digits 4 4), maybe (CHR ''-''), Grp 2 (digits 3 3)]"

definition extractISOWeekData :: extractor where
  [luxon_defs]: "extractISOWeekData = simpleParse [''weekYear'', ''weekNumber'', ''weekDay'']"

definition extractISOOrdinalData :: extractor where
  [luxon_defs]: "extractISOOrdinalData = simpleParse [''year'', ''ordinal'']"

definition sqlYmdRegex :: rx where
  [luxon_defs]: "sqlYmdRegex = seq [Grp 1 (digits 4 4), Lit ''-'', Grp 2 (digits 2 2), Lit ''-'',
     Grp 3 (digits 2 2)]"

definition sqlTimeRegex :: "nat \<Rightarrow> rx" where
  [luxon_defs]: "sqlTimeRegex n = seq [isoTimeBaseRegex n, maybe (CHR '' ''),
     Opt (Alt (offsetRegex (n + 4)) (Grp (n + 7) ianaRegex))]"

definition sqlTimeExtensionRegex :: "nat \<Rightarrow> rx" where
  [luxon_defs]: "sqlTimeExtensionRegex n = Opt (Cat (Lit '' '') (sqlTimeRegex n))"

definition extractISOYmd :: extractor where
  [luxon_defs]: "extractISOYmd m cursor =
     ([(''year'', group_int m cursor VUndefined), (''month'', group_int m (cursor + 1) (VNum 1)),
       (''day'', group_int m (cursor + 2) (VNum 1))], None, cursor + 3)"

definition extractISOTime :: extractor where
  [luxon_defs]: "extractISOTime m cursor =
     ([(''hours'', group_int m cursor (VNum 0)), (''minutes'', group_int m (cursor + 1) (VNum 0)),
       (''seconds'', group_int m (cursor + 2) (VNum 0)),
       (''milliseconds'', parseMillis (m (cursor + 3)))], None, cursor + 4)"

definition extractISOOffset :: extractor where
  [luxon_defs]: "extractISOOffset m cursor =
     (let local = (m cursor = None \<and> m (cursor + 1) = None);
          fullOffset = signedOffset (m (cursor + 1)) (m (cursor + 2));
          zone = (if local then None else Some (FixedOffsetZone_instance (of_int fullOffset)))
      in ([], zone, cursor + 3))"

definition extractIANAZone :: "settings \<Rightarrow> extractor" where
  [luxon_defs]: "extractIANAZone E m cursor =
     ([], map_option (IANAZone_create E) (m cursor), cursor + 1)"

definition isoTimeOnly :: rx where
  [luxon_defs]: "isoTimeOnly = Cat (maybe (CHR ''T'')) (isoTimeBaseRegex 1)"

definition parseISODate :: "settings \<Rightarrow> string \<Rightarrow> (int fields \<times> zone option) option" where
  [luxon_defs]: "parseISODate E s = parse_with s
     [(Cat isoYmdRegex (isoTimeExtensionRegex 4),
         combineExtractors [extractISOYmd, extractISOTime, extractISOOffset, extractIANAZone E]),
      (Cat isoWeekRegex (isoTimeExtensionRegex 4),
         combineExtractors [extractISOWeekData, extractISOTime, extractISOOffset, extractIANAZone E]),
      (Cat isoOrdinalRegex (isoTimeExtensionRegex 3),
         combineExtractors [extractISOOrdinalData, extractISOTime, extractISOOffset, extractIANAZone E]),
      (isoTimeRegex 1, combineExtractors [extractISOTime, extractISOOffset, extractIANAZone E])]"

definition parseISOTimeOnly :: "string \<Rightarrow> int fields option" where
  [luxon_defs]: "parseISOTimeOnly s =
     map_option fst (parse_with s [(isoTimeOnly, combineExtractors [extractISOTime])])"

definition parseSQL :: "settings \<Rightarrow> string \<Rightarrow> (int fields \<times> zone option) option" where
  [luxon_defs]: "parseSQL E s = parse_with s
     [(Cat sqlYmdRegex (sqlTimeExtensionRegex 4),
         combineExtractors [extractISOYmd, extractISOTime, extractISOOffset, extractIANAZone E]),
      (sqlTimeRegex 1, combineExtractors [extractISOTime, extractISOOffset, extractIANAZone E])]"

text \<open>\<open>DateTime.fromISO\<close> and \<open>DateTime.fromSQL\<close>.\<close>

definition from_parsed :: "settings \<Rightarrow> (int fields \<times> zone option) option \<Rightarrow> from_opts \<Rightarrow> string \<Rightarrow>
  string \<Rightarrow> datetime res" where
  [luxon_defs]: "from_parsed E parsed opts format txt =
     parseDataToDateTime E (map_option fst parsed) (Option.bind parsed snd) opts format txt None"

definition fromISO :: "settings \<Rightarrow> string \<Rightarrow> from_opts \<Rightarrow> datetime res" where
  [luxon_defs]: "fromISO E txt opts = from_parsed E (parseISODate E txt) opts ''ISO 8601'' txt"

definition fromSQL :: "settings \<Rightarrow> string \<Rightarrow> from_opts \<Rightarrow> datetime res" where
  [luxon_defs]: "fromSQL E txt opts = from_parsed E (parseSQL E txt) opts ''SQL'' txt"

subsection \<open>ISO durations\<close>

text \<open>The optional sign, the digits before the point and those after it, of a text \<open>parseFloat\<close> reads
  (the expressions below let no exponent through).\<close>

definition parseFloating :: "string option \<Rightarrow> rat uval" where
  [luxon_defs]: "parseFloating s = (case s of None \<Rightarrow> VUndefined
     | Some t \<Rightarrow> if t = [] then VUndefined
       else let neg = (hd t = CHR ''-''); u = (if hd t \<in> {CHR ''-'', CHR ''+''} then tl t else t);
                whole = takeWhile is_digit u; rest = dropWhile is_digit u;
                part = (if rest \<noteq> [] \<and> hd rest = CHR ''.'' then takeWhile is_digit (tl rest) else [])
            in if whole = [] \<and> part = [] then VNaN
               else let v = of_nat (digits_val 0 whole) +
                      (of_nat (digits_val 0 part) / 10 ^ length part :: rat)
                    in VNum (if neg then - v else v))"

definition minus_digits :: rx where
  [luxon_defs]: "minus_digits = Cat (maybe (CHR ''-'')) (digits 1 20)"

definition duration_part :: "nat \<Rightarrow> char \<Rightarrow> rx" where
  [luxon_defs]: "duration_part n c = Opt (Cat (Grp n (Cat minus_digits
     (Opt (Cat (Lit ''.'') (digits 1 20))))) (Lit [c]))"

definition isoDuration :: rx where
  [luxon_defs]: "isoDuration = seq [maybe (CHR ''-''), Lit ''P'', duration_part 1 (CHR ''Y''),
     duration_part 2 (CHR ''M''), duration_part 3 (CHR ''W''), duration_part 4 (CHR ''D''),
     Opt (seq [Lit ''T'', duration_part 5 (CHR ''H''), duration_part 6 (CHR ''M''),
       Opt (seq [Grp 7 minus_digits, Opt (Cat (one_of ''.,'') (Grp 8 minus_digits)), Lit ''S''])])]"

definition maybeNegate :: "bool \<Rightarrow> rat uval \<Rightarrow> bool \<Rightarrow> rat uval" where
  [luxon_defs]: "maybeNegate hasNegativePrefix num force = (case num of
       VNum v \<Rightarrow> if force \<or> v \<noteq> 0 \<and> hasNegativePrefix then VNum (- v) else num
     | _ \<Rightarrow> num)"

definition rat_uval :: "int uval \<Rightarrow> rat uval" where
  [luxon_defs]: "rat_uval v = (case v of VUndefined \<Rightarrow> VUndefined | VNull \<Rightarrow> VNull | VBool b \<Rightarrow> VBool b
     | VNaN \<Rightarrow> VNaN | VNum n \<Rightarrow> VNum (of_int n))"

definition extractISODuration :: "groups \<Rightarrow> rat fields" where
  [luxon_defs]: "extractISODuration m =
     (let s = (case m 0 of Some s \<Rightarrow> s | None \<Rightarrow> []);
          hasNegativePrefix = (s \<noteq> [] \<and> hd s = CHR ''-'');
          negativeSeconds = (case m 7 of Some t \<Rightarrow> t \<noteq> [] \<and> hd t = CHR ''-'' | None \<Rightarrow> False);
          part = (\<lambda>i. maybeNegate hasNegativePrefix (parseFloating (m i)) False)
      in [(''years'', part 1), (''months'', part 2), (''weeks'', part 3), (''days'', part 4),
          (''hours'', part 5), (''minutes'', part 6),
          (''seconds'', maybeNegate hasNegativePrefix (parseFloating (m 7)) (m 7 = Some ''-0'')),
          (''milliseconds'',
             maybeNegate hasNegativePrefix (rat_uval (parseMillis (m 8))) negativeSeconds)])"

definition parseISODuration :: "string \<Rightarrow> rat fields option" where
  [luxon_defs]: "parseISODuration s = parse_with s [(isoDuration, extractISODuration)]"

definition unparsable_ISO :: "string \<Rightarrow> invalid" where
  [luxon_defs]: "unparsable_ISO txt = Invalid ''unparsable''
     (Some (''the input \"'' @ txt @ ''\" can't be parsed as ISO 8601''))"

definition Duration_fromISO :: "settings \<Rightarrow> string \<Rightarrow> locale_opts \<Rightarrow> bool \<Rightarrow> duration res" where
  [luxon_defs]: "Duration_fromISO E txt opts longterm = (case parseISODuration txt of
       Some parsed \<Rightarrow> Duration_fromObject E parsed opts longterm
     | None \<Rightarrow> Duration_invalid E (unparsable_ISO txt))"

definition Duration_fromISOTime :: "settings \<Rightarrow> string \<Rightarrow> locale_opts \<Rightarrow> bool \<Rightarrow> duration res" where
  [luxon_defs]: "Duration_fromISOTime E txt opts longterm = (case parseISOTimeOnly txt of
       Some parsed \<Rightarrow> Duration_fromObject E (map (\<lambda>(k, v). (k, rat_uval v)) parsed) opts longterm
     | None \<Rightarrow> Duration_invalid E (unparsable_ISO txt))"

subsection \<open>Dates of mail and HTTP headers\<close>

text \<open>An offset name outside the table (\<open>UT\<close>) has no offset: \<open>None\<close> is \<open>undefined\<close>.\<close>

definition obsOffsets :: "(string \<times> int) list" where
  [luxon_defs]: "obsOffsets = [(''GMT'', 0), (''EDT'', -4 * 60), (''EST'', -5 * 60), (''CDT'', -5 * 60),
     (''CST'', -6 * 60), (''MDT'', -6 * 60), (''MST'', -7 * 60), (''PDT'', -7 * 60), (''PST'', -8 * 60)]"

definition index_of :: "string list \<Rightarrow> string \<Rightarrow> int" where
  [luxon_defs]: "index_of ws w = findIndex (\<lambda>x. x = w) ws 0"

definition fromStrings :: "string option \<Rightarrow> string option \<Rightarrow> string option \<Rightarrow> string option \<Rightarrow>
  string option \<Rightarrow> string option \<Rightarrow> string option \<Rightarrow> int fields" where
  [luxon_defs]: "fromStrings weekdayStr yearStr monthStr dayStr hourStr minuteStr secondStr =
     (let year = (case parseInteger yearStr of
            VNum y \<Rightarrow> if map_option length yearStr = Some 2 then VNum (untruncateYear y) else VNum y
          | v \<Rightarrow> v)
      in [(''year'', year),
          (''month'', VNum (case monthStr of Some w \<Rightarrow> index_of monthsShort w + 1 | None \<Rightarrow> 0)),
          (''day'', parseInteger dayStr), (''hour'', parseInteger hourStr),
          (''minute'', parseInteger minuteStr)] @
         (if secondStr \<noteq> None \<and> secondStr \<noteq> Some [] then [(''second'', parseInteger secondStr)] else []) @
         (case weekdayStr of None \<Rightarrow> []
          | Some w \<Rightarrow> if w = [] then [] else
              [(''weekday'', VNum (if length w > 3 then index_of weekdaysLong w + 1
                 else index_of weekdaysShort w + 1))]))"

definition space_class :: rx where
  [luxon_defs]: "space_class = Cls is_space 1 1"

definition rfc2822 :: rx where
  [luxon_defs]: "rfc2822 = seq
     [Opt (seq [Grp 1 (words weekdaysShort), Lit '','', space_class]), Grp 2 (digits 1 2), space_class,
      Grp 3 (words monthsShort), space_class, Grp 4 (digits 2 4), space_class, Grp 5 (digits 2 2),
      Lit '':'', Grp 6 (digits 2 2), Opt (Cat (Lit '':'') (Grp 7 (digits 2 2))), space_class,
      Alt (Grp 8 (Alt (Lit ''UT'') (Alt (Lit ''GMT'') (seq [one_of ''ECMP'', one_of ''SD'', Lit ''T'']))))
        (Alt (Grp 9 (one_of ''Zz''))
          (Cat (Grp 10 (Cat sign_class (digits 2 2))) (Grp 11 (digits 2 2))))]"

definition extractRFC2822 :: "groups \<Rightarrow> int fields \<times> int option" where
  [luxon_defs]: "extractRFC2822 m =
     (fromStrings (m 1) (m 4) (m 3) (m 2) (m 5) (m 6) (m 7),
      (case m 8 of Some obsOffset \<Rightarrow> map_of obsOffsets obsOffset
       | None \<Rightarrow> if m 9 \<noteq> None then Some 0 else Some (signedOffset (m 10) (m 11))))"

text \<open>Comments, line breaks and tabs become a space, then every run of white space of length two or
  more.\<close>

function drop_comments :: "string \<Rightarrow> string" where
  "drop_comments [] = []"
| "drop_comments (c # cs) =
     (if c = CHR ''('' \<and> CHR '')'' \<in> set cs
      then CHR '' '' # drop_comments (tl (dropWhile (\<lambda>x. x \<noteq> CHR '')'') cs))
      else (if c = CHR 0x0A \<or> c = CHR 0x09 then CHR '' '' else c) # drop_comments cs)"
  by pat_completeness auto

lemma length_tl_dropWhile: "length (tl (dropWhile P cs)) \<le> length cs"
  using length_dropWhile_le [of P cs] by simp

termination drop_comments
  by (relation "measure length") (auto simp: less_Suc_eq_le length_tl_dropWhile [simplified])

function collapse_spaces :: "string \<Rightarrow> string" where
  "collapse_spaces [] = []"
| "collapse_spaces (c # cs) =
     (if is_space c \<and> cs \<noteq> [] \<and> is_space (hd cs)
      then CHR '' '' # collapse_spaces (dropWhile is_space cs)
      else c # collapse_spaces cs)"
  by pat_completeness auto

termination collapse_spaces
  by (relation "measure length") (auto simp: less_Suc_eq_le length_dropWhile_le)

definition preprocessRFC2822 :: "string \<Rightarrow> string" where
  [luxon_defs]: "preprocessRFC2822 s = trim (collapse_spaces (drop_comments s))"

definition parseRFC2822Date :: "string \<Rightarrow> (int fields \<times> int option) option" where
  [luxon_defs]: "parseRFC2822Date s = parse_with (preprocessRFC2822 s) [(rfc2822, extractRFC2822)]"

definition clock_regex :: "nat \<Rightarrow> rx" where
  [luxon_defs]: "clock_regex n = seq [Grp n (digits 2 2), Lit '':'', Grp (n + 1) (digits 2 2), Lit '':'',
     Grp (n + 2) (digits 2 2)]"

definition rfc1123 :: rx where
  [luxon_defs]: "rfc1123 = seq [Grp 1 (words weekdaysShort), Lit '', '', Grp 2 (digits 2 2), Lit '' '',
     Grp 3 (words monthsShort), Lit '' '', Grp 4 (digits 4 4), Lit '' '', clock_regex 5, Lit '' GMT'']"

definition rfc850 :: rx where
  [luxon_defs]: "rfc850 = seq [Grp 1 (words weekdaysLong), Lit '', '', Grp 2 (digits 2 2), Lit ''-'',
     Grp 3 (words monthsShort), Lit ''-'', Grp 4 (digits 2 2), Lit '' '', clock_regex 5, Lit '' GMT'']"

definition ascii_date :: rx where
  [luxon_defs]: "ascii_date = seq [Grp 1 (words weekdaysShort), Lit '' '', Grp 2 (words monthsShort), Lit '' '',
     Grp 3 (Alt (Cat (Lit '' '') (digits 1 1)) (digits 2 2)), Lit '' '', clock_regex 4, Lit '' '',
     Grp 7 (digits 4 4)]"

definition extractRFC1123Or850 :: "groups \<Rightarrow> int fields \<times> zone option" where
  [luxon_defs]: "extractRFC1123Or850 m =
     (fromStrings (m 1) (m 4) (m 3) (m 2) (m 5) (m 6) (m 7), Some utcInstance)"

definition extractASCII :: "groups \<Rightarrow> int fields \<times> zone option" where
  [luxon_defs]: "extractASCII m =
     (fromStrings (m 1) (m 7) (m 2) (m 3) (m 4) (m 5) (m 6), Some utcInstance)"

definition parseHTTPDate :: "string \<Rightarrow> (int fields \<times> zone option) option" where
  [luxon_defs]: "parseHTTPDate s = parse_with s
     [(rfc1123, extractRFC1123Or850), (rfc850, extractRFC1123Or850), (ascii_date, extractASCII)]"

text \<open>The code passes the options where the text is meant.\<close>

definition fromHTTP :: "settings \<Rightarrow> string \<Rightarrow> from_opts \<Rightarrow> datetime res" where
  [luxon_defs]: "fromHTTP E txt opts = from_parsed E (parseHTTPDate txt) opts ''HTTP'' ''[object Object]''"

text \<open>The zone \<open>UT\<close> has no entry in the table, so its offset is undefined; what the code makes of such
  a zone is not modelled (\<open>None\<close>).\<close>

definition fromRFC2822 :: "settings \<Rightarrow> string \<Rightarrow> from_opts \<Rightarrow> datetime res option" where
  [luxon_defs]: "fromRFC2822 E txt opts = (case parseRFC2822Date txt of
       None \<Rightarrow> Some (from_parsed E None opts ''RFC 2822'' txt)
     | Some (vals, None) \<Rightarrow> None
     | Some (vals, Some off) \<Rightarrow>
         Some (from_parsed E (Some (vals, Some (FixedOffsetZone (of_int off)))) opts ''RFC 2822'' txt))"

end
