(* ===== verification/CronApi.thy ===== *)
theory CronApi
  imports CronMatcher LuxonISO
begin

text \<open>
  The interface of the matcher of \<open>ui/js/bundle.js\<close> (module 3): \<open>getFutureMatches\<close> and
  \<open>isTimeMatches\<close>, with the loop that reads the series of times.
\<close>

definition MAX_LOOP_COUNT :: int where
  [cron_defs]: "MAX_LOOP_COUNT = 100000"

text \<open>The options; an absent property is \<open>None\<close> (the flag: \<open>False\<close>). The validator gets the text of a
  time, which is \<open>null\<close> for an invalid one.\<close>

record match_options =
  mo_timezone :: "string option"
  mo_startAt :: "string option"
  mo_endAt :: "string option"
  mo_matchCount :: "int option"
  mo_maxLoopCount :: "int option"
  mo_hasSeconds :: opt_value
  mo_formatInTimezone :: bool
  mo_matchValidator :: "(string option \<Rightarrow> bool) option"

definition no_options :: match_options where
  [cron_defs]: "no_options = \<lparr>mo_timezone = None, mo_startAt = None, mo_endAt = None, mo_matchCount = None,
     mo_maxLoopCount = None, mo_hasSeconds = OUndefined, mo_formatInTimezone = False,
     mo_matchValidator = None\<rparr>"

datatype cron_input = CText string | CExprs cron_exprs

text \<open>\<open>x || d\<close> for strings and numbers.\<close>

definition text_or :: "string option \<Rightarrow> string \<Rightarrow> string" where
  [cron_defs]: "text_or x d = (case x of None \<Rightarrow> d | Some s \<Rightarrow> if s = [] then d else s)"

definition int_or :: "int option \<Rightarrow> int \<Rightarrow> int" where
  [cron_defs]: "int_or x d = (case x of None \<Rightarrow> d | Some n \<Rightarrow> if n = 0 then d else n)"

definition matcher_iso :: "bool \<Rightarrow> iso_opts" where
  [cron_defs]: "matcher_iso includeOffset =
     iso_defaults\<lparr>io_suppressMilliseconds := True, io_includeOffset := includeOffset\<rparr>"

definition getOutputTime :: "settings \<Rightarrow> datetime \<Rightarrow> bool \<Rightarrow> string option res" where
  [cron_defs]: "getOutputTime E newTime formatInTimezone =
     (if formatInTimezone then Ok (toISO E newTime (matcher_iso True))
      else rbind (setZone E newTime (ZString TZ_UTC) False) (\<lambda>t.
        Ok (Some ((case toISO E t (matcher_iso False) of None \<Rightarrow> ''null'' | Some s \<Rightarrow> s) @ ''Z''))))"

text \<open>\<open>new Date().toISOString()\<close>, in universal time with milliseconds.\<close>

definition toISOString :: "int \<Rightarrow> string" where
  [cron_defs]: "toISOString t = (let c = cal_of_ms t in
     toISODate_cal c True @ ''T'' @ toISOTime_clock c iso_defaults @ ''Z'')"

text \<open>One round of the loop on a time the series yields. The state is the count of rounds and the
  texts found; the loop stops before it asks the series for a time when the count is reached.\<close>

type_synonym future = "int \<times> string option list"

definition next_round :: "int \<Rightarrow> future \<Rightarrow> future ctl" where
  [cron_defs]: "next_round maxLoopCount s = (if fst s < maxLoopCount then Next s else Stop s)"

definition future_body :: "settings \<Rightarrow> cron_exprs \<Rightarrow> datetime \<Rightarrow> datetime option \<Rightarrow> int \<Rightarrow> int \<Rightarrow>
  match_options \<Rightarrow> future consumer" where
  [cron_defs]: "future_body E cronExprs startTime endTime count maxLoopCount options newTime s =
     (let loopCount = fst s + 1; nextTimes = snd s in
      if (case endTime of None \<Rightarrow> False | Some e \<Rightarrow> nle (toMillis e) (toMillis newTime))
      then Ok (Stop (loopCount, nextTimes))
      else if nless (toMillis newTime) (toMillis startTime)
      then Ok (next_round maxLoopCount (loopCount, nextTimes))
      else rbind (isExprsMatches E cronExprs newTime) (\<lambda>matches.
           rbind (if matches
             then rmap (\<lambda>time. if (case mo_matchValidator options of None \<Rightarrow> True | Some valid \<Rightarrow> valid time)
                  then nextTimes @ [time] else nextTimes)
               (getOutputTime E newTime (mo_formatInTimezone options))
             else Ok nextTimes) (\<lambda>nextTimes'.
           Ok (if int (length nextTimes') \<ge> count then Stop (loopCount, nextTimes')
               else next_round maxLoopCount (loopCount, nextTimes')))))"

definition parse_input :: "cron_input \<Rightarrow> opt_value \<Rightarrow> cron_exprs res" where
  [cron_defs]: "parse_input expr hasSeconds = (case expr of CText s \<Rightarrow> parse s hasSeconds | CExprs es \<Rightarrow> Ok es)"

definition from_zone :: "string option \<Rightarrow> from_opts" where
  [cron_defs]: "from_zone timezone = no_from_opts\<lparr>fo_zone := ZString (text_or timezone TZ_UTC)\<rparr>"

definition getFutureMatches :: "settings \<Rightarrow> cron_input \<Rightarrow> match_options \<Rightarrow> string option list res" where
  [cron_defs]: "getFutureMatches E expr options =
     (let dtoptions = from_zone (mo_timezone options);
          count = int_or (mo_matchCount options) 5;
          maxLoopCount = int_or (mo_maxLoopCount options) MAX_LOOP_COUNT in
      rbind (fromISO E (text_or (mo_startAt options) (toISOString (st_now E))) dtoptions) (\<lambda>startTime.
      rbind (case mo_endAt options of None \<Rightarrow> Ok None
             | Some e \<Rightarrow> if e = [] then Ok None else rmap Some (fromISO E e dtoptions)) (\<lambda>endTime.
      rbind (parse_input expr (mo_hasSeconds options)) (\<lambda>parsed.
      rbind (simplifyExprs parsed) (\<lambda>cronExprs.
      if maxLoopCount \<le> 0 then Ok []
      else rmap snd (getTimeSeries E cronExprs startTime
             (future_body E cronExprs startTime endTime count maxLoopCount options) (0, [])))))))"

definition isTimeMatches :: "settings \<Rightarrow> cron_input \<Rightarrow> string \<Rightarrow> string option \<Rightarrow> bool res" where
  [cron_defs]: "isTimeMatches E exprs time timezone =
     rbind (parse_input exprs OUndefined) (\<lambda>parsed.
     rbind (simplifyExprs parsed) (\<lambda>cronExprs.
     rbind (fromISO E time (from_zone timezone)) (\<lambda>startTime.
     isExprsMatches E cronExprs startTime)))"

end
