(* ===== verification/JobPage.thy ===== *)
theory JobPage
  imports CronApi
begin

text \<open>
  The page of the jobs (\<open>ui/js/job_list.js\<close>): the texts of the cells of the table, and the handlers of
  the buttons and of the edit form. The page is a record; what jQuery reads and writes (the inputs, the
  class of an input, the table) are its fields. A request to the server goes into a list in the order
  it is made, and the answer of the server is a later event, because the calls are asynchronous.
\<close>

subsection \<open>Rows and cells\<close>

record job_row =
  r_jobId :: string
  r_name :: string
  r_description :: string
  r_execType :: int
  r_cron :: string
  r_execAt :: string
  r_lastExecTime :: "string option"
  r_state :: int

definition TimingExecute :: int where [js_defs]: "TimingExecute = 0"
definition Runnable :: int where [js_defs]: "Runnable = 1"

definition div_text :: "string \<Rightarrow> string" where
  [js_defs]: "div_text s = ''<div>'' @ s @ ''</div>''"

definition execType_cell :: "int \<Rightarrow> string" where
  [js_defs]: "execType_cell v = div_text (if v = TimingExecute then ''Timing'' else ''Delay'')"

definition lastExecTime_cell :: "string option \<Rightarrow> string" where
  [js_defs]: "lastExecTime_cell v = div_text (case v of None \<Rightarrow> ''never'' | Some s \<Rightarrow> s)"

text \<open>The text of \<open>minutes / 60\<close>, for a number of minutes that is a multiple of 15.\<close>

definition hours_text :: "int \<Rightarrow> string" where
  [js_defs]: "hours_text minutes =
     (let a = \<bar>minutes\<bar>; q = a mod 60 div 15 in
      (if minutes < 0 then ''-'' else []) @ show_int (a div 60) @
      (if q = 0 then [] else if q = 1 then ''.25'' else if q = 2 then ''.5'' else ''.75''))"

text \<open>\<open>'UTC+' + (0 - new Date().getTimezoneOffset() / 60)\<close>; the argument is what
  \<open>getTimezoneOffset\<close> returns, the minutes from local time to universal time.\<close>

definition page_timezone :: "int \<Rightarrow> string" where
  [js_defs]: "page_timezone timezoneOffset = ''UTC+'' @ hours_text (0 - timezoneOffset)"

definition page_options :: "int \<Rightarrow> match_options" where
  [js_defs]: "page_options timezoneOffset = no_options\<lparr>mo_timezone := Some (page_timezone timezoneOffset),
     mo_matchCount := Some 5, mo_hasSeconds := OBool True, mo_formatInTimezone := True\<rparr>"

text \<open>\<open>local\<close> is \<open>new Date(text).toLocaleString()\<close>, which depends on the locale of the browser.
  \<open>startAt: 0\<close> is falsy: the matcher starts now.\<close>

definition nextExecTime_cell :: "settings \<Rightarrow> int \<Rightarrow> (string option \<Rightarrow> string) \<Rightarrow> job_row \<Rightarrow> string res" where
  [js_defs]: "nextExecTime_cell E timezoneOffset local row =
     (if r_execType row = TimingExecute
      then (case getFutureMatches E (CText (r_cron row)) (page_options timezoneOffset) of
          Ok [] \<Rightarrow> Ok (div_text ''never'')
        | Ok (t # _) \<Rightarrow> Ok (div_text (local t))
        | Throw _ \<Rightarrow> Ok (div_text '' invalid cron'')
        | Hang \<Rightarrow> Hang)
      else Ok (div_text (r_execAt row)))"

text \<open>The switch of a row is checked when the row is rendered with the state \<open>Runnable\<close>.\<close>

definition switch_checked :: "job_row \<Rightarrow> bool" where
  [js_defs]: "switch_checked row = (r_state row = Runnable)"

subsection \<open>The page\<close>

record job_form =
  fm_name :: string
  fm_description :: string
  fm_cron :: string

datatype request =
    Delete_job string
  | Enable_job string bool
  | Create_job job_form
  | Update_job string job_form

record page =
  pg_rows :: "job_row list option"
  pg_switch :: "nat \<Rightarrow> bool"
  pg_jobId :: string
  pg_form :: job_form
  pg_cronClass :: string
  pg_hintHidden :: bool
  pg_modalShown :: bool
  pg_body :: string
  pg_requests :: "request list"

text \<open>\<open>initTable\<close> makes an empty table that asks the server for the rows; \<open>None\<close> until they come.\<close>

definition reload :: "page \<Rightarrow> page" where
  [js_defs]: "reload p = p\<lparr>pg_rows := None\<rparr>"

definition rows_loaded :: "job_row list \<Rightarrow> page \<Rightarrow> page" where
  [js_defs]: "rows_loaded rows p = p\<lparr>pg_rows := Some rows,
     pg_switch := (\<lambda>i. i < length rows \<and> switch_checked (rows ! i))\<rparr>"

definition send :: "request \<Rightarrow> page \<Rightarrow> page" where
  [js_defs]: "send r p = p\<lparr>pg_requests := pg_requests p @ [r]\<rparr>"

definition navClick :: "string \<Rightarrow> page \<Rightarrow> page" where
  [js_defs]: "navClick target p = p\<lparr>pg_body := target\<rparr>"

definition remove_job :: "string \<Rightarrow> page \<Rightarrow> page" where
  [js_defs]: "remove_job jid = send (Delete_job jid)"

definition remove_success :: "page \<Rightarrow> page" where
  [js_defs]: "remove_success p = reload (navClick ''job_list'' p)"

definition enable :: "string \<Rightarrow> nat \<Rightarrow> page \<Rightarrow> page" where
  [js_defs]: "enable jid index p = send (Enable_job jid (pg_switch p index)) p"

text \<open>Reading a property of a row that is not there throws.\<close>

definition edit :: "nat \<Rightarrow> page \<Rightarrow> page res" where
  [js_defs]: "edit index p =
     (let rows = (case pg_rows p of None \<Rightarrow> [] | Some rs \<Rightarrow> rs) in
      if index < length rows then
        let row = rows ! index in
        Ok (p\<lparr>pg_jobId := r_jobId row, pg_form := \<lparr>fm_name = r_name row,
          fm_description = r_description row, fm_cron = r_cron row\<rparr>, pg_modalShown := True\<rparr>)
      else Throw (TypeError ''Cannot read properties of undefined (reading 'jobId')''))"

definition save :: "page \<Rightarrow> page" where
  [js_defs]: "save p =
     (let jid = pg_jobId p; createFlag = (jid = []); job = pg_form p in
      send (if createFlag then Create_job job else Update_job jid job) p)"

definition save_success :: "page \<Rightarrow> page" where
  [js_defs]: "save_success p =
     reload (p\<lparr>pg_modalShown := False, pg_cronClass := ''form-control''\<rparr>)"

text \<open>The parser neither hangs nor throws anything but an error, so the \<open>catch\<close> takes every failure.\<close>

definition cronCheck :: "page \<Rightarrow> page" where
  [js_defs]: "cronCheck p =
     (if is_Ok (parse (fm_cron (pg_form p)) (OBool True))
      then p\<lparr>pg_cronClass := ''form-control is-valid'', pg_hintHidden := True\<rparr>
      else p\<lparr>pg_cronClass := ''form-control is-invalid'', pg_hintHidden := False\<rparr>)"

text \<open>Typing in the field of the cron expression runs the check; the other fields have no handler.\<close>

definition type_cron :: "string \<Rightarrow> page \<Rightarrow> page" where
  [js_defs]: "type_cron s p = cronCheck (p\<lparr>pg_form := (pg_form p)\<lparr>fm_cron := s\<rparr>\<rparr>)"

definition flip_switch :: "string \<Rightarrow> nat \<Rightarrow> page \<Rightarrow> page" where
  [js_defs]: "flip_switch jid index p =
     enable jid index (p\<lparr>pg_switch := (pg_switch p)(index := \<not> pg_switch p index)\<rparr>)"

end
