(* ===== verification/SeriesLaws.thy ===== *)
theory SeriesLaws
  imports CronMatcher
begin

text \<open>
  The values of a field and the series of candidate times: \<open>getValues\<close> counts or never ends,
  and in a zone of constant offset the generator hands its consumer, in order, exactly the
  combinations of the merged values that are dates and are not before the start.
\<close>

subsection \<open>Counting\<close>

lemma while_getValues:
  assumes "0 < step"
  shows "nat ((to - from) div step + 1) = n \<Longrightarrow>
    while_option (\<lambda>(i, values). i \<le> to) (\<lambda>(i, values). (i + step, values @ [i])) (from, vs)
    = Some (from + int n * step, vs @ map (\<lambda>k. from + int k * step) [0..<n])"
proof (induction n arbitrary: "from" vs)
  case 0
  then have "(to - from) div step < 0" by simp
  then have "to - from < 0" using assms by (simp add: pos_imp_zdiv_neg_iff)
  then show ?case by (simp add: while_option_unfold)
next
  case (Suc n)
  then have "0 \<le> (to - from) div step" by simp
  then have le: "from \<le> to" using assms by (simp add: pos_imp_zdiv_nonneg_iff)
  have "to - (from + step) = (to - from) + (- 1) * step" by simp
  then have div: "(to - (from + step)) div step = (to - from) div step - 1"
    using assms by (metis add.commute div_mult_self1 less_irrefl uminus_add_conv_diff)
  with Suc.prems have n: "nat ((to - (from + step)) div step + 1) = n" by simp
  have "[0..<Suc n] = 0 # map Suc [0..<n]" by (simp add: map_Suc_upt upt_conv_Cons)
  then have "map (\<lambda>k. from + int k * step) [0..<Suc n] = from # map (\<lambda>k. from + step + int k * step) [0..<n]"
    by (simp add: algebra_simps)
  moreover have "while_option (\<lambda>(i, values). i \<le> to) (\<lambda>(i, values). (i + step, values @ [i])) (from, vs)
      = while_option (\<lambda>(i, values). i \<le> to) (\<lambda>(i, values). (i + step, values @ [i]))
          (from + step, vs @ [from])"
    using le by (subst while_option_unfold) simp
  ultimately show ?case unfolding Suc.IH [OF n] by (simp add: algebra_simps)
qed

lemma getValues_pos:
  assumes "0 < step"
  shows "getValues from to step = Ok (map (\<lambda>k. from + int k * step) [0..<nat ((to - from) div step + 1)])"
  by (simp add: getValues_def while_getValues [OF assms refl])

lemma getValues_hang:
  assumes "step \<le> 0" "from \<le> to"
  shows "getValues from to step = Hang"
proof -
  have "while_option (\<lambda>(i, values). i \<le> to) (\<lambda>(i, values). (i + step, values @ [i])) (from, []) = None"
    by (rule while_option_None_invariant [where P = "\<lambda>(i, values). i \<le> to"]) (use assms in auto)
  then show ?thesis by (simp add: getValues_def)
qed

lemma getValues_empty: "to < from \<Longrightarrow> getValues from to step = Ok []"
  by (simp add: getValues_def while_option_unfold)

lemma getValues_one [simp]: "getValues from to 1 = Ok [from..to]"
proof -
  have "map (\<lambda>k. from + int k) [0..<nat (to - from + 1)] = [from..to]"
    by (simp add: list_eq_iff_nth_eq)
  then show ?thesis by (simp add: getValues_pos)
qed

lemma set_getValues:
  assumes "0 < step" "getValues from to step = Ok vs"
  shows "v \<in> set vs \<longleftrightarrow> from \<le> v \<and> v \<le> to \<and> step dvd (v - from)"
proof -
  have vs: "vs = map (\<lambda>k. from + int k * step) [0..<nat ((to - from) div step + 1)]"
    using assms getValues_pos by simp
  have "v \<in> set vs \<longleftrightarrow> (\<exists>k. int k \<le> (to - from) div step \<and> v = from + int k * step)"
  proof -
    have "k < nat (q + 1) \<longleftrightarrow> int k \<le> q" for k q by linarith
    then show ?thesis unfolding vs by (simp add: image_iff Bex_def)
  qed
  also have "\<dots> \<longleftrightarrow> from \<le> v \<and> v \<le> to \<and> step dvd (v - from)"
  proof
    assume "\<exists>k. int k \<le> (to - from) div step \<and> v = from + int k * step"
    then obtain k where k: "int k \<le> (to - from) div step" "v = from + int k * step" by blast
    then have "int k * step \<le> to - from" using assms(1)
      by (metis div_lower mult.commute mult_right_mono order.strict_implies_order order_trans)
    with k assms(1) show "from \<le> v \<and> v \<le> to \<and> step dvd (v - from)" by simp
  next
    assume v: "from \<le> v \<and> v \<le> to \<and> step dvd (v - from)"
    then obtain k where k: "v - from = step * k" by auto
    with v assms(1) have "0 \<le> k" by (metis diff_ge_0_iff_ge zero_le_mult_iff not_less)
    moreover have "k \<le> (to - from) div step"
      using k v assms(1) by (metis diff_right_mono less_irrefl nonzero_mult_div_cancel_left zdiv_mono1)
    ultimately show "\<exists>k. int k \<le> (to - from) div step \<and> v = from + int k * step"
      using k by (intro exI [of _ "nat k"]) (simp add: algebra_simps)
  qed
  finally show ?thesis .
qed

lemma getValues_not_Throw: "getValues from to step \<noteq> Throw e"
  by (simp add: getValues_def res_of_loop_def split: option.split)

text \<open>A list sorted without repetitions depends on its elements only.\<close>

lemma sort_dedupe: "sort (dedupe xs) = sorted_list_of_set (set (xs :: int list))"
  by (metis distinct_dedupe set_dedupe sorted_list_of_set_sort_remdups distinct_remdups_id)

subsection \<open>Generator and list\<close>

text \<open>The state of the series without the time, and what a candidate time does to it.\<close>

definition strip :: "'c series \<Rightarrow> bool \<times> 'c" where
  "strip s = (g_reached s, g_consumer s)"

definition offer :: "(cal \<Rightarrow> datetime) \<Rightarrow> int \<Rightarrow> 'c consumer \<Rightarrow> cal \<Rightarrow> bool \<times> 'c \<Rightarrow> (bool \<times> 'c) ctl res" where
  "offer dtf start consume c rc =
     (if fst rc \<or> start \<le> cal_ms c then rmap (ctl_map (Pair True)) (consume (dtf c) (snd rc))
      else Ok (Next rc))"

text \<open>A loop of the generator offers its consumer the candidates of a list.\<close>

definition sim :: "(datetime \<Rightarrow> bool) \<Rightarrow> ('c series \<Rightarrow> 'c series ctl res) \<Rightarrow>
  (bool \<times> 'c \<Rightarrow> (bool \<times> 'c) ctl res) \<Rightarrow> bool" where
  "sim Inv b f \<longleftrightarrow> (\<forall>s. Inv (g_time s) \<longrightarrow> rmap (ctl_map strip) (b s) = f (strip s) \<and>
     (\<forall>t. b s = Ok (Next t) \<longrightarrow> Inv (g_time t)))"

lemma sim_loop:
  fixes body :: "'x \<Rightarrow> 'c series \<Rightarrow> 'c series ctl res"
  assumes "\<And>x. x \<in> set xs \<Longrightarrow> sim Inv (body x) (foldB f (cands x))"
  shows "sim Inv (foldB body xs) (foldB f (concat (map cands xs)))"
  using assms
proof (induction xs)
  case Nil
  then show ?case by (simp add: sim_def ctl_map_def)
next
  case (Cons x xs)
  then have IH: "sim Inv (foldB body xs) (foldB f (concat (map cands xs)))"
    and x: "sim Inv (body x) (foldB f (cands x))" by auto
  show ?case unfolding sim_def
  proof (intro allI impI)
    fix s :: "'c series"
    assume inv: "Inv (g_time s)"
    with x have b: "rmap (ctl_map strip) (body x s) = foldB f (cands x) (strip s)"
      and n: "body x s = Ok (Next t) \<Longrightarrow> Inv (g_time t)" for t by (auto simp: sim_def)
    show "rmap (ctl_map strip) (foldB body (x # xs) s) = foldB f (concat (map cands (x # xs))) (strip s)
      \<and> (\<forall>t. foldB body (x # xs) s = Ok (Next t) \<longrightarrow> Inv (g_time t))"
    proof (cases "body x s")
      case (Ok r)
      show ?thesis
      proof (cases r)
        case (Next t)
        with Ok n have "Inv (g_time t)" by simp
        with IH have "rmap (ctl_map strip) (foldB body xs t) = foldB f (concat (map cands xs)) (strip t)
          \<and> (\<forall>u. foldB body xs t = Ok (Next u) \<longrightarrow> Inv (g_time u))" by (simp add: sim_def)
        with b Ok Next show ?thesis by (simp add: foldB_append ctl_map_def flip: b)
      next
        case (Stop t)
        with b Ok show ?thesis by (simp add: foldB_append ctl_map_def flip: b)
      qed
    qed (use b in \<open>simp_all add: foldB_append flip: b\<close>)
  qed
qed

text \<open>A step that sets a unit and then runs an inner loop; a step that is skipped.\<close>

lemma sim_inner:
  fixes loop :: "'c series \<Rightarrow> 'c series ctl res"
  assumes "sim Inv' loop f"
    and "\<And>g. Inv g \<Longrightarrow> \<exists>g'. setter g = Ok g' \<and> Inv' g'" and "\<And>g. Inv' g \<Longrightarrow> Inv g"
  shows "sim Inv (\<lambda>s. rbind (setter (g_time s)) (\<lambda>g. loop (s\<lparr>g_time := g\<rparr>))) f"
  unfolding sim_def
proof (intro allI impI)
  fix s :: "'c series"
  assume "Inv (g_time s)"
  with assms(2) obtain g where g: "setter (g_time s) = Ok g" "Inv' g" by blast
  have st: "strip (s\<lparr>g_time := g\<rparr>) = strip s" by (simp add: strip_def)
  have "Inv' (g_time (s\<lparr>g_time := g\<rparr>))" using g(2) by simp
  note l = assms(1) [unfolded sim_def, rule_format, OF this]
  show "rmap (ctl_map strip) (rbind (setter (g_time s)) (\<lambda>g. loop (s\<lparr>g_time := g\<rparr>)))
      = f (strip s) \<and> (\<forall>t. rbind (setter (g_time s)) (\<lambda>g. loop (s\<lparr>g_time := g\<rparr>)) = Ok (Next t) \<longrightarrow>
        Inv (g_time t))"
    using l g(1) assms(3) st by auto
qed

lemma sim_skip: "sim Inv (\<lambda>s. Ok (Next s)) (foldB f [])"
  by (simp add: sim_def ctl_map_def)

subsection \<open>The candidates\<close>

text \<open>A date and time with the milliseconds of \<open>c0\<close>.\<close>

definition mk :: "cal \<Rightarrow> int \<Rightarrow> int \<Rightarrow> int \<Rightarrow> int \<Rightarrow> int \<Rightarrow> int \<Rightarrow> cal" where
  "mk c0 y m d h mi s = \<lparr>c_year = y, c_month = m, c_day = d, c_hour = h, c_minute = mi, c_second = s,
     c_millisecond = c_millisecond c0\<rparr>"

text \<open>The candidates of a day, a month, a year and in all; what the loops skip because it lies before
  the start is left out.\<close>

definition day_cands :: "(fld \<Rightarrow> int list) \<Rightarrow> cal \<Rightarrow> int \<Rightarrow> int \<Rightarrow> int \<Rightarrow> cal list" where
  "day_cands mg c0 y m d = concat (map (\<lambda>h.
     if y = c_year c0 \<and> m = c_month c0 \<and> d = c_day c0 \<and> h < c_hour c0 then []
     else concat (map (\<lambda>mi. concat (map (\<lambda>s. [mk c0 y m d h mi s]) (mg SECOND))) (mg MINUTE))) (mg HOUR))"

definition month_cands :: "(fld \<Rightarrow> int list) \<Rightarrow> cal \<Rightarrow> int \<Rightarrow> int \<Rightarrow> cal list" where
  "month_cands mg c0 y m = concat (map (\<lambda>d.
     if y = c_year c0 \<and> m = c_month c0 \<and> d < c_day c0 then []
     else if d > daysInMonth y m then [] else day_cands mg c0 y m d) (mg DAY_OF_MONTH))"

definition year_cands :: "(fld \<Rightarrow> int list) \<Rightarrow> cal \<Rightarrow> int \<Rightarrow> cal list" where
  "year_cands mg c0 y = concat (map (\<lambda>m.
     if y = c_year c0 \<and> m < c_month c0 then [] else month_cands mg c0 y m) (mg MONTH))"

definition cands :: "(fld \<Rightarrow> int list) \<Rightarrow> cal \<Rightarrow> cal list" where
  "cands mg c0 = concat (map (\<lambda>y. if y < c_year c0 then [] else year_cands mg c0 y) (mg YEAR))"

text \<open>Merged values as the matcher computes them: sorted, and in the range of their field.\<close>

definition merged_ok :: "(fld \<Rightarrow> int list) \<Rightarrow> bool" where
  "merged_ok mg \<longleftrightarrow> (\<forall>f. sorted_wrt (<) (mg f)) \<and>
     (\<forall>v\<in>set (mg SECOND). 0 \<le> v \<and> v \<le> 59) \<and> (\<forall>v\<in>set (mg MINUTE). 0 \<le> v \<and> v \<le> 59) \<and>
     (\<forall>v\<in>set (mg HOUR). 0 \<le> v \<and> v \<le> 23) \<and> (\<forall>v\<in>set (mg DAY_OF_MONTH). 1 \<le> v) \<and>
     (\<forall>v\<in>set (mg MONTH). 1 \<le> v \<and> v \<le> 12) \<and> (\<forall>v\<in>set (mg YEAR). modern v)"

text \<open>The times in a zone whose fields begin with the given values.\<close>

definition at_fields :: "zone \<Rightarrow> int \<Rightarrow> locale_obj \<Rightarrow> cal \<Rightarrow> int list \<Rightarrow> datetime \<Rightarrow> bool" where
  "at_fields z off l c0 vs g \<longleftrightarrow> (\<exists>c. g = dt_at z off l c \<and> valid_cal c \<and> modern (c_year c) \<and>
     c_millisecond c = c_millisecond c0 \<and>
     take (length vs) [c_year c, c_month c, c_day c, c_hour c, c_minute c] = vs)"

lemma at_fields_weaken: "at_fields z off l c0 (vs @ [v]) g \<Longrightarrow> at_fields z off l c0 vs g"
proof -
  have "take (Suc (length vs)) L = vs @ [v] \<Longrightarrow> take (length vs) L = vs" for L :: "int list"
    by (metis append_eq_conv_conj append_take_drop_id take_take min.absorb1 lessI less_imp_le)
  then show "at_fields z off l c0 (vs @ [v]) g \<Longrightarrow> at_fields z off l c0 vs g"
    unfolding at_fields_def by (metis length_append_singleton)
qed

context sane_zone
begin

lemma setTime_modern:
  assumes "valid_cal c" "normalizeUnit s = Ok u" "set_ok u n c" "modern (c_year (cal_set u n c))"
  shows "setTime E (dt_at z off l c) s n = Ok (dt_at z off l (cal_set u n c))"
  unfolding setTime_def using assms by (rule set_modern)

lemma set_fields:
  "modern y \<Longrightarrow> at_fields z off l c0 [] g \<Longrightarrow>
    \<exists>g'. setTime E g ''year'' y = Ok g' \<and> at_fields z off l c0 [y] g'"
  "1 \<le> m \<Longrightarrow> m \<le> 12 \<Longrightarrow> at_fields z off l c0 [y] g \<Longrightarrow>
    \<exists>g'. setTime E g ''month'' m = Ok g' \<and> at_fields z off l c0 [y, m] g'"
  "1 \<le> d \<Longrightarrow> d \<le> daysInMonth y m \<Longrightarrow> at_fields z off l c0 [y, m] g \<Longrightarrow>
    \<exists>g'. setTime E g ''day'' d = Ok g' \<and> at_fields z off l c0 [y, m, d] g'"
  "0 \<le> h \<Longrightarrow> h \<le> 23 \<Longrightarrow> at_fields z off l c0 [y, m, d] g \<Longrightarrow>
    \<exists>g'. setTime E g ''hour'' h = Ok g' \<and> at_fields z off l c0 [y, m, d, h] g'"
  "0 \<le> mi \<Longrightarrow> mi \<le> 59 \<Longrightarrow> at_fields z off l c0 [y, m, d, h] g \<Longrightarrow>
    \<exists>g'. setTime E g ''minute'' mi = Ok g' \<and> at_fields z off l c0 [y, m, d, h, mi] g'"
proof -
  have one: "\<exists>g'. setTime E (dt_at z off l c) s n = Ok g' \<and> at_fields z off l c0 vs g'"
    if "valid_cal c" "normalizeUnit s = Ok u" "set_ok u n c" "modern (c_year (cal_set u n c))"
      "c_millisecond (cal_set u n c) = c_millisecond c0"
      "take (length vs) [c_year (cal_set u n c), c_month (cal_set u n c), c_day (cal_set u n c),
        c_hour (cal_set u n c), c_minute (cal_set u n c)] = vs" for c s u n vs
    using setTime_modern [OF that(1-4)] valid_cal_set [OF that(1,3)] that(4-6)
    unfolding at_fields_def by blast
  show "modern y \<Longrightarrow> at_fields z off l c0 [] g \<Longrightarrow>
      \<exists>g'. setTime E g ''year'' y = Ok g' \<and> at_fields z off l c0 [y] g'"
    by (auto simp: at_fields_def [of _ _ _ _ "[]"] set_ok_def cal_set_def intro!: one [where u = UYear] unit_names_dt)
  show "1 \<le> m \<Longrightarrow> m \<le> 12 \<Longrightarrow> at_fields z off l c0 [y] g \<Longrightarrow>
      \<exists>g'. setTime E g ''month'' m = Ok g' \<and> at_fields z off l c0 [y, m] g'"
    by (auto simp: at_fields_def [of _ _ _ _ "[_]"] set_ok_def cal_set_def intro!: one [where u = UMonth] unit_names_dt)
  show "1 \<le> d \<Longrightarrow> d \<le> daysInMonth y m \<Longrightarrow> at_fields z off l c0 [y, m] g \<Longrightarrow>
      \<exists>g'. setTime E g ''day'' d = Ok g' \<and> at_fields z off l c0 [y, m, d] g'"
    by (auto simp: at_fields_def [of _ _ _ _ "[_, _]"] set_ok_def cal_set_def intro!: one [where u = UDay] unit_names_dt)
  show "0 \<le> h \<Longrightarrow> h \<le> 23 \<Longrightarrow> at_fields z off l c0 [y, m, d] g \<Longrightarrow>
      \<exists>g'. setTime E g ''hour'' h = Ok g' \<and> at_fields z off l c0 [y, m, d, h] g'"
    by (auto simp: at_fields_def [of _ _ _ _ "[_, _, _]"] set_ok_def cal_set_def intro!: one [where u = UHour] unit_names_dt)
  show "0 \<le> mi \<Longrightarrow> mi \<le> 59 \<Longrightarrow> at_fields z off l c0 [y, m, d, h] g \<Longrightarrow>
      \<exists>g'. setTime E g ''minute'' mi = Ok g' \<and> at_fields z off l c0 [y, m, d, h, mi] g'"
    by (auto simp: at_fields_def [of _ _ _ _ "[_, _, _, _]"] set_ok_def cal_set_def intro!: one [where u = UMinute] unit_names_dt)
qed

text \<open>The innermost body offers the candidate it sets.\<close>

lemma sim_second:
  assumes "0 \<le> s" "s \<le> 59"
  shows "sim (at_fields z off l c0 [y, m, d, h, mi])
    (second_body E (Some (of_int (start - off * 60000))) consume s)
    (foldB (offer (dt_at z off l) start consume) [mk c0 y m d h mi s])"
  unfolding sim_def
proof (intro allI impI)
  fix st :: "'a series"
  assume "at_fields z off l c0 [y, m, d, h, mi] (g_time st)"
  then obtain c where g: "g_time st = dt_at z off l c" and c: "valid_cal c" "modern (c_year c)"
    "cal_set USecond s c = mk c0 y m d h mi s" by (auto simp: at_fields_def cal_set_def mk_def)
  have set: "setTime E (g_time st) ''second'' s = Ok (dt_at z off l (mk c0 y m d h mi s))"
    using setTime_modern [OF c(1) unit_names_dt(6), of s] c(2) assms
    by (simp add: g flip: c(3)) (simp add: set_ok_def cal_set_def)
  have inv: "at_fields z off l c0 [y, m, d, h, mi] (dt_at z off l (mk c0 y m d h mi s))"
  proof -
    have "modern y" using c(2) arg_cong [OF c(3), of c_year] by (simp add: cal_set_def mk_def)
    moreover have "valid_cal (mk c0 y m d h mi s)"
      using valid_cal_set [OF c(1), of USecond s] assms c(3) by (simp add: set_ok_def)
    ultimately show ?thesis unfolding at_fields_def
      by (intro exI [of _ "mk c0 y m d h mi s"]) (simp add: mk_def)
  qed
  define D where "D = dt_at z off l (mk c0 y m d h mi s)"
  define sN :: num where "sN = Some (of_int (start - off * 60000))"
  have le: "nle sN (toMillis D) \<longleftrightarrow> start \<le> cal_ms (mk c0 y m d h mi s)" by (simp add: sN_def D_def)
  show "rmap (ctl_map strip) (second_body E (Some (of_int (start - off * 60000))) consume s st)
      = foldB (offer (dt_at z off l) start consume) [mk c0 y m d h mi s] (strip st) \<and>
    (\<forall>t. second_body E (Some (of_int (start - off * 60000))) consume s st = Ok (Next t) \<longrightarrow>
      at_fields z off l c0 [y, m, d, h, mi] (g_time t))"
    using inv set le unfolding D_def [symmetric] sN_def [symmetric]
    by (cases "consume D (g_consumer st)")
      (auto simp: second_body_def offer_def D_def [symmetric] strip_def ctl_map_def Let_def split: ctl.splits)
qed

text \<open>The loops around it.\<close>

lemma sim_minute:
  assumes "merged_ok mg" "0 \<le> mi" "mi \<le> 59"
  shows "sim (at_fields z off l c0 [y, m, d, h])
    (minute_body E mg (Some (of_int (start - off * 60000))) consume mi)
    (foldB (offer (dt_at z off l) start consume) (concat (map (\<lambda>s. [mk c0 y m d h mi s]) (mg SECOND))))"
  unfolding minute_body_def
proof (rule sim_inner)
  show "sim (at_fields z off l c0 [y, m, d, h, mi])
      (foldB (second_body E (Some (of_int (start - off * 60000))) consume) (mg SECOND))
      (foldB (offer (dt_at z off l) start consume) (concat (map (\<lambda>s. [mk c0 y m d h mi s]) (mg SECOND))))"
    by (intro sim_loop sim_second) (use assms(1) in \<open>auto simp: merged_ok_def\<close>)
qed (use set_fields(5) [OF assms(2,3)] at_fields_weaken [of z off l c0 "[y, m, d, h]"] in auto)

lemma sim_hour:
  assumes "merged_ok mg" "0 \<le> h" "h \<le> 23"
  shows "sim (at_fields z off l c0 [y, m, d]) (hour_body E mg (dt_at z off l c0) consume (y, m, d) h)
    (foldB (offer (dt_at z off l) (cal_ms c0) consume)
      (if y = c_year c0 \<and> m = c_month c0 \<and> d = c_day c0 \<and> h < c_hour c0 then []
       else concat (map (\<lambda>mi. concat (map (\<lambda>s. [mk c0 y m d h mi s]) (mg SECOND))) (mg MINUTE))))"
proof (cases "y = c_year c0 \<and> m = c_month c0 \<and> d = c_day c0 \<and> h < c_hour c0")
  case True
  then have "hour_body E mg (dt_at z off l c0) consume (y, m, d) h = (\<lambda>s. Ok (Next s))"
    by (auto simp: hour_body_def lt_num_def)
  with True show ?thesis using sim_skip by simp
next
  case False
  then have body: "hour_body E mg (dt_at z off l c0) consume (y, m, d) h
      = (\<lambda>s. rbind (setTime E (g_time s) ''hour'' h) (\<lambda>g.
          foldB (minute_body E mg (Some (of_int (cal_ms c0 - off * 60000))) consume) (mg MINUTE)
            (s\<lparr>g_time := g\<rparr>)))"
    by (intro ext) (auto simp: hour_body_def lt_num_def)
  have "sim (at_fields z off l c0 [y, m, d, h])
      (foldB (minute_body E mg (Some (of_int (cal_ms c0 - off * 60000))) consume) (mg MINUTE))
      (foldB (offer (dt_at z off l) (cal_ms c0) consume)
        (concat (map (\<lambda>mi. concat (map (\<lambda>s. [mk c0 y m d h mi s]) (mg SECOND))) (mg MINUTE))))"
    by (intro sim_loop sim_minute) (use assms(1) in \<open>auto simp: merged_ok_def\<close>)
  from sim_inner [OF this, of "at_fields z off l c0 [y, m, d]" "\<lambda>g. setTime E g ''hour'' h"] False
  show ?thesis
    using set_fields(4) [OF assms(2,3)] at_fields_weaken [of z off l c0 "[y, m, d]"]
    unfolding body by auto
qed

lemma sim_day:
  assumes "merged_ok mg" "1 \<le> d"
  shows "sim (at_fields z off l c0 [y, m]) (day_body E mg (dt_at z off l c0) consume (y, m) d)
    (foldB (offer (dt_at z off l) (cal_ms c0) consume)
      (if y = c_year c0 \<and> m = c_month c0 \<and> d < c_day c0 then []
       else if d > daysInMonth y m then [] else day_cands mg c0 y m d))"
proof -
  have dim: "dt_daysInMonth g = Some (daysInMonth y m)" if "at_fields z off l c0 [y, m] g" for g
    using that by (auto simp: at_fields_def dt_daysInMonth_def)
  consider "y = c_year c0 \<and> m = c_month c0 \<and> d < c_day c0"
    | "\<not> (y = c_year c0 \<and> m = c_month c0 \<and> d < c_day c0)" "d > daysInMonth y m"
    | "\<not> (y = c_year c0 \<and> m = c_month c0 \<and> d < c_day c0)" "d \<le> daysInMonth y m" by linarith
  then show ?thesis
  proof cases
    case 1
    then have "day_body E mg (dt_at z off l c0) consume (y, m) d = (\<lambda>s. Ok (Next s))"
      by (auto simp: day_body_def lt_num_def)
    with 1 show ?thesis using sim_skip by simp
  next
    case 2
    then have "at_fields z off l c0 [y, m] (g_time s) \<Longrightarrow>
        day_body E mg (dt_at z off l c0) consume (y, m) d s = Ok (Next s)" for s :: "'a series"
      by (auto simp: day_body_def dim)
    with 2 show ?thesis unfolding sim_def by (auto simp: ctl_map_def)
  next
    case 3
    have body: "day_body E mg (dt_at z off l c0) consume (y, m) d s
        = rbind (setTime E (g_time s) ''day'' d) (\<lambda>g.
            foldB (hour_body E mg (dt_at z off l c0) consume (y, m, d)) (mg HOUR) (s\<lparr>g_time := g\<rparr>))"
      if "at_fields z off l c0 [y, m] (g_time s)" for s :: "'a series"
      using 3 that by (auto simp: day_body_def dim lt_num_def)
    have "sim (at_fields z off l c0 [y, m, d])
        (foldB (hour_body E mg (dt_at z off l c0) consume (y, m, d)) (mg HOUR))
        (foldB (offer (dt_at z off l) (cal_ms c0) consume) (day_cands mg c0 y m d))"
      unfolding day_cands_def
      by (intro sim_loop sim_hour) (use assms(1) in \<open>auto simp: merged_ok_def\<close>)
    from sim_inner [OF this, of "at_fields z off l c0 [y, m]" "\<lambda>g. setTime E g ''day'' d"]
    have "sim (at_fields z off l c0 [y, m]) (\<lambda>s. rbind (setTime E (g_time s) ''day'' d) (\<lambda>g.
            foldB (hour_body E mg (dt_at z off l c0) consume (y, m, d)) (mg HOUR) (s\<lparr>g_time := g\<rparr>)))
        (foldB (offer (dt_at z off l) (cal_ms c0) consume) (day_cands mg c0 y m d))"
      using set_fields(3) [OF assms(2) 3(2)] at_fields_weaken [of z off l c0 "[y, m]"] by auto
    with 3 show ?thesis unfolding sim_def by (auto simp: body)
  qed
qed

lemma sim_month:
  assumes "merged_ok mg" "1 \<le> m" "m \<le> 12"
  shows "sim (at_fields z off l c0 [y]) (month_body E mg (dt_at z off l c0) consume y m)
    (foldB (offer (dt_at z off l) (cal_ms c0) consume)
      (if y = c_year c0 \<and> m < c_month c0 then [] else month_cands mg c0 y m))"
proof (cases "y = c_year c0 \<and> m < c_month c0")
  case True
  then have "month_body E mg (dt_at z off l c0) consume y m = (\<lambda>s. Ok (Next s))"
    by (auto simp: month_body_def lt_num_def)
  with True show ?thesis using sim_skip by simp
next
  case False
  then have body: "month_body E mg (dt_at z off l c0) consume y m
      = (\<lambda>s. rbind (setTime E (g_time s) ''month'' m) (\<lambda>g.
          foldB (day_body E mg (dt_at z off l c0) consume (y, m)) (mg DAY_OF_MONTH) (s\<lparr>g_time := g\<rparr>)))"
    by (intro ext) (auto simp: month_body_def lt_num_def)
  have "sim (at_fields z off l c0 [y, m])
      (foldB (day_body E mg (dt_at z off l c0) consume (y, m)) (mg DAY_OF_MONTH))
      (foldB (offer (dt_at z off l) (cal_ms c0) consume) (month_cands mg c0 y m))"
    unfolding month_cands_def
    by (intro sim_loop sim_day) (use assms(1) in \<open>auto simp: merged_ok_def\<close>)
  from sim_inner [OF this, of "at_fields z off l c0 [y]" "\<lambda>g. setTime E g ''month'' m"] False
  show ?thesis
    using set_fields(2) [OF assms(2,3)] at_fields_weaken [of z off l c0 "[y]"] unfolding body by auto
qed

lemma sim_year:
  assumes "merged_ok mg" "modern y"
  shows "sim (at_fields z off l c0 []) (year_body E mg (dt_at z off l c0) consume y)
    (foldB (offer (dt_at z off l) (cal_ms c0) consume)
      (if y < c_year c0 then [] else year_cands mg c0 y))"
proof (cases "y < c_year c0")
  case True
  then have "year_body E mg (dt_at z off l c0) consume y = (\<lambda>s. Ok (Next s))"
    by (auto simp: year_body_def lt_num_def)
  with True show ?thesis using sim_skip by simp
next
  case False
  then have body: "year_body E mg (dt_at z off l c0) consume y
      = (\<lambda>s. rbind (setTime E (g_time s) ''year'' y) (\<lambda>g.
          foldB (month_body E mg (dt_at z off l c0) consume y) (mg MONTH) (s\<lparr>g_time := g\<rparr>)))"
    by (intro ext) (auto simp: year_body_def lt_num_def)
  have "sim (at_fields z off l c0 [y])
      (foldB (month_body E mg (dt_at z off l c0) consume y) (mg MONTH))
      (foldB (offer (dt_at z off l) (cal_ms c0) consume) (year_cands mg c0 y))"
    unfolding year_cands_def
    by (intro sim_loop sim_month) (use assms(1) in \<open>auto simp: merged_ok_def\<close>)
  from sim_inner [OF this, of "at_fields z off l c0 []" "\<lambda>g. setTime E g ''year'' y"] False
  show ?thesis
    using set_fields(1) [OF assms(2)] at_fields_weaken [of z off l c0 "[]"] unfolding body by auto
qed

text \<open>The generator as a whole.\<close>

lemma series_offers:
  assumes "merged_ok mg" "valid_cal c0" "modern (c_year c0)"
  shows "rmap (ctl_map strip) (foldB (year_body E mg (dt_at z off l c0) consume) (mg YEAR)
      \<lparr>g_time = dt_at z off l c0, g_reached = False, g_consumer = k\<rparr>)
    = foldB (offer (dt_at z off l) (cal_ms c0) consume) (cands mg c0) (False, k)"
proof -
  have "sim (at_fields z off l c0 []) (foldB (year_body E mg (dt_at z off l c0) consume) (mg YEAR))
      (foldB (offer (dt_at z off l) (cal_ms c0) consume) (cands mg c0))"
    unfolding cands_def by (intro sim_loop sim_year) (use assms(1) in \<open>auto simp: merged_ok_def\<close>)
  moreover have "at_fields z off l c0 [] (dt_at z off l c0)" using assms(2,3) by (auto simp: at_fields_def)
  ultimately show ?thesis by (simp add: sim_def strip_def)
qed

end

subsection \<open>Order and completeness\<close>

lemma sorted_wrt_concat:
  assumes "sorted_wrt (<) xs" "\<And>x. x \<in> set xs \<Longrightarrow> sorted_wrt R (f x)"
    "\<And>x y a b. x \<in> set xs \<Longrightarrow> y \<in> set xs \<Longrightarrow> x < y \<Longrightarrow> a \<in> set (f x) \<Longrightarrow> b \<in> set (f y) \<Longrightarrow> R a b"
  shows "sorted_wrt R (concat (map f (xs :: int list)))"
  using assms
proof (induction xs)
  case (Cons x xs)
  have "sorted_wrt R (concat (map f xs))"
    by (rule Cons.IH) (use Cons.prems(1) in simp, auto intro: Cons.prems(2,3))
  moreover have "R a b" if "a \<in> set (f x)" "b \<in> set (concat (map f xs))" for a b
    using that Cons.prems(1) by (auto intro: Cons.prems(3))
  ultimately show ?case using Cons.prems(2) by (simp add: sorted_wrt_append)
qed simp

lemma set_concat_if:
  "b \<in> set (concat (map (\<lambda>a. if P a then [] else f a) xs)) \<longleftrightarrow> (\<exists>a\<in>set xs. \<not> P a \<and> b \<in> set (f a))"
  by auto

lemma set_if_Nil: "b \<in> set (if P then [] else xs) \<longleftrightarrow> \<not> P \<and> b \<in> set xs"
  by simp

definition is_cand :: "(fld \<Rightarrow> int list) \<Rightarrow> cal \<Rightarrow> cal \<Rightarrow> bool" where
  "is_cand mg c0 c \<longleftrightarrow> c_year c \<in> set (mg YEAR) \<and> c_month c \<in> set (mg MONTH) \<and>
     c_day c \<in> set (mg DAY_OF_MONTH) \<and> c_day c \<le> daysInMonth (c_year c) (c_month c) \<and>
     c_hour c \<in> set (mg HOUR) \<and> c_minute c \<in> set (mg MINUTE) \<and> c_second c \<in> set (mg SECOND) \<and>
     c_millisecond c = c_millisecond c0"

lemma is_cand_mk:
  "is_cand mg c0 c \<Longrightarrow> mk c0 (c_year c) (c_month c) (c_day c) (c_hour c) (c_minute c) (c_second c) = c"
  by (simp add: is_cand_def mk_def)

lemma mk_fields [simp]:
  "c_year (mk c0 y m d h mi s) = y" "c_month (mk c0 y m d h mi s) = m" "c_day (mk c0 y m d h mi s) = d"
  "c_hour (mk c0 y m d h mi s) = h" "c_minute (mk c0 y m d h mi s) = mi"
  "c_second (mk c0 y m d h mi s) = s" "c_millisecond (mk c0 y m d h mi s) = c_millisecond c0"
  by (simp_all add: mk_def)

lemma is_cand_valid:
  assumes "merged_ok mg" "valid_cal c0" "is_cand mg c0 c"
  shows "valid_cal c" "modern (c_year c)"
  using assms(1,3) valid_calD(11,12) [OF assms(2)]
  by (auto simp: merged_ok_def is_cand_def intro!: valid_calI)

text \<open>What the loops skip.\<close>

definition skipped :: "cal \<Rightarrow> cal \<Rightarrow> bool" where
  "skipped c0 c \<longleftrightarrow> ymd_less (c_year c) (c_month c) (c_day c) (c_year c0) (c_month c0) (c_day c0) \<or>
     (c_year c = c_year c0 \<and> c_month c = c_month c0 \<and> c_day c = c_day c0 \<and> c_hour c < c_hour c0)"

lemma set_day_cands:
  "c \<in> set (day_cands mg c0 y m d) \<longleftrightarrow> c_year c = y \<and> c_month c = m \<and> c_day c = d \<and>
     c_hour c \<in> set (mg HOUR) \<and> c_minute c \<in> set (mg MINUTE) \<and> c_second c \<in> set (mg SECOND) \<and>
     c_millisecond c = c_millisecond c0 \<and>
     \<not> (y = c_year c0 \<and> m = c_month c0 \<and> d = c_day c0 \<and> c_hour c < c_hour c0)"
proof -
  have "c \<in> set (day_cands mg c0 y m d) \<longleftrightarrow> (\<exists>h\<in>set (mg HOUR).
      \<not> (y = c_year c0 \<and> m = c_month c0 \<and> d = c_day c0 \<and> h < c_hour c0) \<and>
      (\<exists>mi\<in>set (mg MINUTE). \<exists>s\<in>set (mg SECOND). c = mk c0 y m d h mi s))"
    unfolding day_cands_def set_concat_if by (simp add: image_iff)
  also have "\<dots> \<longleftrightarrow> c_year c = y \<and> c_month c = m \<and> c_day c = d \<and>
     c_hour c \<in> set (mg HOUR) \<and> c_minute c \<in> set (mg MINUTE) \<and> c_second c \<in> set (mg SECOND) \<and>
     c_millisecond c = c_millisecond c0 \<and>
     \<not> (y = c_year c0 \<and> m = c_month c0 \<and> d = c_day c0 \<and> c_hour c < c_hour c0)"
    (is "_ \<longleftrightarrow> ?R")
  proof
    assume ?R
    then have "c = mk c0 y m d (c_hour c) (c_minute c) (c_second c)" by (simp add: mk_def)
    with \<open>?R\<close> show "\<exists>h\<in>set (mg HOUR). \<not> (y = c_year c0 \<and> m = c_month c0 \<and> d = c_day c0 \<and> h < c_hour c0) \<and>
      (\<exists>mi\<in>set (mg MINUTE). \<exists>s\<in>set (mg SECOND). c = mk c0 y m d h mi s)" by blast
  qed auto
  finally show ?thesis .
qed

lemma set_cands: "c \<in> set (cands mg c0) \<longleftrightarrow> is_cand mg c0 c \<and> \<not> skipped c0 c"
proof -
  have "c \<in> set (cands mg c0) \<longleftrightarrow> (\<exists>y\<in>set (mg YEAR). \<not> y < c_year c0 \<and>
      (\<exists>m\<in>set (mg MONTH). \<not> (y = c_year c0 \<and> m < c_month c0) \<and>
      (\<exists>d\<in>set (mg DAY_OF_MONTH). \<not> (y = c_year c0 \<and> m = c_month c0 \<and> d < c_day c0) \<and>
        d \<le> daysInMonth y m \<and> c \<in> set (day_cands mg c0 y m d))))"
    unfolding cands_def year_cands_def month_cands_def set_concat_if
    by (simp only: not_less set_if_Nil)
  then show ?thesis unfolding set_day_cands is_cand_def skipped_def ymd_less_def by auto
qed

lemma skipped_before:
  assumes "valid_cal c" "valid_cal c0" "skipped c0 c"
  shows "cal_ms c < cal_ms c0"
  using assms(3) unfolding skipped_def
proof
  assume "ymd_less (c_year c) (c_month c) (c_day c) (c_year c0) (c_month c0) (c_day c0)"
  then show ?thesis using assms(1,2) by (rule_tac cal_ms_less_day)
next
  assume "c_year c = c_year c0 \<and> c_month c = c_month c0 \<and> c_day c = c_day c0 \<and> c_hour c < c_hour c0"
  then show ?thesis
    using valid_calD [OF assms(1)] valid_calD [OF assms(2)]
    by (intro cal_ms_less_time) (auto simp: MakeTime_def)
qed

text \<open>The order of the fields is the order of time.\<close>

definition field_less :: "cal \<Rightarrow> cal \<Rightarrow> bool" where
  "field_less a b \<longleftrightarrow> ymd_less (c_year a) (c_month a) (c_day a) (c_year b) (c_month b) (c_day b) \<or>
     (c_year a = c_year b \<and> c_month a = c_month b \<and> c_day a = c_day b \<and>
      ymd_less (c_hour a) (c_minute a) (c_second a) (c_hour b) (c_minute b) (c_second b))"

lemma field_less_ms:
  assumes "valid_cal a" "valid_cal b" "field_less a b" "c_millisecond a = c_millisecond b"
  shows "cal_ms a < cal_ms b"
  using assms(3) unfolding field_less_def
proof
  assume "ymd_less (c_year a) (c_month a) (c_day a) (c_year b) (c_month b) (c_day b)"
  then show ?thesis using assms(1,2) by (rule_tac cal_ms_less_day)
next
  assume "c_year a = c_year b \<and> c_month a = c_month b \<and> c_day a = c_day b \<and>
      ymd_less (c_hour a) (c_minute a) (c_second a) (c_hour b) (c_minute b) (c_second b)"
  then show ?thesis
    using valid_calD [OF assms(1)] valid_calD [OF assms(2)] assms(4)
    by (intro cal_ms_less_time) (auto simp: MakeTime_def ymd_less_def)
qed

lemma sorted_fields:
  assumes "merged_ok mg"
  shows "sorted_wrt field_less (cands mg c0)"
proof -
  have s: "sorted_wrt (<) (mg f)" for f using assms by (simp add: merged_ok_def)
  have day: "sorted_wrt field_less (day_cands mg c0 y m d)" for y m d
    unfolding day_cands_def
    by (intro sorted_wrt_concat s)
      (auto intro!: sorted_wrt_concat s simp: field_less_def ymd_less_def sorted_wrt_map s split: if_splits)
  have month: "sorted_wrt field_less (month_cands mg c0 y m)" for y m
    unfolding month_cands_def
    by (intro sorted_wrt_concat s)
      (auto intro!: day simp: set_day_cands field_less_def ymd_less_def split: if_splits)
  have in_month: "c \<in> set (month_cands mg c0 y m) \<Longrightarrow> c_year c = y \<and> c_month c = m" for c y m
    unfolding month_cands_def by (auto simp: set_day_cands split: if_splits)
  have year: "sorted_wrt field_less (year_cands mg c0 y)" for y
    unfolding year_cands_def
    by (intro sorted_wrt_concat s)
      (auto intro!: month dest!: in_month simp: field_less_def ymd_less_def split: if_splits)
  have in_year: "c \<in> set (year_cands mg c0 y) \<Longrightarrow> c_year c = y" for c y
    unfolding year_cands_def by (auto dest!: in_month split: if_splits)
  show ?thesis unfolding cands_def
    by (intro sorted_wrt_concat s)
      (auto intro!: year dest!: in_year simp: field_less_def ymd_less_def split: if_splits)
qed

definition series_list :: "(fld \<Rightarrow> int list) \<Rightarrow> cal \<Rightarrow> cal list" where
  "series_list mg c0 = filter (\<lambda>c. cal_ms c0 \<le> cal_ms c) (cands mg c0)"

lemma sorted_cands:
  assumes "merged_ok mg" "valid_cal c0"
  shows "sorted_wrt (\<lambda>a b. cal_ms a < cal_ms b) (cands mg c0)"
proof (rule sorted_wrt_mono_rel [OF _ sorted_fields [OF assms(1)]])
  fix a b
  assume ab: "a \<in> set (cands mg c0)" "b \<in> set (cands mg c0)" "field_less a b"
  then have "is_cand mg c0 a" "is_cand mg c0 b" by (simp_all add: set_cands)
  with ab(3) is_cand_valid [OF assms] show "cal_ms a < cal_ms b"
    by (intro field_less_ms) (auto simp: is_cand_def)
qed

text \<open>The series: in order of time, without repetitions, and all combinations from the start on.\<close>

lemma series_list_sorted:
  "merged_ok mg \<Longrightarrow> valid_cal c0 \<Longrightarrow> sorted_wrt (\<lambda>a b. cal_ms a < cal_ms b) (series_list mg c0)"
  unfolding series_list_def by (intro sorted_wrt_filter sorted_cands)

lemma set_series_list:
  assumes "merged_ok mg" "valid_cal c0"
  shows "set (series_list mg c0) = {c. is_cand mg c0 c \<and> cal_ms c0 \<le> cal_ms c}"
  using is_cand_valid(1) [OF assms] skipped_before [OF _ assms(2)]
  by (fastforce simp: series_list_def set_cands)

text \<open>Offering a sorted list is consuming its part from the start on.\<close>

definition consume_all :: "(cal \<Rightarrow> datetime) \<Rightarrow> 'c consumer \<Rightarrow> cal list \<Rightarrow> 'c \<Rightarrow> 'c ctl res" where
  "consume_all dtf consume cs k = foldB (\<lambda>c. consume (dtf c)) cs k"

lemma offer_reached:
  "rmap (ctl_map snd) (foldB (offer dtf start consume) cs (True, k)) = consume_all dtf consume cs k"
proof (induction cs arbitrary: k)
  case Nil
  then show ?case by (simp add: consume_all_def ctl_map_def)
next
  case (Cons c cs)
  then show ?case
    by (cases "consume (dtf c) k")
      (auto simp: offer_def consume_all_def ctl_map_def split: ctl.split)
qed

lemma offer_sorted:
  assumes "sorted_wrt (\<lambda>a b. cal_ms a < cal_ms b) cs"
  shows "rmap (ctl_map snd) (foldB (offer dtf start consume) cs (False, k))
    = consume_all dtf consume (filter (\<lambda>c. start \<le> cal_ms c) cs) k"
  using assms
proof (induction cs)
  case Nil
  then show ?case by (simp add: consume_all_def ctl_map_def)
next
  case (Cons c cs)
  show ?case
  proof (cases "start \<le> cal_ms c")
    case True
    then have "filter (\<lambda>c. start \<le> cal_ms c) (c # cs) = c # cs"
      using Cons.prems by (auto simp: filter_id_conv)
    moreover have "foldB (offer dtf start consume) (c # cs) (False, k)
        = foldB (offer dtf start consume) (c # cs) (True, k)"
      using True by (simp add: offer_def)
    ultimately show ?thesis using offer_reached by metis
  next
    case False
    then show ?thesis using Cons by (simp add: offer_def)
  qed
qed

context sane_zone
begin

lemma series_consumes:
  assumes "mergeExprs exprs (Some (c_year c0)) = Ok mg" "merged_ok mg" "valid_cal c0" "modern (c_year c0)"
  shows "getTimeSeries E exprs (dt_at z off l c0) consume k
    = rmap ctl_state (consume_all (dt_at z off l) consume (series_list mg c0) k)"
proof -
  let ?r = "foldB (year_body E mg (dt_at z off l c0) consume) (mg YEAR)
      \<lparr>g_time = dt_at z off l c0, g_reached = False, g_consumer = k\<rparr>"
  have "rmap (ctl_map snd) (rmap (ctl_map strip) ?r) = consume_all (dt_at z off l) consume (series_list mg c0) k"
    unfolding series_offers [OF assms(2-4)] series_list_def
    by (rule offer_sorted [OF sorted_cands [OF assms(2,3)]])
  then have "rmap ctl_state (consume_all (dt_at z off l) consume (series_list mg c0) k)
      = rmap (\<lambda>r. g_consumer (ctl_state r)) ?r"
    by (cases ?r) (auto simp: ctl_map_def strip_def split: ctl.split simp flip: \<open>_ = consume_all _ _ _ _\<close>)
  then show ?thesis by (simp add: getTimeSeries_def assms(1))
qed

end

end
