(* ===== verification/MatcherLaws.thy ===== *)
theory MatcherLaws
  imports SeriesLaws
begin

text \<open>
  What the tests of the matcher decide, in a zone of constant offset: the last day of a kind, the
  nearest weekday, the days of a kind and the match of an expression are functions of the calendar
  fields, stated here without loops and without \<open>DateTime\<close>.
\<close>

subsection \<open>Days of the week\<close>

text \<open>0 is Sunday.\<close>

definition dow :: "cal \<Rightarrow> int" where
  "dow c = WeekDay (day_no c)"

definition month_days :: "cal \<Rightarrow> int" where
  "month_days c = daysInMonth (c_year c) (c_month c)"

text \<open>The day of the week of another day of the month.\<close>

definition dow_of :: "cal \<Rightarrow> int \<Rightarrow> int" where
  "dow_of c d = WeekDay (MakeDay (c_year c) (c_month c - 1) d)"

lemma dow_of_day [simp]: "dow_of c (c_day c) = dow c"
  by (simp add: dow_of_def dow_def day_no_def)

lemma dow_range: "0 \<le> dow_of c d" "dow_of c d \<le> 6"
  using WeekDay_range [of "MakeDay (c_year c) (c_month c - 1) d"] by (simp_all add: dow_of_def)

lemma dow_of_add: "dow_of c (d + k) = (dow_of c d + k) mod 7"
  by (simp add: dow_of_def WeekDay_def MakeDay_add [of _ _ "d + k"] MakeDay_add [of _ _ d] algebra_simps
      mod_simps)

lemma getWeekDay_at:
  assumes "valid_cal c" "modern (c_year c)"
  shows "getWeekDay (dt_at z off l c) = Some (dow c)"
  using WeekDay_range [of "day_no c"] by (simp add: getWeekDay_def weekday_at [OF assms] dow_def)

lemma getWeekDay_range: "getWeekDay t = Some w \<Longrightarrow> 0 \<le> w \<and> w \<le> 6"
proof -
  assume w: "getWeekDay t = Some w"
  have "weekday t = Some v \<Longrightarrow> 1 \<le> v \<and> v \<le> 7" for v
  proof -
    assume "weekday t = Some v"
    then have "\<exists>y m d. dayOfWeek y m d = Some v"
      by (auto simp: weekday_def weekData_def gregorianToWeek_def timeObject_def pick_def Let_def
          split: option.splits if_splits) blast+
    then show "1 \<le> v \<and> v \<le> 7"
      using WeekDay_range by (auto simp: dayOfWeek_def Let_def getUTCDay_def split: if_splits)
        (metis WeekDay_range(1) add_0 le_less zless_imp_add1_zle, metis WeekDay_range(2) less_imp_le)+
  qed
  with w show ?thesis by (fastforce simp: getWeekDay_def split: if_splits)
qed

text \<open>The last day of the month that falls on the day \<open>w\<close> of the week.\<close>

definition last_day :: "cal \<Rightarrow> int \<Rightarrow> int" where
  "last_day c w = month_days c - (dow_of c (month_days c) - w) mod 7"

lemma last_day_greatest:
  assumes "0 \<le> w" "w \<le> 6"
  shows "dow_of c (last_day c w) = w" "last_day c w \<le> month_days c" "1 \<le> last_day c w"
    "d \<le> month_days c \<Longrightarrow> dow_of c d = w \<Longrightarrow> d \<le> last_day c w"
proof -
  let ?n = "(dow_of c (month_days c) - w) mod 7"
  have n: "0 \<le> ?n" "?n \<le> 6" by (simp_all add: mod_le)
  have "dow_of c (month_days c + - ?n) = (dow_of c (month_days c) + - ?n) mod 7" by (rule dow_of_add)
  also have "\<dots> = (dow_of c (month_days c) - (dow_of c (month_days c) - w)) mod 7" by (metis add_uminus_conv_diff mod_diff_right_eq)
  finally show "dow_of c (last_day c w) = w" using assms by (simp add: last_day_def)
  show "last_day c w \<le> month_days c" using n by (simp add: last_day_def)
  show "1 \<le> last_day c w"
    using n daysInMonth_bounds(1) [of "c_year c" "c_month c"] by (simp add: last_day_def month_days_def)
  assume d: "d \<le> month_days c" "dow_of c d = w"
  have "dow_of c (d + (month_days c - d)) = (dow_of c d + (month_days c - d)) mod 7" by (rule dow_of_add)
  then have "?n = (month_days c - d) mod 7" using d(2) by (simp add: mod_simps)
  moreover have "(month_days c - d) mod 7 \<le> month_days c - d" using d(1) by (simp add: zmod_le_nonneg_dividend)
  ultimately show "d \<le> last_day c w" by (simp add: last_day_def)
qed

subsection \<open>The search for the last day of a kind\<close>

text \<open>Adding days never fails, whatever the time.\<close>

lemma clone_dt_Ok: "\<exists>u. clone_dt E t ts z l = Ok u"
  by (simp add: clone_dt_def DateTime_new_def Let_def)

lemma plus_day_Ok:
  assumes L: "Locale_fromObject E no_locale_opts = Ok l0"
  shows "\<exists>u. plus E t (DObject [(''day'', VNum (- 1))]) = Ok u"
proof (cases "isValid t")
  case True
  let ?dur = "\<lparr>d_values = [(Days, - 1)], d_loc = l0, d_longterm = False, d_invalid = None\<rparr>"
  have d: "fromDurationLike E (DObject [(''day'', VNum (- 1))]) = Ok ?dur"
    by (simp add: fromDurationLike_def Duration_fromObject_def L
        normalizeObject_one [where normalizer = Duration_normalizeUnit, OF all_unit_names(11)])
  have "millisToAdd E [(Days, - 1)] = Ok (Some (clock_ms [(Days, - 1)]))"
    by (rule millisToAdd_whole [OF _ _ _ _ _ L]) simp_all
  then obtain x where "adjustTime E t ?dur = Ok x" by (simp add: adjustTime_def Duration_isValid_def Let_def)
  with d True clone_dt_Ok show ?thesis by (simp add: plus_def)
qed (simp add: plus_def)

lemma last_day_loop_hang:
  assumes L: "Locale_fromObject E no_locale_opts = Ok l0" and w: "\<not> (0 \<le> w \<and> w \<le> 6)"
  shows "last_day_loop E w t = Hang"
proof -
  let ?b = "\<lambda>r. case r of Ok t \<Rightarrow> getWeekDay t \<noteq> Some w | _ \<Rightarrow> False"
  let ?c = "\<lambda>r. rbind r (\<lambda>t. plus E t (DObject [(''day'', VNum (- 1))]))"
  have ne: "getWeekDay t \<noteq> Some w" for t using getWeekDay_range w by blast
  have "while_option ?b ?c (Ok t) = None"
  proof (rule while_option_None_invariant [where P = "\<lambda>r. \<exists>t. r = Ok t"])
    fix r :: "datetime res"
    assume "\<exists>t. r = Ok t"
    then obtain t where r: "r = Ok t" by blast
    obtain u where "plus E t (DObject [(''day'', VNum (- 1))]) = Ok u" using plus_day_Ok [OF L] by blast
    with r ne show "?b r \<and> (\<exists>t. ?c r = Ok t)" by simp
  qed simp
  then show ?thesis by (simp add: last_day_loop_def)
qed

lemma end_of_month_fields [simp]:
  "c_year (end_of_month c) = c_year c" "c_month (end_of_month c) = c_month c"
  "c_day (end_of_month c) = month_days c" "month_days (end_of_month c) = month_days c"
  "dow_of (end_of_month c) d = dow_of c d"
  by (simp_all add: end_of_month_def month_days_def dow_of_def)

context sane_zone
begin

lemma last_day_loop_at:
  assumes L: "Locale_fromObject E no_locale_opts = Ok l0" and w: "0 \<le> w" "w \<le> 6"
    and c: "valid_cal c" "modern (c_year c)" "last_day c w \<le> c_day c"
  shows "last_day_loop E w (dt_at z off l c) = Ok (dt_at z off l (c\<lparr>c_day := last_day c w\<rparr>))"
proof -
  let ?b = "\<lambda>r. case r of Ok t \<Rightarrow> getWeekDay t \<noteq> Some w | _ \<Rightarrow> False"
  let ?c = "\<lambda>r. rbind r (\<lambda>t. plus E t (DObject [(''day'', VNum (- 1))]))"
  have "while_option ?b ?c (Ok (dt_at z off l c)) = Some (Ok (dt_at z off l (c\<lparr>c_day := last_day c w\<rparr>)))"
    using c
  proof (induction "nat (c_day c - last_day c w)" arbitrary: c)
    case 0
    then have d: "c_day c = last_day c w" by simp
    then have "dow c = w" using last_day_greatest(1) [OF w, of c] dow_of_day [of c] by simp
    have eq: "c\<lparr>c_day := last_day c w\<rparr> = c" using d by simp
    show ?case unfolding eq using 0 \<open>dow c = w\<close> by (simp add: getWeekDay_at while_option_unfold)
  next
    case (Suc n)
    have less: "last_day c w < c_day c" using Suc.hyps(2) by simp
    have day: "c_day c \<le> month_days c" using valid_calD(4) [OF Suc.prems(1)] by (simp add: month_days_def)
    have ne: "dow c \<noteq> w" using last_day_greatest(4) [OF w day] less dow_of_day [of c] by auto
    let ?c' = "c\<lparr>c_day := c_day c - 1\<rparr>"
    have v: "valid_cal ?c'"
      using valid_calD [OF Suc.prems(1)] last_day_greatest(3) [OF w, of c] less by (intro valid_calI) auto
    have ms: "cal_ms c + - 1 * msPerDay = cal_ms ?c'"
      by (simp add: cal_ms_def MakeDate_def MakeDay_add [of _ _ "c_day c - 1"]
          MakeDay_add [of _ _ "c_day c"] algebra_simps)
    have r: "in_range off (cal_ms ?c')" using v Suc.prems(2) small by (intro modern_in_range) auto
    have "plus E (dt_at z off l c) (DObject [(''day'', VNum (- 1))]) = Ok (dt_at z off l ?c')"
      using plus_days [OF Suc.prems(1,2) _ L, of "- 1"] r v unfolding ms by simp
    moreover have "last_day ?c' w = last_day c w" by (simp add: last_day_def month_days_def dow_of_def)
    moreover have "while_option ?b ?c (Ok (dt_at z off l ?c'))
        = Some (Ok (dt_at z off l (?c'\<lparr>c_day := last_day ?c' w\<rparr>)))"
      using Suc v less by (intro Suc.hyps(1)) (auto simp: last_day_def month_days_def dow_of_def)
    ultimately show ?case
      using ne getWeekDay_at [OF Suc.prems(1,2)] by (subst while_option_unfold) simp
  qed
  then show ?thesis by (simp add: last_day_loop_def)
qed

lemma getLastDay_end:
  assumes "Locale_fromObject E no_locale_opts = Ok l0" "valid_cal c" "modern (c_year c)" "c_year c < 10000"
  shows "getLastDay E (dt_at z off l c) None = Ok (Some (month_days c))"
  by (simp add: getLastDay_def endOf_month [OF assms(2-4,1)])

lemma getLastDay_kind:
  assumes L: "Locale_fromObject E no_locale_opts = Ok l0" and w: "0 \<le> w" "w \<le> 6"
    and c: "valid_cal c" "modern (c_year c)" "c_year c < 10000"
  shows "getLastDay E (dt_at z off l c) (Some w) = Ok (Some (last_day c w))"
proof -
  have e: "last_day (end_of_month c) w = last_day c w" by (simp add: last_day_def)
  have "last_day_loop E w (dt_at z off l (end_of_month c))
      = Ok (dt_at z off l ((end_of_month c)\<lparr>c_day := last_day c w\<rparr>))"
    using last_day_loop_at [OF L w valid_end_of_month [OF c(1)]] c(2) last_day_greatest(2) [OF w, of c]
    by (simp add: e)
  then show ?thesis by (simp add: getLastDay_def endOf_month [OF c L])
qed

lemma getLastDay_hang:
  assumes "Locale_fromObject E no_locale_opts = Ok l0" "\<not> (0 \<le> w \<and> w \<le> 6)"
    "valid_cal c" "modern (c_year c)" "c_year c < 10000"
  shows "getLastDay E (dt_at z off l c) (Some w) = Hang"
  by (simp add: getLastDay_def endOf_month [OF assms(3-5,1)] last_day_loop_hang [OF assms(1,2)])

end

text \<open>Monday to Friday.\<close>

definition working :: "int \<Rightarrow> bool" where
  "working w \<longleftrightarrow> 1 \<le> w \<and> w \<le> 5"

definition last_working_day :: "cal \<Rightarrow> int" where
  "last_working_day c = (if working (dow_of c (month_days c)) then month_days c else last_day c 5)"

lemma in_week_working: "in_week (Some w) = working w"
  by (simp add: in_week_def working_def DAY_MON_def DAY_FRI_def)

lemma last_working_day_greatest:
  "working (dow_of c (last_working_day c))" "last_working_day c \<le> month_days c"
  "d \<le> month_days c \<Longrightarrow> working (dow_of c d) \<Longrightarrow> d \<le> last_working_day c"
proof -
  let ?w = "dow_of c (month_days c)"
  show "working (dow_of c (last_working_day c))" "last_working_day c \<le> month_days c"
    using last_day_greatest(1,2) [of 5 c] by (simp_all add: last_working_day_def working_def)
  assume d: "d \<le> month_days c" "working (dow_of c d)"
  show "d \<le> last_working_day c"
  proof (cases "working ?w")
    case False
    then have w: "?w = 0 \<or> ?w = 6" using dow_range [of c "month_days c"] by (auto simp: working_def)
    have "last_day c 5 = month_days c - (if ?w = 0 then 2 else 1)" using w by (auto simp: last_day_def)
    moreover have "d \<noteq> month_days c" using d False by auto
    moreover have "d \<noteq> month_days c - 1" if "?w = 0"
      using dow_of_add [of c "month_days c - 1" 1] that d(2) by (auto simp: working_def) presburger
    ultimately show ?thesis using w d(1) False by (auto simp: last_working_day_def)
  qed (use d in \<open>simp add: last_working_day_def\<close>)
qed

subsection \<open>Days of a kind and nearest weekdays\<close>

lemma cal_ms_next_month_day:
  assumes "valid_cal c"
  shows "cal_ms c + (month_days c + k - c_day c) * msPerDay = cal_ms (next_month k c)"
proof -
  have m: "0 \<le> c_month c - 1" "c_month c - 1 \<le> 11" using valid_calD [OF assms] by auto
  have "MakeDay (c_year c) (c_month c) k = MakeDay (c_year c) (c_month c - 1) 1 + month_days c + (k - 1)"
    using MakeDay_next_month [OF m, of "c_year c"] m
    by (simp add: MakeDay_add [of _ _ k] month_days_def daysInMonth_eq)
  then show ?thesis
    by (simp add: cal_ms_next_month) (simp add: cal_ms_day_clock day_no_def MakeDate_def
      MakeDay_add [of _ _ "c_day c"] algebra_simps)
qed

text \<open>The days of the month, up to the 30th, that fall on the day \<open>w\<close> of the week.\<close>

definition days_of_type :: "cal \<Rightarrow> int \<Rightarrow> int list" where
  "days_of_type c w = filter (\<lambda>d. dow_of c d = w) [1..min 30 (month_days c)]"

text \<open>Two days of the list are a week apart.\<close>

lemma length_days_of_type: "length (days_of_type c w) \<le> 5"
proof -
  define r where "r = (w - dow_of c 0 - 1) mod 7"
  have "set (days_of_type c w) \<subseteq> (\<lambda>k. 1 + r + 7 * k) ` {0..4}"
  proof
    fix d assume "d \<in> set (days_of_type c w)"
    then have d: "1 \<le> d" "d \<le> 30" "(dow_of c 0 + d) mod 7 = w"
      using dow_of_add [of c 0 d] by (auto simp: days_of_type_def)
    define k where "k = (dow_of c 0 + d) div 7 + (w - dow_of c 0 - 1) div 7"
    have "dow_of c 0 + d = 7 * ((dow_of c 0 + d) div 7) + w" using d(3) mult_div_mod_eq [of 7 "dow_of c 0 + d"] by simp
    moreover have "w - dow_of c 0 - 1 = 7 * ((w - dow_of c 0 - 1) div 7) + r"
      using mult_div_mod_eq [of 7 "w - dow_of c 0 - 1"] by (simp add: r_def)
    ultimately have k: "d = 1 + r + 7 * k" by (simp add: k_def)
    have "0 \<le> r" "r < 7" by (simp_all add: r_def)
    with k d have "k \<in> {0..4}" by simp
    with k show "d \<in> (\<lambda>k. 1 + r + 7 * k) ` {0..4}" by blast
  qed
  then have "card (set (days_of_type c w)) \<le> card ((\<lambda>k. 1 + r + 7 * k) ` {0..4})" by (intro card_mono) simp_all
  also have "\<dots> \<le> 5" by (rule order_trans [OF card_image_le]) simp_all
  finally have "card (set (days_of_type c w)) \<le> 5" .
  moreover have "card (set (days_of_type c w)) = length (days_of_type c w)"
    by (rule distinct_card) (simp add: days_of_type_def)
  ultimately show ?thesis by simp
qed

definition nearest_weekday :: "cal \<Rightarrow> int \<Rightarrow> int" where
  "nearest_weekday c d =
     (let t = min d (month_days c); w = dow_of c t in
      if working w then t
      else if w = 6 then (if t = 1 then 3 else t - 1)
      else (if t = month_days c then t - 2 else t + 1))"

lemma dow_of_set_day [simp]:
  "dow_of (c\<lparr>c_day := e\<rparr>) d = dow_of c d" "month_days (c\<lparr>c_day := e\<rparr>) = month_days c"
  by (simp_all add: dow_of_def month_days_def)

text \<open>The nearest weekday is a working day of the month, and none is nearer.\<close>

lemma nearest_weekday_nearest:
  assumes "1 \<le> d"
  shows "working (dow_of c (nearest_weekday c d))" "1 \<le> nearest_weekday c d"
    "nearest_weekday c d \<le> month_days c"
    "1 \<le> e \<Longrightarrow> e \<le> month_days c \<Longrightarrow> working (dow_of c e) \<Longrightarrow>
      \<bar>nearest_weekday c d - min d (month_days c)\<bar> \<le> \<bar>e - min d (month_days c)\<bar>"
proof -
  define t where "t = min d (month_days c)"
  define w where "w = dow_of c t"
  have dim: "28 \<le> month_days c" using daysInMonth_bounds(1) by (simp add: month_days_def)
  have t: "1 \<le> t" "t \<le> month_days c" using assms dim by (auto simp: t_def)
  have w: "0 \<le> w" "w \<le> 6" using dow_range by (auto simp: w_def)
  have near: "nearest_weekday c d = (if working w then t
      else if w = 6 then (if t = 1 then 3 else t - 1) else (if t = month_days c then t - 2 else t + 1))"
    by (simp add: nearest_weekday_def t_def w_def Let_def)
  have dow: "dow_of c (t + k) = (w + k) mod 7" for k by (simp add: w_def dow_of_add)
  consider "working w" | "w = 6" "t = 1" | "w = 6" "t \<noteq> 1" | "w = 0" "t = month_days c" | "w = 0" "t \<noteq> month_days c"
  proof -
    have "working w \<or> w = 0 \<or> w = 6" unfolding working_def using w by linarith
    then show ?thesis using that by blast
  qed
  note cs = this
  have ns: "\<not> working 6" "\<not> working 0" "working 1" "working 5" by (simp_all add: working_def)
  have "working (dow_of c (nearest_weekday c d)) \<and> 1 \<le> nearest_weekday c d \<and> nearest_weekday c d \<le> month_days c"
  proof (cases rule: cs)
    case 1
    then show ?thesis using t by (simp add: near w_def)
  next
    case 2
    then show ?thesis using dow [of 2] dim ns by (simp add: near)
  next
    case 3
    then show ?thesis using dow [of "- 1"] t ns by (simp add: near)
  next
    case 4
    then show ?thesis using dow [of "- 2"] t dim ns by (simp add: near)
  next
    case 5
    then show ?thesis using dow [of 1] t ns by (simp add: near)
  qed
  then show "working (dow_of c (nearest_weekday c d))" "1 \<le> nearest_weekday c d"
    "nearest_weekday c d \<le> month_days c" by auto
  assume e: "1 \<le> e" "e \<le> month_days c" "working (dow_of c e)"
  show "\<bar>nearest_weekday c d - min d (month_days c)\<bar> \<le> \<bar>e - min d (month_days c)\<bar>"
    unfolding t_def [symmetric]
  proof (cases rule: cs)
    case 2
    have "e \<noteq> t" "e \<noteq> t + 1" using e(3) dow [of 0] dow [of 1] 2 ns by auto
    then show "\<bar>nearest_weekday c d - t\<bar> \<le> \<bar>e - t\<bar>" using e 2 ns by (simp add: near)
  next
    case 3
    have "e \<noteq> t" using e(3) dow [of 0] 3 ns by auto
    then show "\<bar>nearest_weekday c d - t\<bar> \<le> \<bar>e - t\<bar>" using 3 ns by (simp add: near)
  next
    case 4
    have "e \<noteq> t" "e \<noteq> t - 1" using e(3) dow [of 0] dow [of "- 1"] 4 ns by auto
    then show "\<bar>nearest_weekday c d - t\<bar> \<le> \<bar>e - t\<bar>" using e 4 ns by (simp add: near)
  next
    case 5
    have "e \<noteq> t" using e(3) dow [of 0] 5 ns by auto
    then show "\<bar>nearest_weekday c d - t\<bar> \<le> \<bar>e - t\<bar>" using 5 ns by (simp add: near)
  qed (simp add: near)
qed

context sane_zone
begin

lemma getLastWeekDay_at:
  assumes L: "Locale_fromObject E no_locale_opts = Ok l0"
    and c: "valid_cal c" "modern (c_year c)" "c_year c < 10000"
  shows "getLastWeekDay E (dt_at z off l c) = Ok (Some (last_working_day c))"
proof -
  have "getWeekDay (dt_at z off l (end_of_month c)) = Some (dow_of c (month_days c))"
    using getWeekDay_at [OF valid_end_of_month [OF c(1)]] c(2) dow_of_day [of "end_of_month c"]
    by simp
  then show ?thesis
    using getLastDay_kind [OF L _ _ c, of 5]
    by (simp add: getLastWeekDay_def endOf_month [OF c L] in_week_working last_working_day_def DAY_FRI_def)
qed

lemma set_day_at:
  assumes "valid_cal c" "modern (c_year c)" "1 \<le> d" "d \<le> month_days c"
  shows "DateTime_set E (dt_at z off l c) [(''day'', VNum d)] = Ok (dt_at z off l (c\<lparr>c_day := d\<rparr>))"
    "valid_cal (c\<lparr>c_day := d\<rparr>)" "getWeekDay (dt_at z off l (c\<lparr>c_day := d\<rparr>)) = Some (dow_of c d)"
proof -
  show v: "valid_cal (c\<lparr>c_day := d\<rparr>)"
    using valid_calD [OF assms(1)] assms(3,4) by (intro valid_calI) (auto simp: month_days_def)
  show "DateTime_set E (dt_at z off l c) [(''day'', VNum d)] = Ok (dt_at z off l (c\<lparr>c_day := d\<rparr>))"
    using set_modern [OF assms(1) unit_names_dt(3), of d] assms
    by (simp add: set_ok_def cal_set_def month_days_def)
  show "getWeekDay (dt_at z off l (c\<lparr>c_day := d\<rparr>)) = Some (dow_of c d)"
    using getWeekDay_at [OF v] assms(2) dow_of_day [of "c\<lparr>c_day := d\<rparr>"] by simp
qed

lemma getDaysOfType_at:
  assumes c: "valid_cal c" "modern (c_year c)" "c_year c < 10000"
  shows "getDaysOfType E (dt_at z off l c) w = Ok (map Some (days_of_type c w))"
proof -
  define body where "body = (\<lambda>i days.
       rbind (DateTime_set E (dt_at z off l c) [(''day'', VNum i)]) (\<lambda>newTime.
         if differs (month newTime) (month (dt_at z off l c)) then Ok (Stop days)
         else Ok (Next (if getWeekDay newTime = Some w then days @ [day newTime] else days))))"
  have dim: "28 \<le> month_days c" "month_days c \<le> 31" using daysInMonth_bounds by (simp_all add: month_days_def)
  have in_month: "body i days = Ok (Next (if dow_of c i = w then days @ [Some i] else days))"
    if "1 \<le> i" "i \<le> month_days c" for i days
    using set_day_at [OF c(1,2) that] by (simp add: body_def differs_def)
  have beyond: "body i days = Ok (Stop days)" if "month_days c < i" "i \<le> 30" for i days
  proof -
    have v: "valid_cal (next_month (i - month_days c) c)"
      using that dim daysInMonth_bounds(1) [of "c_year c" "c_month c + 1"] c(1)
      by (intro valid_next_month) auto
    have "DateTime_set E (dt_at z off l c) [(''day'', VNum i)]
        = Ok (dt_at z off l (next_month (i - month_days c) c))"
      using set_day_overflow [OF c(1,2) _ _ c(3), of i] that dim
        cal_ms_next_month_day [OF c(1), of "i - month_days c"] v by simp
    then show ?thesis by (simp add: body_def differs_def next_month_def)
  qed
  have "foldB body xs days = Ok (Next (days @ map Some (filter (\<lambda>d. dow_of c d = w) xs)))"
    if "set xs \<subseteq> {1..month_days c}" for xs days
    using that by (induction xs arbitrary: days) (auto simp: in_month)
  then have first: "foldB body [1..min 30 (month_days c)] [] = Ok (Next (map Some (days_of_type c w)))"
    by (simp add: days_of_type_def)
  have "[1..30] = [1..min 30 (month_days c)] @ [min 30 (month_days c) + 1..30]"
    using dim by (intro upto_split2) auto
  moreover have "\<exists>r. foldB body [min 30 (month_days c) + 1..30] ds = Ok r \<and> ctl_state r = ds" for ds
  proof (cases "month_days c < 30")
    case True
    then have "[min 30 (month_days c) + 1..30] = (month_days c + 1) # [month_days c + 2..30]"
      by (simp add: upto_rec1 add.commute)
    then show ?thesis using beyond [of "month_days c + 1"] True by simp
  qed simp
  ultimately have "rmap ctl_state (foldB body [1..30] []) = Ok (map Some (days_of_type c w))"
    by (metis (mono_tags, lifting) ctl.case(1) first foldB_append rbind.simps(1) rmap.simps(1))
  then show ?thesis by (simp add: getDaysOfType_def body_def)
qed

lemma isNearestWeekDay_at:
  assumes c: "valid_cal c" "modern (c_year c)" and d: "1 \<le> d"
  shows "isNearestWeekDay E (dt_at z off l c) d = Ok (c_day c = nearest_weekday c d)"
proof -
  define t where "t = min d (month_days c)"
  have dim: "28 \<le> month_days c" using daysInMonth_bounds(1) by (simp add: month_days_def)
  have t: "1 \<le> t" "t \<le> month_days c" using d dim by (auto simp: t_def)
  have "setDayWithinMonth E (dt_at z off l c) d = DateTime_set E (dt_at z off l c) [(''day'', VNum t)]"
    by (simp add: setDayWithinMonth_def dt_daysInMonth_def t_def month_days_def min_def)
  then have set: "setDayWithinMonth E (dt_at z off l c) d = Ok (dt_at z off l (c\<lparr>c_day := t\<rparr>))"
    using set_day_at(1) [OF c t] by simp
  have w: "getWeekDay (dt_at z off l c) = Some (dow c)" using getWeekDay_at [OF c] .
  have dm: "dt_daysInMonth (dt_at z off l c) = Some (month_days c)" by (simp add: dt_daysInMonth_def month_days_def)
  have near: "nearest_weekday c d = (if working (dow_of c t) then t
      else if dow_of c t = 6 then (if t = 1 then 3 else t - 1) else (if t = month_days c then t - 2 else t + 1))"
    by (simp add: nearest_weekday_def t_def Let_def)
  show ?thesis
  proof (cases "working (dow c)")
    case False
    then have "c_day c \<noteq> nearest_weekday c d"
      using nearest_weekday_nearest(1) [OF d, of c] by (metis dow_of_day)
    with False show ?thesis by (simp add: isNearestWeekDay_def isWeekday_def w in_week_working)
  next
    case True
    have eq: "c_day c = t \<Longrightarrow> dow_of c t = dow c" using dow_of_day [of c] by simp
    show ?thesis
      using True eq set_day_at(3) [OF c t, of l] dow_range [of c t] unfolding near
      by (auto simp: isNearestWeekDay_def isWeekday_def w in_week_working set differs_def isDay_def dm
          DAY_SAT_def DAY_SUN_def working_def)
  qed
qed

end

end
