(* ===== verification/MatchSpec.thy ===== *)
theory MatchSpec
  imports MatcherLaws
begin

text \<open>
  What a cron expression means, on the calendar fields alone, and the proofs that the matcher decides
  it: the simplification of the steps keeps the meaning, a time matches exactly when its fields have
  the meaning, and every matching time is among the candidates of the merged expressions.
\<close>

subsection \<open>The meaning of an expression\<close>

definition field_holds :: "fld \<Rightarrow> cron_field \<Rightarrow> int \<Rightarrow> bool" where
  "field_holds f x v \<longleftrightarrow> f_all x \<or>
     (if f_omit x then f = SECOND \<and> v = 0
      else v \<in> set (opt_list (f_values x)) \<or>
        (\<exists>r\<in>set (opt_list (f_ranges x)). r_from r \<le> v \<and> v \<le> r_to r) \<or>
        (\<exists>s\<in>set (opt_list (f_steps x)). s_from s \<le> v \<and> v \<le> s_to s \<and> s_step s dvd v - s_from s))"

text \<open>The nth day of a kind, as the code decides it: the month must have more such days, up to the
  30th, than the number asked for.\<close>

definition nth_day_holds :: "cal \<Rightarrow> nth_day \<Rightarrow> bool" where
  "nth_day_holds c n \<longleftrightarrow> (let ds = days_of_type c (n_day_of_week n) in
     n_instance n < int (length ds) \<and> js_nth ds (n_instance n - 1) = Some (c_day c))"

definition cal_field :: "fld \<Rightarrow> cal \<Rightarrow> int" where
  "cal_field f c = (case f of SECOND \<Rightarrow> c_second c | MINUTE \<Rightarrow> c_minute c | HOUR \<Rightarrow> c_hour c
     | DAY_OF_MONTH \<Rightarrow> c_day c | MONTH \<Rightarrow> c_month c | DAY_OF_WEEK \<Rightarrow> dow c | YEAR \<Rightarrow> c_year c)"

definition day_of_month_holds :: "cron_field \<Rightarrow> cal \<Rightarrow> bool" where
  "day_of_month_holds x c \<longleftrightarrow> \<not> f_omit x \<and>
     (f_lastWeekday x \<and> c_day c = last_working_day c \<or> f_lastDay x \<and> c_day c = month_days c \<or>
      (\<exists>d\<in>set (opt_list (f_nearestWeekdays x)). c_day c = nearest_weekday c d) \<or>
      field_holds DAY_OF_MONTH x (c_day c))"

definition day_of_week_holds :: "cron_field \<Rightarrow> cal \<Rightarrow> bool" where
  "day_of_week_holds x c \<longleftrightarrow> \<not> f_omit x \<and>
     (f_lastDay x \<and> dow c = 6 \<or> (\<exists>w\<in>set (opt_list (f_lastDays x)). c_day c = last_day c w) \<or>
      (\<exists>n\<in>set (opt_list (f_nthDays x)). nth_day_holds c n) \<or> field_holds DAY_OF_WEEK x (dow c))"

definition cron_matches :: "cron_expr \<Rightarrow> cal \<Rightarrow> bool" where
  "cron_matches e c \<longleftrightarrow>
     (\<forall>f\<in>{SECOND, MINUTE, HOUR, MONTH, YEAR}. field_holds f (e f) (cal_field f c)) \<and>
     (day_of_month_holds (e DAY_OF_MONTH) c \<or> day_of_week_holds (e DAY_OF_WEEK) c)"

text \<open>What the parser does not check: steps are positive, the last days are days of the week, the
  nearest weekdays are days.\<close>

definition sound_expr :: "cron_expr \<Rightarrow> bool" where
  "sound_expr e \<longleftrightarrow> wf_expr e \<and>
     (\<forall>f. (\<forall>s\<in>set (opt_list (f_steps (e f))). 1 \<le> s_step s) \<and>
        (\<forall>w\<in>set (opt_list (f_lastDays (e f))). 0 \<le> w \<and> w \<le> 6) \<and>
        (\<forall>d\<in>set (opt_list (f_nearestWeekdays (e f))). 1 \<le> d))"

lemma opt_all_list: "opt_all P xs \<Longrightarrow> x \<in> set (opt_list xs) \<Longrightarrow> P x"
  by (auto simp: opt_all_def list_all_iff opt_list_def split: option.splits)

lemma wf_fieldD:
  assumes "wf_expr e"
  shows "v \<in> set (opt_list (f_values (e f))) \<Longrightarrow> wf_value f v"
    "r \<in> set (opt_list (f_ranges (e f))) \<Longrightarrow> wf_range f r"
    "s \<in> set (opt_list (f_steps (e f))) \<Longrightarrow> wf_step f s"
    "f_all (e f) \<Longrightarrow> e f = empty_field\<lparr>f_all := True\<rparr>"
    "f_omit (e f) \<Longrightarrow> e f = empty_field\<lparr>f_omit := True\<rparr> \<and> f \<in> {SECOND, DAY_OF_WEEK, DAY_OF_MONTH}"
    "f \<noteq> DAY_OF_WEEK \<Longrightarrow> f_nthDays (e f) = None" "f \<noteq> DAY_OF_WEEK \<Longrightarrow> f_lastDays (e f) = None"
    "f \<noteq> DAY_OF_MONTH \<Longrightarrow> \<not> f_lastWeekday (e f)"
    "f \<noteq> DAY_OF_MONTH \<Longrightarrow> f_nearestWeekdays (e f) = None"
    "f \<notin> {DAY_OF_WEEK, DAY_OF_MONTH} \<Longrightarrow> \<not> f_lastDay (e f)"
proof -
  have w: "wf_field f (e f) \<or> f = SECOND \<and> e f = empty_field\<lparr>f_omit := True\<rparr>"
    using assms by (simp add: wf_expr_def)
  then have p: "wf_parts f (e f)" by (auto simp: wf_field_def wf_parts_def empty_field_def)
  show "v \<in> set (opt_list (f_values (e f))) \<Longrightarrow> wf_value f v"
    "r \<in> set (opt_list (f_ranges (e f))) \<Longrightarrow> wf_range f r"
    "s \<in> set (opt_list (f_steps (e f))) \<Longrightarrow> wf_step f s"
    using p by (auto simp: wf_parts_def dest: opt_all_list)
  show "f_all (e f) \<Longrightarrow> e f = empty_field\<lparr>f_all := True\<rparr>"
    "f_omit (e f) \<Longrightarrow> e f = empty_field\<lparr>f_omit := True\<rparr> \<and> f \<in> {SECOND, DAY_OF_WEEK, DAY_OF_MONTH}"
    using w by (auto simp: wf_field_def empty_field_def)
  show "f \<noteq> DAY_OF_WEEK \<Longrightarrow> f_nthDays (e f) = None" "f \<noteq> DAY_OF_WEEK \<Longrightarrow> f_lastDays (e f) = None"
    "f \<noteq> DAY_OF_MONTH \<Longrightarrow> \<not> f_lastWeekday (e f)"
    "f \<noteq> DAY_OF_MONTH \<Longrightarrow> f_nearestWeekdays (e f) = None"
    "f \<notin> {DAY_OF_WEEK, DAY_OF_MONTH} \<Longrightarrow> \<not> f_lastDay (e f)"
    using p by (auto simp: wf_parts_def)
qed

subsection \<open>Simplification\<close>

definition step_list :: "cron_step \<Rightarrow> int list" where
  "step_list s = map (\<lambda>k. s_from s + int k * s_step s) [0..<nat ((s_to s - s_from s) div s_step s + 1)]"

definition simple_field :: "cron_field \<Rightarrow> cron_field" where
  "simple_field x = (case f_steps x of None \<Rightarrow> x
     | Some ss \<Rightarrow> x\<lparr>f_values := Some (opt_list (f_values x) @ concat (map step_list ss)), f_steps := None\<rparr>)"

definition simple_expr :: "cron_expr \<Rightarrow> cron_expr" where
  "simple_expr e = (\<lambda>f. simple_field (e f))"

lemma set_step_list:
  assumes "1 \<le> s_step s"
  shows "v \<in> set (step_list s) \<longleftrightarrow> s_from s \<le> v \<and> v \<le> s_to s \<and> s_step s dvd v - s_from s"
  using set_getValues [OF _ getValues_pos, of "s_step s" v "s_from s" "s_to s"] assms
  by (simp add: step_list_def)

lemma steps_values_list:
  "\<forall>s\<in>set ss. 1 \<le> s_step s \<Longrightarrow> steps_values (Some ss) = Ok (concat (map step_list ss))"
proof -
  assume "\<forall>s\<in>set ss. 1 \<le> s_step s"
  then have "mapM (\<lambda>s. getValues (s_from s) (s_to s) (s_step s)) ss = Ok (map step_list ss)"
    by (intro mapM_Ok_map) (auto simp: step_list_def intro!: getValues_pos)
  then show ?thesis by (simp add: steps_values_def opt_list_def)
qed

lemma simple_field_simps [simp]:
  "f_all (simple_field x) = f_all x" "f_omit (simple_field x) = f_omit x"
  "f_ranges (simple_field x) = f_ranges x" "f_steps (simple_field x) = None"
  "f_nthDays (simple_field x) = f_nthDays x" "f_lastDay (simple_field x) = f_lastDay x"
  "f_lastWeekday (simple_field x) = f_lastWeekday x"
  "f_nearestWeekdays (simple_field x) = f_nearestWeekdays x"
  "f_lastDays (simple_field x) = f_lastDays x"
  by (simp_all add: simple_field_def split: option.split)

lemma set_simple_values:
  "set (opt_list (f_values (simple_field x)))
   = set (opt_list (f_values x)) \<union> (\<Union>s\<in>set (opt_list (f_steps x)). set (step_list s))"
  by (auto simp: simple_field_def opt_list_def split: option.split)

text \<open>Simplification keeps the meaning.\<close>

lemma field_holds_simple:
  assumes "sound_expr e"
  shows "field_holds f (simple_field (e f)) v = field_holds f (e f) v"
proof -
  have "\<forall>s\<in>set (opt_list (f_steps (e f))). 1 \<le> s_step s" using assms by (simp add: sound_expr_def)
  then have "v \<in> set (opt_list (f_values (simple_field (e f)))) \<longleftrightarrow> v \<in> set (opt_list (f_values (e f))) \<or>
      (\<exists>s\<in>set (opt_list (f_steps (e f))). s_from s \<le> v \<and> v \<le> s_to s \<and> s_step s dvd v - s_from s)"
    by (auto simp: set_simple_values set_step_list)
  then show ?thesis by (auto simp: field_holds_def) (simp_all add: opt_list_def)
qed

lemma cron_matches_simple: "sound_expr e \<Longrightarrow> cron_matches (simple_expr e) c = cron_matches e c"
  by (simp add: cron_matches_def day_of_month_holds_def day_of_week_holds_def field_holds_simple simple_expr_def)

lemma simplifyField_sound:
  assumes "\<forall>s\<in>set (opt_list (f_steps (e f))). 1 \<le> s_step s"
  shows "simplifyField f e = Ok (e(f := simple_field (e f)))"
  using assms
  by (cases "f_steps (e f)") (auto simp: simplifyField_def simple_field_def steps_values_list opt_list_def)

lemma simplifyExpr_sound:
  assumes "sound_expr e"
  shows "foldM simplifyField matcher_FIELDS e = Ok (simple_expr e)"
proof -
  have s: "\<forall>s\<in>set (opt_list (f_steps (e f))). 1 \<le> s_step s" for f
    using assms by (simp add: sound_expr_def)
  have "foldM simplifyField fs g = Ok (\<lambda>f. if f \<in> set fs then simple_field (g f) else g f)"
    if "\<And>f. \<forall>s\<in>set (opt_list (f_steps (g f))). 1 \<le> s_step s" "distinct fs" for fs and g :: cron_expr
    using that
  proof (induction fs arbitrary: g)
    case (Cons f fs)
    have "foldM simplifyField fs (g(f := simple_field (g f)))
        = Ok (\<lambda>h. if h \<in> set fs then simple_field ((g(f := simple_field (g f))) h)
            else (g(f := simple_field (g f))) h)"
      by (rule Cons.IH) (use Cons.prems in \<open>auto simp: opt_list_def\<close>)
    then show ?case using Cons.prems by (auto simp: simplifyField_sound fun_eq_iff)
  qed simp
  note gen = this
  have "set matcher_FIELDS = UNIV" "distinct matcher_FIELDS"
    by (auto simp: matcher_FIELDS_def intro: fld.exhaust)
  with gen [of e matcher_FIELDS] s show ?thesis by (simp add: simple_expr_def)
qed

lemma simplifyExprs_sound:
  assumes "list_all sound_expr (expressions es)"
  shows "simplifyExprs es = Ok (es\<lparr>expressions := map simple_expr (expressions es)\<rparr>)"
  using assms by (simp add: simplifyExprs_def mapM_Ok_map [where g = simple_expr] list_all_iff simplifyExpr_sound)

subsection \<open>The matcher decides the meaning\<close>

lemma isFieldMatches_holds:
  "f_steps (e f) = None \<Longrightarrow> isFieldMatches e f (Some v) = field_holds f (e f) v"
  by (auto simp: isFieldMatches_def field_holds_def Let_def list_ex_iff isInRange_def opt_list_def)

context sane_zone
begin

lemma day_of_month_at:
  assumes L: "Locale_fromObject E no_locale_opts = Ok l0"
    and c: "valid_cal c" "modern (c_year c)" "c_year c < 10000"
    and e: "f_steps (e DAY_OF_MONTH) = None"
      "\<forall>d\<in>set (opt_list (f_nearestWeekdays (e DAY_OF_MONTH))). 1 \<le> d"
  shows "isDayOfMonthMatches E e DAY_OF_MONTH (dt_at z off l c) = Ok (day_of_month_holds (e DAY_OF_MONTH) c)"
proof -
  let ?x = "e DAY_OF_MONTH"
  have "existsM (isNearestWeekDay E (dt_at z off l c)) (opt_list (f_nearestWeekdays ?x))
      = Ok (list_ex (\<lambda>d. c_day c = nearest_weekday c d) (opt_list (f_nearestWeekdays ?x)))"
    by (rule existsM_Ok) (use e(2) isNearestWeekDay_at [OF c(1,2)] in auto)
  then show ?thesis
    using e(1) by (auto simp: isDayOfMonthMatches_def day_of_month_holds_def Let_def getLastWeekDay_at [OF L c]
        getLastDay_end [OF L c] isFieldMatches_holds list_ex_iff differs_def)
qed

lemma nth_matches_at:
  assumes "valid_cal c" "modern (c_year c)" "c_year c < 10000"
  shows "nth_matches E (dt_at z off l c) n = Ok (nth_day_holds c n)"
  by (auto simp: nth_matches_def getDaysOfType_at [OF assms] nth_day_holds_def Let_def js_nth_def differs_def
      split: option.split if_splits)

lemma day_of_week_at:
  assumes L: "Locale_fromObject E no_locale_opts = Ok l0"
    and c: "valid_cal c" "modern (c_year c)" "c_year c < 10000"
    and e: "f_steps (e DAY_OF_WEEK) = None"
      "\<forall>w\<in>set (opt_list (f_lastDays (e DAY_OF_WEEK))). 0 \<le> w \<and> w \<le> 6"
  shows "isDayOfWeekMatches E e DAY_OF_WEEK (dt_at z off l c) = Ok (day_of_week_holds (e DAY_OF_WEEK) c)"
proof -
  let ?x = "e DAY_OF_WEEK"
  have "existsM (\<lambda>d. rmap (\<lambda>d'. \<not> differs (day (dt_at z off l c)) d') (getLastDay E (dt_at z off l c) (Some d)))
      (opt_list (f_lastDays ?x)) = Ok (list_ex (\<lambda>w. c_day c = last_day c w) (opt_list (f_lastDays ?x)))"
    by (rule existsM_Ok) (use e(2) getLastDay_kind [OF L _ _ c] in \<open>auto simp: differs_def\<close>)
  moreover have "existsM (nth_matches E (dt_at z off l c)) (opt_list (f_nthDays ?x))
      = Ok (list_ex (nth_day_holds c) (opt_list (f_nthDays ?x)))"
    by (rule existsM_Ok) (simp add: nth_matches_at [OF c])
  ultimately show ?thesis
    using e(1) by (auto simp: isDayOfWeekMatches_def day_of_week_holds_def Let_def getWeekDay_at [OF c(1,2)]
        isFieldMatches_holds list_ex_iff DAY_SAT_def)
qed

lemma isExprMatches_at:
  assumes L: "Locale_fromObject E no_locale_opts = Ok l0"
    and c: "valid_cal c" "modern (c_year c)" "c_year c < 10000" and e: "sound_expr e"
  shows "isExprMatches E (simple_expr e) (dt_at z off l c) = Ok (cron_matches e c)"
proof -
  let ?e = "simple_expr e" and ?t = "dt_at z off l c"
  have s: "f_steps (?e f) = None" for f by (simp add: simple_expr_def)
  have d: "\<forall>w\<in>set (opt_list (f_lastDays (?e f))). 0 \<le> w \<and> w \<le> 6"
    "\<forall>d\<in>set (opt_list (f_nearestWeekdays (?e f))). 1 \<le> d" for f
    using e by (simp_all add: sound_expr_def simple_expr_def)
  have "list_all (\<lambda>field. isFieldMatches ?e field (time_field field ?t)) FIELDS_SANS_DAY_REVERSE
      = (\<forall>f\<in>{SECOND, MINUTE, HOUR, MONTH, YEAR}. field_holds f (?e f) (cal_field f c))"
    by (auto simp: FIELDS_SANS_DAY_REVERSE_def time_field_def cal_field_def isFieldMatches_holds [of ?e, OF s])
  then have "isExprMatches E ?e ?t = Ok (cron_matches ?e c)"
    using day_of_month_at [where e = ?e, OF L c s d(2)] day_of_week_at [where e = ?e, OF L c s d(1)]
    by (auto simp: isExprMatches_def cron_matches_def)
  then show ?thesis by (simp add: cron_matches_simple [OF e])
qed

lemma isExprsMatches_at:
  assumes L: "Locale_fromObject E no_locale_opts = Ok l0"
    and c: "valid_cal c" "modern (c_year c)" "c_year c < 10000"
    and e: "list_all sound_expr (expressions es)"
  shows "isExprsMatches E (es\<lparr>expressions := map simple_expr (expressions es)\<rparr>) (dt_at z off l c)
    = Ok (list_ex (\<lambda>e. cron_matches e c) (expressions es))"
proof -
  have "isExprsMatches E (es\<lparr>expressions := map simple_expr (expressions es)\<rparr>) (dt_at z off l c)
      = existsM (\<lambda>e. isExprMatches E (simple_expr e) (dt_at z off l c)) (expressions es)"
  proof -
    have "existsM f (map g xs) = existsM (\<lambda>x. f (g x)) xs" for f :: "cron_expr \<Rightarrow> bool res" and g xs
      by (induction xs) (auto intro: rbind_cong)
    then show ?thesis by (simp add: isExprsMatches_def)
  qed
  also have "\<dots> = Ok (list_ex (\<lambda>e. cron_matches e c) (expressions es))"
    by (rule existsM_Ok) (use isExprMatches_at [OF L c] e in \<open>simp add: list_all_iff\<close>)
  finally show ?thesis .
qed

end

subsection \<open>The candidates of the merged expressions\<close>

text \<open>The values a field of one expression contributes to the candidates.\<close>

definition field_cands :: "fld \<Rightarrow> cron_field \<Rightarrow> int \<Rightarrow> int set" where
  "field_cands f x y =
     (if f_omit x then (if f = SECOND then {0} else {})
      else if f = DAY_OF_WEEK then {1..31}
      else set (opt_list (f_values x)) \<union>
        (if f_all x \<or> f_lastDay x \<or> f_lastWeekday x \<or> \<not> isBlank (f_lastDays x) \<or>
            \<not> isBlank (f_nearestWeekdays x) \<or> \<not> isBlank (f_nthDays x)
         then {if f = YEAR then y else fst (matcher_FIELD_INFO f)..snd (matcher_FIELD_INFO f)}
         else (\<Union>r\<in>set (opt_list (f_ranges x)). {r_from r..r_to r})))"

lemma expandField_cands:
  assumes "f_steps (e f) = None"
  shows "\<exists>vs. expandField e f (Some y) = Ok vs \<and> set vs = field_cands f (e f) y"
proof -
  have r: "mapM (\<lambda>r. getValues (r_from r) (r_to r) 1) (opt_list (f_ranges (e f)))
      = Ok (map (\<lambda>r. [r_from r..r_to r]) (opt_list (f_ranges (e f))))"
    by (rule mapM_Ok_map) simp
  show ?thesis
    using assms r
    by (auto simp: expandField_def field_cands_def Let_def steps_values_def matcher_FIELD_INFO_def
        opt_list_def [of None] split: prod.split)
qed

lemma finite_field_cands [simp]: "finite (field_cands f x y)"
  by (simp add: field_cands_def)

definition merged_values :: "cron_expr list \<Rightarrow> int \<Rightarrow> fld \<Rightarrow> int list" where
  "merged_values es y f = sorted_list_of_set
     (if f = DAY_OF_WEEK then {}
      else if f = DAY_OF_MONTH then
        \<Union>e\<in>set es. field_cands DAY_OF_MONTH (e DAY_OF_MONTH) y \<union> field_cands DAY_OF_WEEK (e DAY_OF_WEEK) y
      else \<Union>e\<in>set es. field_cands f (e f) y)"

lemma expandFields_cands:
  assumes "\<forall>e\<in>set (expressions exprs). f_steps (e f) = None"
  shows "expandFields exprs f (Some y)
    = Ok (sorted_list_of_set (\<Union>e\<in>set (expressions exprs). field_cands f (e f) y))"
proof -
  have "\<exists>vss. mapM (\<lambda>expr. expandField expr f (Some y)) es = Ok vss
      \<and> set (concat vss) = (\<Union>e\<in>set es. field_cands f (e f) y)"
    if "\<forall>e\<in>set es. f_steps (e f) = None" for es
    using that
  proof (induction es)
    case (Cons e es)
    then obtain vss where "mapM (\<lambda>expr. expandField expr f (Some y)) es = Ok vss"
      "set (concat vss) = (\<Union>e\<in>set es. field_cands f (e f) y)" by auto
    moreover obtain vs where "expandField e f (Some y) = Ok vs" "set vs = field_cands f (e f) y"
      using expandField_cands [of e f y] Cons.prems by auto
    ultimately show ?case by simp
  qed simp
  from this [OF assms] show ?thesis by (auto simp: expandFields_def sort_dedupe simp del: set_concat)
qed

lemma mergeExprs_values:
  assumes "\<forall>e\<in>set (expressions exprs). \<forall>f. f_steps (e f) = None"
  shows "mergeExprs exprs (Some y) = Ok (merged_values (expressions exprs) y)"
proof -
  have ex: "expandFields exprs f (Some y)
      = Ok (sorted_list_of_set (\<Union>e\<in>set (expressions exprs). field_cands f (e f) y))" for f
    by (rule expandFields_cands) (use assms in auto)
  have dom: "sort (dedupe (sorted_list_of_set (\<Union>e\<in>A. field_cands DAY_OF_MONTH (e DAY_OF_MONTH) y) @
      sorted_list_of_set (\<Union>e\<in>A. field_cands DAY_OF_WEEK (e DAY_OF_WEEK) y)))
    = sorted_list_of_set (\<Union>e\<in>A. field_cands DAY_OF_MONTH (e DAY_OF_MONTH) y \<union>
        field_cands DAY_OF_WEEK (e DAY_OF_WEEK) y)" if "finite A" for A
    using that by (simp add: sort_dedupe UN_Un_distrib)
  show ?thesis
    unfolding mergeExprs_def matcher_FIELDS_def
    by (simp add: ex dom) (auto simp: fun_eq_iff merged_values_def intro: fld.exhaust)
qed

lemma field_cands_bounds:
  assumes "sound_expr e" "v \<in> field_cands f (simple_field (e f)) y" "f \<noteq> DAY_OF_WEEK"
  shows "(if f = YEAR then min y 1970 \<le> v \<and> v \<le> 3000
    else fst (matcher_FIELD_INFO f) \<le> v \<and> v \<le> snd (matcher_FIELD_INFO f))"
proof -
  have wf: "wf_expr e" and st: "\<forall>s\<in>set (opt_list (f_steps (e f))). 1 \<le> s_step s"
    using assms(1) by (simp_all add: sound_expr_def)
  let ?P = "\<lambda>v. if f = YEAR then min y 1970 \<le> v \<and> v \<le> 3000
    else fst (matcher_FIELD_INFO f) \<le> v \<and> v \<le> snd (matcher_FIELD_INFO f)"
  have val: "wf_value f v \<Longrightarrow> ?P v" for v
    using assms(3) by (cases f) (auto simp: wf_value_def FIELD_INFO_def matcher_FIELD_INFO_def)
  have vals: "?P v" if "v \<in> set (opt_list (f_values (simple_field (e f))))" for v
  proof -
    have "wf_value f v"
      using that wf_fieldD(1,3) [OF wf] st
      by (fastforce simp: set_simple_values set_step_list wf_step_def wf_value_def)
    then show ?thesis by (rule val)
  qed
  have rng: "?P v" if "r \<in> set (opt_list (f_ranges (e f)))" "r_from r \<le> v" "v \<le> r_to r" for r v
    using wf_fieldD(2) [OF wf that(1)] that(2,3) by (intro val) (simp add: wf_range_def wf_value_def)
  have all: "?P v" if "(if f = YEAR then y else fst (matcher_FIELD_INFO f)) \<le> v" "v \<le> snd (matcher_FIELD_INFO f)" for v
    using that by (auto simp: matcher_FIELD_INFO_def split: if_splits)
  have omit: "f = SECOND \<Longrightarrow> ?P 0" by (simp add: matcher_FIELD_INFO_def)
  show ?thesis
    using assms(2,3) vals rng all omit by (auto simp: field_cands_def split: if_split_asm)
qed

lemma set_merged_values:
  "set (merged_values es y f) = (if f = DAY_OF_WEEK then {}
      else if f = DAY_OF_MONTH then
        \<Union>e\<in>set es. field_cands DAY_OF_MONTH (e DAY_OF_MONTH) y \<union> field_cands DAY_OF_WEEK (e DAY_OF_WEEK) y
      else \<Union>e\<in>set es. field_cands f (e f) y)"
  by (simp add: merged_values_def)

lemma merged_values_ok:
  assumes "list_all sound_expr es" "modern y"
  shows "merged_ok (merged_values (map simple_expr es) y)"
proof -
  have b: "if f = YEAR then min y 1970 \<le> v \<and> v \<le> 3000
      else fst (matcher_FIELD_INFO f) \<le> v \<and> v \<le> snd (matcher_FIELD_INFO f)"
    if "v \<in> set (merged_values (map simple_expr es) y f)" "f \<noteq> DAY_OF_WEEK" "f \<noteq> DAY_OF_MONTH" for f v
    using that assms(1) field_cands_bounds by (auto simp: set_merged_values list_all_iff simple_expr_def)
  have d: "1 \<le> v" if v: "v \<in> set (merged_values (map simple_expr es) y DAY_OF_MONTH)" for v
  proof -
    obtain e where e: "e \<in> set es" "v \<in> field_cands DAY_OF_MONTH (simple_field (e DAY_OF_MONTH)) y
        \<or> v \<in> field_cands DAY_OF_WEEK (simple_field (e DAY_OF_WEEK)) y"
      using v by (auto simp: set_merged_values simple_expr_def)
    then have "sound_expr e" using assms(1) by (simp add: list_all_iff)
    with e(2) show ?thesis
      using field_cands_bounds [of e v DAY_OF_MONTH y]
      by (auto simp: matcher_FIELD_INFO_def field_cands_def [of DAY_OF_WEEK] split: if_split_asm)
  qed
  have s: "sorted_wrt (<) (merged_values (map simple_expr es) y f)" for f
    by (simp add: merged_values_def)
  show ?thesis
    using s d b [of _ SECOND] b [of _ MINUTE] b [of _ HOUR] b [of _ MONTH] b [of _ YEAR] assms(2)
    by (fastforce simp: merged_ok_def matcher_FIELD_INFO_def modern_def)
qed

text \<open>A matching time is a candidate.\<close>

lemma field_holds_cands:
  assumes "field_holds f x v" "f_all x \<Longrightarrow> \<not> f_omit x" "f \<noteq> DAY_OF_WEEK" "f_steps x = None"
    "(if f = YEAR then y else fst (matcher_FIELD_INFO f)) \<le> v" "v \<le> snd (matcher_FIELD_INFO f)"
  shows "v \<in> field_cands f x y"
  using assms by (auto simp: field_holds_def field_cands_def opt_list_def [of None] split: if_split_asm)

lemma cron_matches_cand:
  assumes e: "e \<in> set es" "sound_expr e" and m: "cron_matches e c" and c: "valid_cal c"
    and y: "y \<le> c_year c" "c_year c \<le> 2099" and ms: "c_millisecond c = c_millisecond c0"
  shows "is_cand (merged_values (map simple_expr es) y) c0 c"
proof -
  have wf: "wf_expr e" using e(2) by (simp add: sound_expr_def)
  have ao: "f_all (e f) \<Longrightarrow> \<not> f_omit (e f)" for f
    using wf_fieldD(4) [OF wf, of f] by (auto simp: empty_field_def dest: arg_cong [of _ _ f_omit])
  note v = valid_calD [OF c]
  have b: "(if f = YEAR then y else fst (matcher_FIELD_INFO f)) \<le> cal_field f c \<and>
      cal_field f c \<le> snd (matcher_FIELD_INFO f)" if "f \<noteq> DAY_OF_WEEK" for f
    using that v y daysInMonth_bounds(2) [of "c_year c" "c_month c"]
    by (cases f) (auto simp: matcher_FIELD_INFO_def cal_field_def)
  have "f \<in> {SECOND, MINUTE, HOUR, MONTH, YEAR} \<Longrightarrow> cal_field f c \<in> field_cands f (simple_field (e f)) y" for f
    using m b [of f] ao [of f] field_holds_simple [OF e(2), of f]
    by (intro field_holds_cands) (auto simp: cron_matches_def)
  then have f: "f \<in> {SECOND, MINUTE, HOUR, MONTH, YEAR} \<Longrightarrow>
      cal_field f c \<in> set (merged_values (map simple_expr es) y f)" for f
    using e(1) by (fastforce simp: set_merged_values simple_expr_def)
  have "c_day c \<in> field_cands DAY_OF_MONTH (simple_field (e DAY_OF_MONTH)) y
      \<or> c_day c \<in> field_cands DAY_OF_WEEK (simple_field (e DAY_OF_WEEK)) y"
  proof (cases "day_of_month_holds (e DAY_OF_MONTH) c")
    case True
    let ?x = "e DAY_OF_MONTH"
    have o: "\<not> f_omit ?x" using True by (simp add: day_of_month_holds_def)
    show ?thesis
    proof (cases "field_holds DAY_OF_MONTH ?x (c_day c)")
      case True
      then show ?thesis
        using b [of DAY_OF_MONTH] o field_holds_simple [OF e(2), of DAY_OF_MONTH]
        by (intro disjI1 field_holds_cands) (auto simp: cal_field_def)
    next
      case False
      then show ?thesis
        using True o b [of DAY_OF_MONTH]
        by (auto simp: day_of_month_holds_def field_cands_def isBlank_def cal_field_def opt_list_def)
    qed
  next
    case False
    then have "\<not> f_omit (e DAY_OF_WEEK)" using m by (simp add: cron_matches_def day_of_week_holds_def)
    then show ?thesis
      using b [of DAY_OF_MONTH] by (simp add: field_cands_def cal_field_def matcher_FIELD_INFO_def)
  qed
  then have "c_day c \<in> set (merged_values (map simple_expr es) y DAY_OF_MONTH)"
    using e(1) by (fastforce simp: set_merged_values simple_expr_def)
  with f [of SECOND] f [of MINUTE] f [of HOUR] f [of MONTH] f [of YEAR] v ms show ?thesis
    by (simp add: is_cand_def cal_field_def)
qed

end
