(* ===== verification/ISOLaws.thy ===== *)
theory ISOLaws
  imports DateTimeLaws LuxonISO
begin

text \<open>
  The ISO output of a time reads back as the time: the texts of the fields, the matches of the
  expressions on them, the object the extractors build, and \<open>DateTime.fromObject\<close> on such an object
  in a zone of constant offset.
\<close>

subsection \<open>Fields as runs of digits\<close>

text \<open>\<open>run k s n\<close>: \<open>s\<close> is the number \<open>n\<close> written with \<open>k\<close> digits.\<close>

definition run :: "nat \<Rightarrow> string \<Rightarrow> int \<Rightarrow> bool" where
  "run k s n \<longleftrightarrow> length s = k \<and> (\<forall>c\<in>set s. is_digit c) \<and> int (digits_val 0 s) = n"

lemma run_padStart:
  assumes "0 \<le> n" "n < 10 ^ k" "0 < k"
  shows "run k (padStart n k) n"
proof -
  have s: "show_int n = show_nat (nat n)" using assms(1) by (simp add: show_int_def)
  have "nat n < 10 ^ k" using assms(1,2) by (metis nat_less_iff of_nat_numeral of_nat_power)
  then have "length (show_nat (nat n)) \<le> k" using assms(3) by (rule show_nat_length_bound)
  then show ?thesis
    using assms(1) by (auto simp: run_def padStart_def pad_start_def s is_digit_def [of "CHR ''0''"]
        dest: show_nat_digits)
qed

lemma runD:
  assumes "run k s n" "0 < k"
  shows "length s = k" "list_all is_digit s" "s \<noteq> []" "is_digit (hd s)" "parseInteger (Some s) = VNum n"
proof -
  show *: "length s = k" "list_all is_digit s" "s \<noteq> []" "is_digit (hd s)"
    using assms by (auto simp: run_def list_all_iff)
  show "parseInteger (Some s) = VNum n"
    using assms * parseInt_digits [of s] by (auto simp: parseInteger_def run_def)
qed

lemma run_parseMillis:
  assumes "run 3 s n"
  shows "parseMillis (Some s) = VNum n"
proof -
  have d: "takeWhile is_digit s = s" using assms by (intro takeWhile_all) (auto simp: run_def)
  have "(of_nat (digits_val 0 s) / 10 ^ length s :: rat) * 1000 = of_int n"
    using assms by (auto simp: run_def)
  then have "\<lfloor>(of_nat (digits_val 0 s) / 10 ^ length s :: rat) * 1000\<rfloor> = n"
    by (simp only: floor_of_int)
  then show ?thesis using assms by (auto simp: parseMillis_def d Let_def run_def)
qed

subsection \<open>Matching runs\<close>

lemma match_one:
  "rmatch (Cls p (Suc 0) (Suc 0)) s g k = (case s of c # r \<Rightarrow> if p c then k r g else None | [] \<Rightarrow> None)"
  by (cases s) (simp_all add: rmatch_exact del: rmatch.simps(1))

lemma match_run:
  "run n s v \<Longrightarrow> rmatch (digits n n) (s @ r) g k = k r g"
  unfolding digits_def rmatch_exact by (auto simp: run_def list_all_iff)

lemma match_run_group:
  "run n s v \<Longrightarrow> rmatch (Grp i (digits n n)) (s @ r) g k = k r (g(i := Some s))"
  by (simp add: match_run [of n s v])

lemma match_run_prefix:
  assumes "run m s v" "m < n" "r \<noteq> []" "\<not> is_digit (hd r)"
  shows "rmatch (digits n n) (s @ r) g k = None"
proof -
  have "\<not> list_all is_digit (take n (s @ r)) \<or> length (take n (s @ r)) \<noteq> n"
    using assms by (cases r; cases "n - m") (auto simp: run_def list_all_iff)
  then show ?thesis unfolding digits_def rmatch_exact by auto
qed

lemma match_sign_run:
  assumes "run n s v" "0 < n"
  shows "rmatch sign_class (s @ r) g k = None"
proof -
  obtain c cs where "s = c # cs" "is_digit c" using runD(3,4) [OF assms] by (cases s) auto
  then show ?thesis by (auto simp: sign_class_def rmatch_exact)
qed

lemma match_opt_some:
  "rmatch r s g (\<lambda>s' g'. if length s' < length s then k s' g' else None) = Some v \<Longrightarrow>
   rmatch (Opt r) s g k = Some v"
  by simp

lemma match_opt_none:
  "rmatch r s g (\<lambda>s' g'. if length s' < length s then k s' g' else None) = None \<Longrightarrow>
   rmatch (Opt r) s g k = k s g"
  by simp

text \<open>An optional character that is not there.\<close>

lemma match_maybe_run:
  assumes "run n s v" "0 < n" "\<not> is_digit c"
  shows "rmatch (maybe c) (s @ r) g k = k (s @ r) g"
proof -
  obtain d ds where "s = d # ds" "is_digit d" using runD(3,4) [OF assms(1,2)] by (cases s) auto
  with assms(3) show ?thesis by auto
qed

lemma match_maybe_there:
  "k s g = Some v \<Longrightarrow> rmatch (maybe c) (c # s) g k = Some v"
  by simp

lemmas match_simps = match_run match_run [where r = "[]", simplified] match_sign_run match_run_prefix

lemma match_ymd:
  assumes "run 4 Y y" "run 2 M m" "run 2 D d" "k rest (g(1 := Some Y, 2 := Some M, 3 := Some D)) = Some v"
  shows "rmatch isoYmdRegex (Y @ CHR ''-'' # M @ CHR ''-'' # D @ rest) g k = Some v"
  using assms by (simp add: isoYmdRegex_def match_simps)

lemma match_clock:
  assumes "run 2 H h" "run 2 M m" "run 2 S s"
    "k rest (g(n := Some H, n + 1 := Some M, n + 2 := Some S)) = Some v"
    "rest = [] \<or> hd rest \<notin> {CHR ''.'', CHR '',''}"
  shows "rmatch (isoTimeBaseRegex n) (H @ CHR '':'' # M @ CHR '':'' # S @ rest) g k = Some v"
proof -
  from assms show ?thesis
    by (cases rest) (simp_all add: isoTimeBaseRegex_def match_simps match_one del: rmatch.simps(1))
qed

lemma match_millis:
  assumes "run 3 T t" "rest = [] \<or> \<not> is_digit (hd rest)" "k rest g = Some v"
  shows "rmatch (digits (Suc 0) 30) (T @ rest) g k = Some v"
proof -
  have l: "length T = 3" "\<forall>c\<in>set T. is_digit c" using assms(1) by (auto simp: run_def)
  have "takeWhile is_digit (take 30 (T @ rest)) = T"
    using l assms(2) by (cases rest) (auto simp: takeWhile_append2)
  then show ?thesis
    using l(1) assms(3) by (simp add: digits_def try_down.simps [of _ _ _ "Suc 0" 3])
qed

lemma match_clock_millis:
  assumes "run 2 H h" "run 2 M m" "run 2 S s" "run 3 T t"
    "k rest (g(n := Some H, n + 1 := Some M, n + 2 := Some S, n + 3 := Some T)) = Some v"
    "rest = [] \<or> \<not> is_digit (hd rest)"
  shows "rmatch (isoTimeBaseRegex n) (H @ CHR '':'' # M @ CHR '':'' # S @ CHR ''.'' # T @ rest) g k = Some v"
proof -
  have m: "k' rest g' = Some v \<Longrightarrow> rmatch (digits (Suc 0) 30) (T @ rest) g' k' = Some v" for k' g'
    by (rule match_millis [OF assms(4,6)])
  have lT: "length T = 3" using assms(4) by (simp add: run_def)
  from assms(1-3,5) show ?thesis
    by (simp add: isoTimeBaseRegex_def match_simps match_one m lT del: rmatch.simps(1))
qed

lemma match_zone_none: "k [] g = Some v \<Longrightarrow> rmatch (isoExtendedZone n) [] g k = Some v"
  by (simp add: isoExtendedZone_def offsetRegex_def sign_class_def match_one del: rmatch.simps(1))

lemma match_zone_Z:
  "k [] (g(n := Some ''Z'')) = Some v \<Longrightarrow> rmatch (isoExtendedZone n) ''Z'' g k = Some v"
  by (simp add: isoExtendedZone_def offsetRegex_def)

lemma match_zone_offset:
  assumes "run 2 H h" "run 2 M m" "sg \<in> {CHR ''+'', CHR ''-''}"
    "k [] (g(n + 1 := Some (sg # H), n + 2 := Some M)) = Some v"
  shows "rmatch (isoExtendedZone n) (sg # H @ CHR '':'' # M) g k = Some v"
  using assms
  by (auto simp: isoExtendedZone_def offsetRegex_def sign_class_def match_one match_simps
      simp del: rmatch.simps(1))

subsection \<open>Parsing the output\<close>

text \<open>The text of a zone after the clock, and the groups and the zone it gives.\<close>

inductive zone_text :: "string \<Rightarrow> groups \<Rightarrow> zone option \<Rightarrow> bool" where
  zt_none: "zone_text [] Map.empty None"
| zt_Z: "zone_text ''Z'' [8 \<mapsto> ''Z''] (Some utcInstance)"
| zt_offset: "run 2 H h \<Longrightarrow> run 2 M m \<Longrightarrow> sg \<in> {CHR ''+'', CHR ''-''} \<Longrightarrow>
    zone_text (sg # H @ CHR '':'' # M) [9 \<mapsto> sg # H, 10 \<mapsto> M]
      (Some (FixedOffsetZone_instance (of_int (signedOffset (Some (sg # H)) (Some M)))))"

lemma match_zone_text:
  assumes "zone_text zt gz z" "k [] (g ++ gz) = Some v"
  shows "rmatch (isoExtendedZone 8) zt g k = Some v"
  using assms
  by cases (simp_all add: match_zone_none match_zone_Z match_zone_offset fun_upd_def [symmetric])

lemma zone_text_hd: "zone_text zt gz z \<Longrightarrow> zt = [] \<or> \<not> is_digit (hd zt) \<and> hd zt \<notin> {CHR ''.'', CHR '',''}"
  by (auto elim!: zone_text.cases simp: is_digit_def)

text \<open>The clock: the text after the \<open>T\<close>, with or without milliseconds.\<close>

definition clock_text :: "string \<Rightarrow> string \<Rightarrow> string \<Rightarrow> string option \<Rightarrow> string" where
  "clock_text H M S ms = H @ CHR '':'' # M @ CHR '':'' # S @ (case ms of None \<Rightarrow> [] | Some T \<Rightarrow> CHR ''.'' # T)"

lemma match_clock_text:
  assumes "run 2 H h" "run 2 N n" "run 2 S s" "case ms of None \<Rightarrow> True | Some T \<Rightarrow> run 3 T t"
    "zt = [] \<or> \<not> is_digit (hd zt) \<and> hd zt \<notin> {CHR ''.'', CHR '',''}" "g 7 = None"
    "k zt (g(4 := Some H, 5 := Some N, 6 := Some S, 7 := ms)) = Some v"
  shows "rmatch (isoTimeBaseRegex 4) (clock_text H N S ms @ zt) g k = Some v"
proof (cases ms)
  case None
  then have "g(4 := Some H, 5 := Some N, 6 := Some S, 7 := ms) = g(4 := Some H, 4 + 1 := Some N, 4 + 2 := Some S)"
    using assms(6) by (auto simp: fun_eq_iff)
  then have "k zt (g(4 := Some H, 4 + 1 := Some N, 4 + 2 := Some S)) = Some v" using assms(7) by simp
  from match_clock [OF assms(1-3), where n = 4 and k = k and rest = zt, OF this] assms(5) None show ?thesis by (auto simp: clock_text_def)
next
  case (Some T)
  then have "run 3 T t" "k zt (g(4 := Some H, 4 + 1 := Some N, 4 + 2 := Some S, 4 + 3 := Some T)) = Some v"
    using assms(4,7) by simp_all
  from match_clock_millis [OF assms(1-3), where n = 4 and k = k and rest = zt, OF this] assms(5) Some show ?thesis by (auto simp: clock_text_def)
qed

definition iso_groups :: "string \<Rightarrow> string list \<Rightarrow> string option \<Rightarrow> groups \<Rightarrow> groups" where
  "iso_groups txt fs ms gz =
     [0 \<mapsto> txt, 1 \<mapsto> fs ! 0, 2 \<mapsto> fs ! 1, 3 \<mapsto> fs ! 2, 4 \<mapsto> fs ! 3, 5 \<mapsto> fs ! 4, 6 \<mapsto> fs ! 5](7 := ms) ++ gz"

lemma exec_iso:
  assumes "run 4 Y y" "run 2 M m" "run 2 D d" "run 2 H h" "run 2 N n" "run 2 S s"
    "case ms of None \<Rightarrow> True | Some T \<Rightarrow> run 3 T t" "zone_text zt gz z"
    "txt = Y @ CHR ''-'' # M @ CHR ''-'' # D @ CHR ''T'' # clock_text H N S ms @ zt"
  shows "exec_full (Cat isoYmdRegex (isoTimeExtensionRegex 4)) txt
    = Some (iso_groups txt [Y, M, D, H, N, S] ms gz)"
proof -
  let ?G = "iso_groups txt [Y, M, D, H, N, S] ms gz"
  let ?g = "[0 \<mapsto> txt, 1 \<mapsto> Y, 2 \<mapsto> M, 3 \<mapsto> D]"
  have G: "?g(4 := Some H, 5 := Some N, 6 := Some S, 7 := ms) ++ gz = ?G"
    by (simp add: iso_groups_def eval_nat_numeral)
  have time: "rmatch (isoTimeRegex 4) (clock_text H N S ms @ zt) ?g k = Some ?G" if "k [] ?G = Some ?G" for k
  proof -
    have "rmatch (isoTimeBaseRegex 4) (clock_text H N S ms @ zt) ?g (\<lambda>s' g'. rmatch (isoExtendedZone 8) s' g' k) = Some ?G"
      using that zone_text_hd [OF assms(8)]
      by (intro match_clock_text [OF assms(4-7)] match_zone_text [OF assms(8)]) (simp_all add: G [simplified])
    then show ?thesis by (simp add: isoTimeRegex_def)
  qed
  have "rmatch (isoTimeExtensionRegex 4) (CHR ''T'' # clock_text H N S ms @ zt) ?g
      (\<lambda>s' g. if s' = [] then Some g else None) = Some ?G"
    unfolding isoTimeExtensionRegex_def by (rule match_opt_some) (simp add: time [simplified])
  then show ?thesis
    unfolding exec_full_def rmatch.simps(4) assms(9)
    by (intro match_ymd [OF assms(1-3)]) (simp add: assms(9))
qed

lemma parseISODate_text:
  assumes "run 4 Y y" "run 2 M m" "run 2 D d" "run 2 H h" "run 2 N n" "run 2 S s"
    "case ms of None \<Rightarrow> True | Some T \<Rightarrow> run 3 T t" "zone_text zt gz z"
  shows "parseISODate E (Y @ CHR ''-'' # M @ CHR ''-'' # D @ CHR ''T'' # clock_text H N S ms @ zt)
    = Some ([(''year'', VNum y), (''month'', VNum m), (''day'', VNum d), (''hours'', VNum h),
        (''minutes'', VNum n), (''seconds'', VNum s),
        (''milliseconds'', case ms of None \<Rightarrow> VUndefined | Some T \<Rightarrow> VNum t)], z)"
proof -
  let ?txt = "Y @ CHR ''-'' # M @ CHR ''-'' # D @ CHR ''T'' # clock_text H N S ms @ zt"
  define G where "G = iso_groups ?txt [Y, M, D, H, N, S] ms gz"
  note ints = runD(5) [OF assms(1)] runD(5) [OF assms(2)] runD(5) [OF assms(3)] runD(5) [OF assms(4)]
    runD(5) [OF assms(5)] runD(5) [OF assms(6)]
  have gz: "gz i = None" if "i < 8 \<or> i = 11" for i using assms(8) that by cases auto
  have g: "G (Suc 0) = Some Y" "G 2 = Some M" "G 3 = Some D" "G 4 = Some H" "G 5 = Some N" "G 6 = Some S"
    "G 7 = ms" "G 11 = None" "G 8 = gz 8" "G 9 = gz 9" "G 10 = gz 10"
    by (auto simp: G_def iso_groups_def map_add_def gz split: option.split)
  then have g': "G (Suc (Suc 0)) = Some M" "G (Suc (Suc (Suc 0))) = Some D" by (simp_all add: eval_nat_numeral)
  have zone: "(if gz 8 = None \<and> gz 9 = None then None
      else Some (FixedOffsetZone_instance (of_int (signedOffset (gz 9) (gz 10))))) = z"
    using assms(8) by cases (auto simp: FixedOffsetZone_instance_def signedOffset_def Let_def)
  have millis: "parseMillis ms = (case ms of None \<Rightarrow> VUndefined | Some T \<Rightarrow> VNum t)"
    using assms(7) by (auto simp: run_parseMillis parseMillis_def [of None] split: option.splits)
  have "combineExtractors [extractISOYmd, extractISOTime, extractISOOffset, extractIANAZone E] G
      = ([(''year'', VNum y), (''month'', VNum m), (''day'', VNum d), (''hours'', VNum h),
        (''minutes'', VNum n), (''seconds'', VNum s), (''milliseconds'', parseMillis ms)], z)"
    using zone by (simp add: combineExtractors_def extractISOYmd_def extractISOTime_def extractISOOffset_def
        extractIANAZone_def group_int_def g g' ints extends_def Let_def) (auto split: option.splits)
  then show ?thesis using exec_iso [OF assms refl] by (simp add: parseISODate_def millis G_def)
qed

subsection \<open>From the object to the time\<close>

text \<open>The object the extractors build, with or without milliseconds.\<close>

definition iso_fields :: "cal \<Rightarrow> int uval \<Rightarrow> int fields" where
  "iso_fields c ms = [(''year'', VNum (c_year c)), (''month'', VNum (c_month c)), (''day'', VNum (c_day c)),
     (''hours'', VNum (c_hour c)), (''minutes'', VNum (c_minute c)), (''seconds'', VNum (c_second c)),
     (''milliseconds'', ms)]"

lemma plural_unit_names:
  "normalizeUnit ''hours'' = Ok UHour" "normalizeUnit ''minutes'' = Ok UMinute"
  "normalizeUnit ''seconds'' = Ok USecond" "normalizeUnit ''milliseconds'' = Ok UMillisecond"
  by code_simp+

definition millis_of :: "int uval \<Rightarrow> cal \<Rightarrow> bool" where
  "millis_of ms c \<longleftrightarrow> ms = VNum (c_millisecond c) \<or> ms = VUndefined \<and> c_millisecond c = 0"

lemma normalize_iso_fields:
  assumes "millis_of ms c"
  shows "\<exists>n. normalizeObject (iso_fields c ms) normalizeUnit = Ok n \<and>
    map_of n = (obj_of_cal c)(UMillisecond := (if ms = VUndefined then None else Some (c_millisecond c)))"
  using assms
  by (auto simp: normalizeObject_def iso_fields_def unit_names_dt plural_unit_names asNumber_def obj_of_cal_def
      millis_of_def fun_eq_iff)

lemma valid_cal_checks:
  assumes "valid_cal c"
  shows "hasInvalidGregorianData (obj_of_cal c) = None" "hasInvalidTimeData (obj_of_cal c) = None"
  using valid_calD [OF assms]
  by (simp_all add: hasInvalidGregorianData_def hasInvalidTimeData_def obj_of_cal_def integerBetween_def Let_def)

lemma from_units_cal:
  assumes "valid_cal c" "ms = None \<Longrightarrow> c_millisecond c = 0" "ms \<noteq> None \<Longrightarrow> ms = Some (c_millisecond c)"
  shows "from_units ((obj_of_cal c)(UMillisecond := ms)) now = Inl (obj_of_cal c)"
proof -
  let ?n = "(obj_of_cal c)(UMillisecond := ms)"
  have "fst (fold (fill_units defaultUnitValues ob) orderedUnits (?n, False)) = obj_of_cal c" for ob
    using assms(2,3) by (cases ms)
      (auto simp: orderedUnits_def fill_units_def Let_def obj_of_cal_def defaultUnitValues_def fun_eq_iff)
  moreover have "?n UOrdinal = None" "?n UWeekYear = None" "?n UWeekNumber = None" "?n UWeekday = None"
    by (simp_all add: obj_of_cal_def)
  ultimately show ?thesis
    using valid_cal_checks [OF assms(1)] by (simp add: from_units_def Let_def truthy_def)
qed

context const_zone
begin

lemma fromObject_at:
  assumes z: "normalizeZone E (fo_zone opts) (defaultZone E) = z" "fo_specificOffset opts = None"
    and l: "Locale_fromObject E (fo_locale opts) = Ok l" and now: "stamp_ok (st_now E)"
    and c: "valid_cal c" "\<not> cal_lost c" "in_range off (cal_ms c)" and ms: "millis_of ms c"
  shows "fromObject E (iso_fields c ms) opts = Ok (dt_at z off l c)"
proof -
  let ?ms = "if ms = VUndefined then None else Some (c_millisecond c)"
  let ?n = "(obj_of_cal c)(UMillisecond := ?ms)"
  obtain n where n: "normalizeObject (iso_fields c ms) normalizeUnit = Ok n" "map_of n = ?n"
    using normalize_iso_fields [OF ms] by blast
  have off: "zone_offset E z (Some (of_int (st_now E))) = Some (of_int off)" using offset [OF now] .
  have conf: "conflicting ?n = None" by (simp add: conflicting_def obj_of_cal_def truthy_def)
  have units: "from_units ?n now' = Inl (obj_of_cal c)" for now'
    by (rule from_units_cal [OF c(1)]) (use ms in \<open>auto simp: millis_of_def\<close>)
  have "stamp_ok (cal_ms c - off * 60000)" using c(3) by (simp add: in_range_def)
  then have ts: "objToTS E (obj_of_cal c) (Some (of_int off)) z = (Some (of_int (cal_ms c - off * 60000)), Some (of_int off))"
    by (simp add: objToTS_def objToLocalTS_in_range [OF c] fixOffset_const)
  have day: "?n UWeekday = None" by (simp add: obj_of_cal_def)
  have new: "DateTime_new E (no_config\<lparr>cf_ts := Some (Some (of_int (cal_ms c - off * 60000))),
      cf_zone := Some z, cf_loc := Some l\<rparr>) = Ok (dt_at z off l c)"
    using new_const [OF c(3)] c(1) by (simp add: no_config_def)
  show ?thesis
    unfolding fromObject_def z(1) Let_def
    using valid by (simp only: n z(2) off l conf units ts new day rbind.simps option.case sum.case fst_conv
        truthy_def if_False simp_thms not_False_eq_True if_True)
qed

lemma setZone_at:
  assumes other: "const_zone E z' off'" and zi: "normalizeZone E zi (defaultZone E) = z"
    and same: "zone_equals z z' \<Longrightarrow> z = z'"
    and c: "valid_cal c" "in_range off (cal_ms c + (off - off') * 60000)"
  shows "setZone E (dt_at z' off' l c) zi False = Ok (dt_at z off l (cal_of_ms (cal_ms c + (off - off') * 60000)))"
proof (cases "zone_equals z z'")
  case True
  then have "z = z'" by (rule same)
  then have "off = off'" using offset [of 0] const_zone.offset [OF other, of 0] by (simp add: stamp_ok_def)
  with True \<open>z = z'\<close> c(1) show ?thesis by (simp add: setZone_def zi)
next
  case False
  let ?t = "cal_ms c + (off - off') * 60000"
  have r: "\<bar>?t\<bar> \<le> 8640000000000000" "stamp_ok (?t - off * 60000)" using c(2) by (simp_all only: in_range_def)
  have eq: "?t - off * 60000 = cal_ms c - off' * 60000" by (simp add: algebra_simps)
  have ts: "cal_ms (cal_of_ms ?t) - off * 60000 = cal_ms c - off' * 60000" using eq by simp
  have "zone_offset E z (Some (of_int (cal_ms c - off' * 60000))) = Some (of_int off)"
    using offset [OF r(2)] unfolding eq .
  moreover have "tsToObj (Some (of_int (cal_ms c - off' * 60000))) (Some (of_int off)) = Some (cal_of_ms ?t)"
    using tsToObj_const [OF r(1)] unfolding eq .
  ultimately show ?thesis
    using False zone_equals_sym [of z z'] valid ts
    by (simp add: setZone_def zi clone_dt_def DateTime_new_def config_invalid_def Let_def dt_at_def)
qed

text \<open>Reading a text in a zone, when the text names no zone, and when it names one.\<close>

lemma from_parsed_local:
  assumes z: "normalizeZone E zi (defaultZone E) = z"
    and l: "Locale_fromObject E no_locale_opts = Ok l" and now: "stamp_ok (st_now E)"
    and c: "valid_cal c" "\<not> cal_lost c" "in_range off (cal_ms c)" and ms: "millis_of ms c"
  shows "from_parsed E (Some (iso_fields c ms, None)) (no_from_opts\<lparr>fo_zone := zi\<rparr>) format txt
    = Ok (dt_at z off l c)"
proof -
  have "const_zone E z off" by unfold_locales
  then have "setZone E (dt_at z off l c) zi False = Ok (dt_at z off l c)"
    using setZone_at [OF _ z, of z off c l] c by simp
  moreover have "fromObject E (iso_fields c ms) (no_from_opts\<lparr>fo_zone := zi, fo_specificOffset := None\<rparr>)
      = Ok (dt_at z off l c)"
    by (rule fromObject_at) (use assms in \<open>simp_all add: no_from_opts_def\<close>)
  ultimately show ?thesis
    by (simp add: from_parsed_def parseDataToDateTime_def Let_def no_from_opts_def) (simp add: iso_fields_def)
qed

lemma from_parsed_zone:
  assumes other: "const_zone E z' off'" and z: "normalizeZone E zi (defaultZone E) = z"
    and same: "zone_equals z z' \<Longrightarrow> z = z'"
    and l: "Locale_fromObject E no_locale_opts = Ok l" and now: "stamp_ok (st_now E)"
    and c: "valid_cal c" "\<not> cal_lost c" "in_range off' (cal_ms c)" and ms: "millis_of ms c"
    and r: "in_range off (cal_ms c + (off - off') * 60000)"
  shows "from_parsed E (Some (iso_fields c ms, Some z')) (no_from_opts\<lparr>fo_zone := zi\<rparr>) format txt
    = Ok (dt_at z off l (cal_of_ms (cal_ms c + (off - off') * 60000)))"
proof -
  have "fromObject E (iso_fields c ms) (no_from_opts\<lparr>fo_zone := ZZone z', fo_specificOffset := None\<rparr>)
      = Ok (dt_at z' off' l c)"
    by (rule const_zone.fromObject_at [OF other])
      (use assms in \<open>simp_all add: no_from_opts_def normalizeZone_def\<close>)
  then show ?thesis
    using setZone_at [OF other z same c(1) r, of l]
    by (simp add: from_parsed_def parseDataToDateTime_def Let_def no_from_opts_def) (simp add: iso_fields_def)
qed

end

subsection \<open>The output reads back\<close>

lemma signedOffset_run:
  assumes "run 2 H h" "run 2 M m" "sg \<in> {CHR ''+'', CHR ''-''}"
  shows "signedOffset (Some (sg # H)) (Some M) = (if sg = CHR ''-'' then - (60 * h + m) else 60 * h + m)"
proof -
  have H: "takeWhile is_digit H = H" "H \<noteq> []" "int (digits_val 0 H) = h"
    using assms(1) by (auto simp: run_def intro!: takeWhile_all)
  have "parseInt M = Some m"
    using assms(2) parseInt_digits [of M] by (cases M) (auto simp: run_def)
  moreover have "scan_int (sg # H) = Some (sg = CHR ''-'', digits_val 0 H)"
    using assms(3) by (auto simp: scan_int_def is_space_def is_digit_def [of "CHR ''+''"] is_digit_def [of "CHR ''-''"] Let_def H)
  ultimately show ?thesis using H(3) by (auto simp: signedOffset_def Let_def)
qed

lemma zone_text_offset:
  assumes "\<bar>off\<bar> < 6000"
  shows "\<exists>gz. zone_text (toISO_offset fixed (of_int off) False) gz (Some (FixedOffsetZone_instance (of_int off)))"
proof (cases "fixed \<and> off = 0")
  case True
  then show ?thesis using zt_Z by (auto simp: toISO_offset_def FixedOffsetZone_instance_def)
next
  case False
  let ?sg = "if off < 0 then CHR ''-'' else CHR ''+''"
  let ?H = "padStart (\<bar>off\<bar> div 60) 2" and ?M = "padStart (\<bar>off\<bar> mod 60) 2"
  have r: "run 2 ?H (\<bar>off\<bar> div 60)" "run 2 ?M (\<bar>off\<bar> mod 60)"
    using assms by (auto intro!: run_padStart)
  have a: "(if (of_int off :: rat) < 0 then - of_int off else of_int off) = (of_int \<bar>off\<bar> :: rat)" by simp
  have h: "js_trunc (of_int \<bar>off\<bar> / 60) = \<bar>off\<bar> div 60"
    using floor_divide_of_int_eq [of "\<bar>off\<bar>" 60, where ?'a = rat] by (simp add: js_trunc_def)
  have m: "js_trunc (of_int \<bar>off\<bar> - 60 * of_int (\<bar>off\<bar> div 60)) = \<bar>off\<bar> mod 60"
  proof -
    have "(of_int \<bar>off\<bar> - 60 * of_int (\<bar>off\<bar> div 60) :: rat) = of_int (\<bar>off\<bar> - 60 * (\<bar>off\<bar> div 60))" by simp
    then show ?thesis by (simp only: js_trunc_of_int minus_mult_div_eq_mod)
  qed
  have text_eq: "toISO_offset fixed (of_int off) False = ?sg # ?H @ CHR '':'' # ?M"
    using False unfolding toISO_offset_def Let_def a h m by auto
  have "signedOffset (Some (?sg # ?H)) (Some ?M) = off"
    using signedOffset_run [OF r, of ?sg] by (auto simp: abs_if)
  with zt_offset [OF r, of ?sg] show ?thesis unfolding text_eq by (auto split: if_splits)
qed

text \<open>The clock with the milliseconds, or without them when they are 0.\<close>

definition plain_iso :: "iso_opts \<Rightarrow> bool" where
  "plain_iso op \<longleftrightarrow> io_extended op \<and> \<not> io_suppressSeconds op \<and> \<not> io_extendedZone op"

definition millis_text :: "iso_opts \<Rightarrow> cal \<Rightarrow> string option" where
  "millis_text op c = (if c_millisecond c \<noteq> 0 \<or> \<not> io_suppressMilliseconds op
     then Some (padStart (c_millisecond c) 3) else None)"

lemma iso_date_clock:
  assumes "plain_iso op" "0 \<le> c_year c" "c_year c \<le> 9999"
  shows "toISODate_cal c True @ ''T'' @ toISOTime_clock c op @ r =
    padStart (c_year c) 4 @ CHR ''-'' # padStart (c_month c) 2 @ CHR ''-'' # padStart (c_day c) 2 @
    CHR ''T'' # clock_text (padStart (c_hour c) 2) (padStart (c_minute c) 2) (padStart (c_second c) 2)
      (millis_text op c) @ r"
  using assms by (auto simp: toISODate_cal_def toISOTime_clock_def plain_iso_def clock_text_def
      millis_text_def Let_def)

lemma parse_iso_output:
  assumes op: "plain_iso op" and c: "valid_cal c" "0 \<le> c_year c" "c_year c \<le> 9999"
    and z: "zone_text zt gz z"
  shows "\<exists>ms. millis_of ms c \<and>
    parseISODate E (toISODate_cal c True @ ''T'' @ toISOTime_clock c op @ zt) = Some (iso_fields c ms, z)"
proof -
  note v = valid_calD [OF c(1)]
  have d: "c_day c \<le> 31" using v(4) daysInMonth_bounds(2) [of "c_year c" "c_month c"] by simp
  let ?ms = "case millis_text op c of None \<Rightarrow> VUndefined | Some T \<Rightarrow> VNum (c_millisecond c)"
  have "case millis_text op c of None \<Rightarrow> True | Some T \<Rightarrow> run 3 T (c_millisecond c)"
    using v by (auto simp: millis_text_def intro!: run_padStart)
  then have "parseISODate E (padStart (c_year c) 4 @ CHR ''-'' # padStart (c_month c) 2 @ CHR ''-'' #
      padStart (c_day c) 2 @ CHR ''T'' # clock_text (padStart (c_hour c) 2) (padStart (c_minute c) 2)
        (padStart (c_second c) 2) (millis_text op c) @ zt) = Some (iso_fields c ?ms, z)"
    unfolding iso_fields_def using v d c by (intro parseISODate_text [OF _ _ _ _ _ _ _ z] run_padStart) auto
  then have "parseISODate E (toISODate_cal c True @ ''T'' @ toISOTime_clock c op @ zt) = Some (iso_fields c ?ms, z)"
    unfolding iso_date_clock [OF op c(2,3)] .
  moreover have "millis_of ?ms c" by (auto simp: millis_of_def millis_text_def)
  ultimately show ?thesis by auto
qed

text \<open>The zone a text with the offset \<open>off\<close> names.\<close>

lemma offset_zone: "const_zone E (FixedOffsetZone_instance (of_int off)) off"
proof (cases "off = 0")
  case True
  have "const_zone E utcInstance 0" by unfold_locales
  with True show ?thesis by (simp add: FixedOffsetZone_instance_def)
next
  case False
  have "const_zone E (FixedOffsetZone (of_int off)) off" by unfold_locales
  with False show ?thesis by (simp add: FixedOffsetZone_instance_def)
qed

lemma zone_equals_offset: "zone_equals z (FixedOffsetZone_instance x) \<Longrightarrow> z = FixedOffsetZone_instance x"
  by (cases z) (auto simp: zone_equals_def FixedOffsetZone_instance_def utcInstance_def zone_type_def
      split: if_splits)

context sane_zone
begin

text \<open>A time in the zone, written with its offset, reads back in the zone.\<close>

lemma iso_roundtrip:
  assumes op: "plain_iso op" "io_includeOffset op" and off: "\<bar>off\<bar> < 6000"
    and zi: "normalizeZone E zi (defaultZone E) = z"
    and l: "Locale_fromObject E no_locale_opts = Ok l0" and now: "stamp_ok (st_now E)"
    and c: "valid_cal c" "modern (c_year c)" "c_year c < 10000"
  shows "\<exists>s. toISO E (dt_at z off l c) op = Some s \<and>
    fromISO E s (no_from_opts\<lparr>fo_zone := zi\<rparr>) = Ok (dt_at z off l0 c)"
proof -
  let ?o = "toISO_offset (isOffsetFixed (dt_at z off l c)) (of_int off) False"
  let ?s = "toISODate_cal c True @ ''T'' @ toISOTime_clock c op @ ?o"
  obtain gz where "zone_text ?o gz (Some (FixedOffsetZone_instance (of_int off)))"
    using zone_text_offset [OF off] by blast
  then obtain ms where ms: "millis_of ms c"
    "parseISODate E ?s = Some (iso_fields c ms, Some (FixedOffsetZone_instance (of_int off)))"
    using parse_iso_output [OF op(1) c(1)] c(2,3) by (fastforce simp: modern_def)
  have "toISO E (dt_at z off l c) op = Some ?s"
    using op by (simp add: toISO_def toISOTime_dt_def plain_iso_def)
  moreover have "fromISO E ?s (no_from_opts\<lparr>fo_zone := zi\<rparr>) = Ok (dt_at z off l0 c)"
    using from_parsed_zone [OF offset_zone zi zone_equals_offset l now c(1) modern_not_lost [OF c(2)]
        modern_in_range [OF c(1,2) small] ms(1)] c(1) modern_in_range [OF c(1,2) small]
    unfolding fromISO_def ms(2) by simp
  ultimately show ?thesis by blast
qed

text \<open>A time in universal time, written with a \<open>Z\<close>, reads back in the zone as the same instant.\<close>

lemma fromISO_utc:
  assumes op: "plain_iso op" and zi: "normalizeZone E zi (defaultZone E) = z"
    and l: "Locale_fromObject E no_locale_opts = Ok l0" and now: "stamp_ok (st_now E)"
    and c: "valid_cal c" "modern (c_year c)" "c_year c < 10000"
  shows "fromISO E (toISODate_cal c True @ ''T'' @ toISOTime_clock c op @ ''Z'') (no_from_opts\<lparr>fo_zone := zi\<rparr>)
    = Ok (dt_at z off l0 (cal_of_ms (cal_ms c + off * 60000)))"
proof -
  let ?s = "toISODate_cal c True @ ''T'' @ toISOTime_clock c op @ ''Z''"
  obtain ms where ms: "millis_of ms c" "parseISODate E ?s = Some (iso_fields c ms, Some utcInstance)"
    using parse_iso_output [OF op c(1) _ _ zt_Z] c(2,3) by (fastforce simp: modern_def)
  have r: "in_range off (cal_ms c + (off - 0) * 60000)"
    using modern_day [OF c(1,2)] clock_range [OF c(1)] small
    by (simp add: in_range_def stamp_ok_def cal_ms_day_clock msPerDay_def abs_le_iff)
  have utc: "const_zone E utcInstance 0" by unfold_locales
  have same: "zone_equals z utcInstance \<Longrightarrow> z = utcInstance"
    using zone_equals_offset [of z 0] by (simp add: FixedOffsetZone_instance_def)
  show ?thesis
    using from_parsed_zone [OF utc zi same l now c(1) modern_not_lost [OF c(2)]
        modern_in_range [OF c(1,2)] ms(1) r]
    unfolding fromISO_def ms(2) by simp
qed

end

end
