(* ===== verification/ZoneLaws.thy ===== *)
theory ZoneLaws
  imports DateTimeLaws
begin

text \<open>
  The offset of an IANA zone is computed from the parts \<open>Intl.DateTimeFormat\<close> gives for a time stamp.
  When the parts are those of the local time, the computation recovers the offset; a zone whose local
  time is a constant number of minutes from UTC is then one of the zones the other theories speak of.
\<close>

text \<open>\<open>reads p c\<close>: the parts \<open>p\<close> name the fields of \<open>c\<close>, in the years of our era. Midnight may be
  written as 24 hours.\<close>

definition reads :: "(string \<times> string) list \<Rightarrow> cal \<Rightarrow> bool" where
  "reads p c \<longleftrightarrow> (let (filled, era) = partsOffset p in
     era \<noteq> Some ''BC'' \<and> filled 0 = Some (c_year c) \<and> filled 1 = Some (c_month c) \<and>
     filled 2 = Some (c_day c) \<and> (filled 4 = Some (c_hour c) \<or> filled 4 = Some 24 \<and> c_hour c = 0) \<and>
     filled 5 = Some (c_minute c) \<and> filled 6 = Some (c_second c))"

lemma second_of_stamp: "(if js_rem t 1000 \<ge> 0 then js_rem t 1000 else 1000 + js_rem t 1000) = t mod 1000"
proof (cases "0 < t")
  case True
  then show ?thesis by (simp add: js_rem_def)
next
  case False
  then have "js_rem t 1000 = (if t mod 1000 = 0 then 0 else t mod 1000 - 1000)"
    by (cases "t = 0") (simp_all add: js_rem_def zmod_zminus1_eq_if)
  with False show ?thesis by (auto simp: not_le)
qed

lemma year_of_stamp:
  assumes "- 61000000000000 \<le> u"
  shows "1 \<le> c_year (cal_of_ms u)"
proof (rule ccontr)
  let ?c = "cal_of_ms u"
  assume "\<not> 1 \<le> c_year ?c"
  then have "DayFromYear (c_year ?c + 1) \<le> DayFromYear 1" by (intro DayFromYear_mono) simp
  moreover have "day_no ?c < DayFromYear (c_year ?c + 1)"
    using MakeDay_in_year [of "c_year ?c" "c_month ?c - 1" "c_day ?c"] valid_cal_of_ms [of u]
    by (simp add: day_no_def valid_cal_def)
  ultimately have "day_no ?c < -719162" by (simp add: DayFromYear_def)
  moreover have "u = day_no ?c * msPerDay + clock ?c" using cal_ms_day_clock [of ?c] by simp
  ultimately show False
    using clock_range [OF valid_cal_of_ms, of u] assms by (simp add: msPerDay_def)
qed

lemma iana_offset_reads:
  assumes "stamp_ok t" "\<bar>off\<bar> \<le> 10000" "reads (parts t) (cal_of_ms (t + off * 60000))"
  shows "iana_offset parts (Some (of_int t)) = Some (of_int off)"
proof -
  define u where "u = t + off * 60000"
  define c where "c = cal_of_ms u"
  let ?c = "c\<lparr>c_millisecond := 0\<rparr>"
  have u: "\<bar>u\<bar> \<le> 8600000000000000" "- 61000000000000 \<le> u"
    using assms(1,2) by (auto simp: u_def stamp_ok_def)
  have date: "date_of (Some (of_int t)) = Some t"
    using assms(1) by (simp only: date_of_int TimeClip_Some_iff) (auto simp: stamp_ok_def)
  have v: "valid_cal c" using valid_cal_of_ms by (simp add: c_def)
  then have v': "valid_cal ?c" using valid_calD [OF v] by (intro valid_calI) auto
  have year: "1 \<le> c_year c" using year_of_stamp [OF u(2)] by (simp add: c_def)
  have ms: "c_millisecond c = t mod 1000"
  proof -
    have "t + off * 60000 = t + off * 60 * 1000" by simp
    then have "u mod 1000 = t mod 1000" unfolding u_def by (simp only: mod_mult_self1)
    then show ?thesis by (simp add: c_def cal_of_ms_def getUTCMilliseconds_def)
  qed
  have "cal_ms c = u" by (simp add: c_def)
  then have ms': "cal_ms ?c = u - t mod 1000" using ms by (simp add: cal_ms_def MakeDate_def MakeTime_def)
  have "\<bar>cal_ms ?c\<bar> \<le> 8640000000000000" using u ms' by (auto simp: abs_le_iff)
  then have ts: "objToLocalTS (obj_of_cal ?c) = Some (cal_ms ?c)"
    using objToLocalTS_valid [OF v'] year by (simp add: cal_lost_def lost_day_def)
  obtain filled era where p: "partsOffset (parts t) = (filled, era)" by force
  have r: "era \<noteq> Some ''BC''" "filled 0 = Some (c_year c)" "filled 1 = Some (c_month c)"
    "filled 2 = Some (c_day c)" "filled 5 = Some (c_minute c)" "filled 6 = Some (c_second c)"
    "(if filled 4 = Some 24 then Some 0 else filled 4) = Some (c_hour c)"
    using assms(3) valid_calD [OF v] by (auto simp: reads_def p c_def u_def)
  have "Map.empty(UYear := filled 0, UMonth := filled 1, UDay := filled 2, UHour := Some (c_hour c),
      UMinute := filled 5, USecond := filled 6, UMillisecond := Some 0) = obj_of_cal ?c"
    by (simp add: obj_of_cal_def r r(3) [simplified])
  then show ?thesis
    using ts r r(3) [simplified] second_of_stamp [of t]
    unfolding iana_offset_def date
    by (simp add: p Let_def ms' u_def)
qed

lemma iana_sane_zone:
  assumes "\<bar>off\<bar> \<le> 10000" "\<And>t. stamp_ok t \<Longrightarrow> reads (pf_parts E n t) (cal_of_ms (t + off * 60000))"
  shows "sane_zone E (IANAZone n True) off"
  using assms by unfold_locales (simp_all add: zone_isValid_def zone_offset_def iana_offset_reads)

text \<open>A platform that writes the fields of the local time.\<close>

definition parts_of :: "cal \<Rightarrow> (string \<times> string) list" where
  "parts_of c = [(''month'', show_int (c_month c)), (''literal'', ''/''), (''day'', show_int (c_day c)),
     (''year'', show_int (c_year c)), (''era'', ''AD''), (''hour'', show_int (c_hour c)),
     (''minute'', show_int (c_minute c)), (''second'', show_int (c_second c))]"

lemma reads_parts_of: "reads (parts_of c) c"
  by (simp add: reads_def partsOffset_def parts_of_def typeToPos_def)

end
