(* ===== verification/CronApiLaws.thy ===== *)
theory CronApiLaws
  imports CronApi MatchSpec ISOLaws ZoneLaws
begin

text \<open>
  What \<open>getFutureMatches\<close> returns: the texts of the matching times of the series, from the start on,
  before the end, as many as asked for.
\<close>

subsection \<open>The loop\<close>

text \<open>\<open>P\<close> is the test, \<open>B\<close> the end, \<open>out\<close> the text of a time and \<open>V\<close> the validator.\<close>

definition wanted :: "(cal \<Rightarrow> bool) \<Rightarrow> (cal \<Rightarrow> 'a) \<Rightarrow> ('a \<Rightarrow> bool) \<Rightarrow> cal list \<Rightarrow> 'a list" where
  "wanted P out V cs = filter V (map out (filter P cs))"

lemma wanted_simps [simp]:
  "wanted P out V [] = []"
  "wanted P out V (c # cs) = (if P c \<and> V (out c) then [out c] else []) @ wanted P out V cs"
  by (simp_all add: wanted_def)

definition validates :: "match_options \<Rightarrow> string option \<Rightarrow> bool" where
  "validates options t = (case mo_matchValidator options of None \<Rightarrow> True | Some valid \<Rightarrow> valid t)"

lemma future_loop:
  assumes "\<And>c. c \<in> set cs \<Longrightarrow> isExprsMatches E es (dtf c) = Ok (P c)"
    and "\<And>c. c \<in> set cs \<Longrightarrow> getOutputTime E (dtf c) (mo_formatInTimezone options) = Ok (out c)"
    and "\<And>c. c \<in> set cs \<Longrightarrow> \<not> nless (toMillis (dtf c)) (toMillis startTime)"
    and "\<And>c. c \<in> set cs \<Longrightarrow>
      (case endTime of None \<Rightarrow> False | Some e \<Rightarrow> nle (toMillis e) (toMillis (dtf c))) = B c"
    and "k < m" "int (length acc) < count"
  shows "rmap (\<lambda>r. snd (ctl_state r))
      (consume_all dtf (future_body E es startTime endTime count m options) cs (k, acc))
    = Ok (acc @ take (nat (count - int (length acc)))
        (wanted P out (validates options) (take (nat (m - k)) (takeWhile (\<lambda>c. \<not> B c) cs))))"
  using assms
proof (induction cs arbitrary: k acc)
  case Nil
  then show ?case by (simp add: consume_all_def)
next
  case (Cons c cs)
  let ?body = "future_body E es startTime endTime count m options"
  let ?acc = "if P c \<and> validates options (out c) then acc @ [out c] else acc"
  have one: "nat (m - k) = Suc (nat (m - (k + 1)))" using Cons.prems(5) by simp
  show ?case
  proof (cases "B c")
    case True
    then have "?body (dtf c) (k, acc) = Ok (Stop (k + 1, acc))"
      using Cons.prems(4) by (simp add: future_body_def Let_def)
    with True show ?thesis by (simp add: consume_all_def)
  next
    case False
    have body: "?body (dtf c) (k, acc) = Ok (if int (length ?acc) \<ge> count then Stop (k + 1, ?acc)
        else next_round m (k + 1, ?acc))"
      using Cons.prems(1-4) False by (simp add: future_body_def Let_def validates_def)
    consider "int (length ?acc) \<ge> count" | "int (length ?acc) < count" "k + 1 < m"
      | "int (length ?acc) < count" "\<not> k + 1 < m" by linarith
    then show ?thesis
    proof cases
      case 1
      then have "P c \<and> validates options (out c)" "nat (count - int (length acc)) = 1"
        using Cons.prems(6) by (auto split: if_splits)
      with 1 body False one show ?thesis by (simp add: consume_all_def)
    next
      case 2
      have "rmap (\<lambda>r. snd (ctl_state r)) (consume_all dtf ?body cs (k + 1, ?acc))
          = Ok (?acc @ take (nat (count - int (length ?acc)))
              (wanted P out (validates options) (take (nat (m - (k + 1))) (takeWhile (\<lambda>c. \<not> B c) cs))))"
        using 2 Cons.prems by (intro Cons.IH) auto
      moreover have "nat (count - int (length acc)) = Suc (nat (count - (int (length acc) + 1)))"
        using Cons.prems(6) by simp
      ultimately show ?thesis
        using 2 body False one by (auto simp: consume_all_def next_round_def add.commute split: if_splits)
    next
      case 3
      then have "m = k + 1" using Cons.prems(5) by simp
      moreover have "nat (count - int (length acc)) \<noteq> 0" using Cons.prems(6) by simp
      ultimately show ?thesis
        using 3 body False by (auto simp: consume_all_def next_round_def)
    qed
  qed
qed

subsection \<open>The texts\<close>

text \<open>The instant \<open>t\<close> written in universal time.\<close>

definition utc_text :: "int \<Rightarrow> string" where
  "utc_text t = (let c = cal_of_ms t in
     toISODate_cal c True @ ''T'' @ toISOTime_clock c (matcher_iso False) @ ''Z'')"

definition utc_zone :: zone where
  "utc_zone = IANAZone TZ_UTC True"

lemma normalize_TZ_UTC:
  assumes "pf_zone_ok E TZ_UTC"
  shows "normalizeZone E (ZString TZ_UTC) d = utc_zone"
proof -
  have "toLowerCase TZ_UTC = ''etc/utc''" by code_simp
  moreover have "parseSpecifier ''etc/utc'' = None" by code_simp
  ultimately show ?thesis
    using assms by (simp add: normalizeZone_def Let_def IANAZone_create_def isValidZone_def utc_zone_def)
      (simp add: TZ_UTC_def)
qed

text \<open>A platform that knows universal time.\<close>

definition utc_platform :: "settings \<Rightarrow> bool" where
  "utc_platform E \<longleftrightarrow> pf_zone_ok E TZ_UTC \<and> sane_zone E utc_zone 0"

lemma utc_equals: "zone_isValid z \<Longrightarrow> zone_equals utc_zone z \<Longrightarrow> utc_zone = z"
  by (cases z) (auto simp: zone_equals_def utc_zone_def zone_isValid_def)

context sane_zone
begin

lemma getOutputTime_utc:
  assumes U: "utc_platform E" and c: "valid_cal c" "modern (c_year c)"
  shows "getOutputTime E (dt_at z off l c) False = Ok (Some (utc_text (cal_ms c - off * 60000)))"
proof -
  have s: "sane_zone E utc_zone 0" and ok: "pf_zone_ok E TZ_UTC" using U by (simp_all add: utc_platform_def)
  then have u: "const_zone E utc_zone 0" by (simp add: sane_zone_def)
  have this': "const_zone E z off" by unfold_locales
  have r: "in_range 0 (cal_ms c + (0 - off) * 60000)"
    using modern_day [OF c] clock_range [OF c(1)] small
    by (simp add: in_range_def stamp_ok_def cal_ms_day_clock msPerDay_def abs_le_iff)
  have "setZone E (dt_at z off l c) (ZString TZ_UTC) False
      = Ok (dt_at utc_zone 0 l (cal_of_ms (cal_ms c + (0 - off) * 60000)))"
    by (rule const_zone.setZone_at [OF u this' normalize_TZ_UTC [OF ok] utc_equals [OF valid] c(1) r])
  then show ?thesis
    by (simp add: getOutputTime_def toISO_def toISOTime_dt_def matcher_iso_def iso_defaults_def utc_text_def Let_def)
qed

lemma getOutputTime_zone:
  "getOutputTime E (dt_at z off l c) True = Ok (toISO E (dt_at z off l c) (matcher_iso True))"
  by (simp add: getOutputTime_def)

end

subsection \<open>The result\<close>

lemma cand_year:
  assumes "list_all sound_expr es" "is_cand (merged_values (map simple_expr es) y) c0 c"
  shows "c_year c \<le> 3000"
proof -
  obtain e where "e \<in> set es" "c_year c \<in> field_cands YEAR (simple_field (e YEAR)) y"
    using assms(2) by (auto simp: is_cand_def set_merged_values simple_expr_def)
  then show ?thesis using field_cands_bounds [of e "c_year c" YEAR y] assms(1) by (auto simp: list_all_iff)
qed

definition any_matches :: "cron_exprs \<Rightarrow> cal \<Rightarrow> bool" where
  "any_matches es c \<longleftrightarrow> list_ex (\<lambda>e. cron_matches e c) (expressions es)"

definition candidates :: "cron_exprs \<Rightarrow> cal \<Rightarrow> cal list" where
  "candidates es c0 = series_list (merged_values (map simple_expr (expressions es)) (c_year c0)) c0"

definition ended :: "cal option \<Rightarrow> cal \<Rightarrow> bool" where
  "ended ce c \<longleftrightarrow> (case ce of None \<Rightarrow> False | Some e \<Rightarrow> cal_ms e \<le> cal_ms c)"

context sane_zone
begin

lemma getFutureMatches_at:
  assumes L: "Locale_fromObject E no_locale_opts = Ok l1"
    and start: "fromISO E (text_or (mo_startAt options) (toISOString (st_now E))) (from_zone (mo_timezone options))
      = Ok (dt_at z off l c0)" "valid_cal c0" "modern (c_year c0)"
    and final: "(case mo_endAt options of None \<Rightarrow> Ok None | Some e \<Rightarrow> if e = [] then Ok None
        else rmap Some (fromISO E e (from_zone (mo_timezone options)))) = Ok (map_option (dt_at z off l) ce)"
    and es: "parse_input expr (mo_hasSeconds options) = Ok es" "list_all sound_expr (expressions es)"
    and n: "1 \<le> int_or (mo_matchCount options) 5" "1 \<le> int_or (mo_maxLoopCount options) MAX_LOOP_COUNT"
    and out: "\<And>c. valid_cal c \<Longrightarrow> modern (c_year c) \<Longrightarrow>
      getOutputTime E (dt_at z off l c) (mo_formatInTimezone options) = Ok (out c)"
  shows "getFutureMatches E expr options = Ok (take (nat (int_or (mo_matchCount options) 5))
    (wanted (any_matches es) out (validates options)
      (take (nat (int_or (mo_maxLoopCount options) MAX_LOOP_COUNT))
        (takeWhile (\<lambda>c. \<not> ended ce c) (candidates es c0)))))"
proof -
  let ?es = "es\<lparr>expressions := map simple_expr (expressions es)\<rparr>"
  let ?mg = "merged_values (map simple_expr (expressions es)) (c_year c0)"
  let ?count = "int_or (mo_matchCount options) 5" and ?m = "int_or (mo_maxLoopCount options) MAX_LOOP_COUNT"
  let ?fin = "map_option (dt_at z off l) ce"
  have mg: "mergeExprs ?es (Some (c_year c0)) = Ok ?mg"
    using mergeExprs_values [of ?es "c_year c0"] by (simp add: simple_expr_def)
  have ok: "merged_ok ?mg" by (rule merged_values_ok [OF es(2) start(3)])
  have cand: "valid_cal c" "modern (c_year c)" "c_year c < 10000" "cal_ms c0 \<le> cal_ms c"
    if "c \<in> set (series_list ?mg c0)" for c
    using that is_cand_valid [OF ok start(2)] cand_year [OF es(2), of "c_year c0" c0 c]
    by (auto simp: set_series_list [OF ok start(2)])
  have "rmap (\<lambda>r. snd (ctl_state r))
      (consume_all (dt_at z off l) (future_body E ?es (dt_at z off l c0) ?fin ?count ?m options)
        (series_list ?mg c0) (0, []))
    = Ok ([] @ take (nat (?count - int (length ([] :: string option list))))
        (wanted (any_matches es) out (validates options) (take (nat (?m - 0)) (takeWhile (\<lambda>c. \<not> ended ce c) (series_list ?mg c0)))))"
  proof (rule future_loop)
    fix c
    assume c: "c \<in> set (series_list ?mg c0)"
    show "isExprsMatches E ?es (dt_at z off l c) = Ok (any_matches es c)"
      unfolding any_matches_def by (rule isExprsMatches_at [OF L cand(1-3) [OF c] es(2)])
    show "getOutputTime E (dt_at z off l c) (mo_formatInTimezone options) = Ok (out c)"
      by (rule out [OF cand(1,2) [OF c]])
    show "\<not> nless (toMillis (dt_at z off l c)) (toMillis (dt_at z off l c0))"
      using cand(4) [OF c] by (simp add: nless_def)
    show "(case ?fin of None \<Rightarrow> False | Some e \<Rightarrow> nle (toMillis e) (toMillis (dt_at z off l c))) = ended ce c"
      by (cases ce) (simp_all add: ended_def nle_def)
  qed (use n in simp_all)
  then have "rmap snd (getTimeSeries E ?es (dt_at z off l c0)
      (future_body E ?es (dt_at z off l c0) ?fin ?count ?m options) (0, []))
    = Ok (take (nat ?count) (wanted (any_matches es) out (validates options)
        (take (nat ?m) (takeWhile (\<lambda>c. \<not> ended ce c) (series_list ?mg c0)))))"
    unfolding series_consumes [OF mg ok start(2,3)] by (simp add: rmap_rmap)
  then show ?thesis
    unfolding getFutureMatches_def Let_def start(1) final rbind.simps es(1) simplifyExprs_sound [OF es(2)]
    using n(2) by (simp add: candidates_def)
qed

end

subsection \<open>Order, soundness and completeness of the candidates\<close>

lemma candidates_sorted:
  assumes "list_all sound_expr (expressions es)" "valid_cal c0" "modern (c_year c0)"
  shows "sorted_wrt (\<lambda>a b. cal_ms a < cal_ms b) (candidates es c0)"
  unfolding candidates_def by (intro series_list_sorted merged_values_ok assms)

lemma candidates_sound:
  assumes "list_all sound_expr (expressions es)" "valid_cal c0" "modern (c_year c0)" "c \<in> set (candidates es c0)"
  shows "valid_cal c" "modern (c_year c)" "c_millisecond c = c_millisecond c0" "cal_ms c0 \<le> cal_ms c"
proof -
  note ok = merged_values_ok [OF assms(1,3)]
  have c: "is_cand (merged_values (map simple_expr (expressions es)) (c_year c0)) c0 c" "cal_ms c0 \<le> cal_ms c"
    using assms(4) unfolding candidates_def set_series_list [OF ok assms(2)] by simp_all
  show "valid_cal c" "modern (c_year c)" by (rule is_cand_valid [OF ok assms(2) c(1)])+
  show "c_millisecond c = c_millisecond c0" "cal_ms c0 \<le> cal_ms c" using c by (simp_all add: is_cand_def)
qed

lemma year_of_later:
  assumes "valid_cal a" "valid_cal b" "cal_ms a \<le> cal_ms b"
  shows "c_year a \<le> c_year b"
proof (rule ccontr)
  assume "\<not> c_year a \<le> c_year b"
  then have "cal_ms b < cal_ms a" by (intro cal_ms_less_day [OF assms(2,1)]) (simp add: ymd_less_def)
  with assms(3) show False by simp
qed

lemma candidates_complete:
  assumes "list_all sound_expr (expressions es)" "valid_cal c0" "modern (c_year c0)"
    and "any_matches es c" "valid_cal c" "c_millisecond c = c_millisecond c0" "cal_ms c0 \<le> cal_ms c"
      "c_year c \<le> 2099"
  shows "c \<in> set (candidates es c0)"
proof -
  obtain e where e: "e \<in> set (expressions es)" "cron_matches e c"
    using assms(4) by (auto simp: any_matches_def list_ex_iff)
  have "is_cand (merged_values (map simple_expr (expressions es)) (c_year c0)) c0 c"
    using e assms year_of_later by (intro cron_matches_cand [OF e(1)]) (auto simp: list_all_iff)
  then show ?thesis
    using set_series_list [OF merged_values_ok [OF assms(1,3)] assms(2)] assms(7) by (simp add: candidates_def)
qed

context sane_zone
begin

lemma isTimeMatches_at:
  assumes L: "Locale_fromObject E no_locale_opts = Ok l1"
    and es: "parse_input expr OUndefined = Ok es" "list_all sound_expr (expressions es)"
    and t: "fromISO E time (from_zone timezone) = Ok (dt_at z off l c)"
      "valid_cal c" "modern (c_year c)" "c_year c < 10000"
  shows "isTimeMatches E expr time timezone = Ok (any_matches es c)"
  unfolding isTimeMatches_def es(1) rbind.simps simplifyExprs_sound [OF es(2)] t(1) any_matches_def
  by (rule isExprsMatches_at [OF L t(2-4) es(2)])

end

end
