(* ===== verification/JobPageLaws.thy ===== *)
theory JobPageLaws
  imports JobPage CronApiLaws
begin

text \<open>
  What the page of the jobs shows and sends: the next execution time east and west of Greenwich, the
  marks of the form, and the requests the buttons make.
\<close>

subsection \<open>A start that is no time\<close>

text \<open>When the start is invalid, the series yields nothing.\<close>

lemma foldB_idle: "\<forall>x. body x s = Ok (Next s) \<Longrightarrow> foldB body xs s = Ok (Next s)"
  by (induction xs) auto

lemma set_invalid: "\<not> isValid t \<Longrightarrow> setTime E t u n = Ok t"
  by (simp add: setTime_def DateTime_set_def)

lemma invalid_getters: "\<not> isValid t \<Longrightarrow> dt_get f t = None" "\<not> isValid t \<Longrightarrow> toMillis t = None"
    "\<not> isValid t \<Longrightarrow> dt_daysInMonth t = None"
  by (simp_all add: dt_get_def toMillis_def dt_daysInMonth_def)

lemma series_invalid:
  assumes "\<not> isValid t" "mergeExprs exprs None = Ok mg"
  shows "getTimeSeries E exprs t consume c = Ok c"
proof -
  let ?s = "\<lparr>g_time = t, g_reached = False, g_consumer = c\<rparr>"
  note inv = set_invalid [OF assms(1)] invalid_getters [OF assms(1)]
  have sec: "second_body E m consume n ?s = Ok (Next ?s)" for m n
    using inv by (simp add: second_body_def nle_def split: option.split)
  have mi: "minute_body E mg m consume n ?s = Ok (Next ?s)" for m n
    using inv sec by (simp add: foldB_idle minute_body_def)
  have hr: "hour_body E mg t consume ymd n ?s = Ok (Next ?s)" for ymd n
    using inv mi by (simp add: foldB_idle hour_body_def split: prod.split)
  have dy: "day_body E mg t consume ym n ?s = Ok (Next ?s)" for ym n
    using inv hr by (simp add: foldB_idle day_body_def split: prod.split)
  have mo: "month_body E mg t consume y n ?s = Ok (Next ?s)" for y n
    using inv dy by (simp add: foldB_idle month_body_def)
  have yr: "year_body E mg t consume y ?s = Ok (Next ?s)" for y
    using inv mo by (simp add: foldB_idle year_body_def)
  show ?thesis using inv assms(2) yr by (simp add: foldB_idle getTimeSeries_def)
qed

lemma expandField_None: "f_steps (e f) = None \<Longrightarrow> \<exists>vs. expandField e f None = Ok vs"
proof -
  assume s: "f_steps (e f) = None"
  have "mapM (\<lambda>r. getValues (r_from r) (r_to r) 1) (opt_list (f_ranges (e f)))
      = Ok (map (\<lambda>r. [r_from r..r_to r]) (opt_list (f_ranges (e f))))"
    by (rule mapM_Ok_map) simp
  with s show ?thesis
    by (auto simp: expandField_def Let_def steps_values_def matcher_FIELD_INFO_def opt_list_def [of None]
        split: prod.split)
qed

lemma mergeExprs_None:
  assumes "\<forall>e\<in>set (expressions exprs). \<forall>f. f_steps (e f) = None"
  shows "\<exists>mg. mergeExprs exprs None = Ok mg"
proof -
  have "\<exists>vss. mapM (\<lambda>e. expandField e f None) es = Ok vss" if "\<forall>e\<in>set es. f_steps (e f) = None" for es f
    using that by (induction es) (use expandField_None in fastforce)+
  then have x: "\<exists>vs. expandFields exprs f None = Ok vs" for f
    using assms by (simp add: expandFields_def)
  then obtain v where "\<And>f. expandFields exprs f None = Ok (v f)" by metis
  then show ?thesis by (simp add: mergeExprs_def matcher_FIELDS_def)
qed

lemma getFutureMatches_invalid:
  assumes start: "fromISO E (text_or (mo_startAt options) (toISOString (st_now E))) (from_zone (mo_timezone options))
      = Ok t" "\<not> isValid t"
    and final: "mo_endAt options = None"
    and es: "parse_input expr (mo_hasSeconds options) = Ok es" "list_all sound_expr (expressions es)"
  shows "getFutureMatches E expr options = Ok []"
proof -
  obtain mg where "mergeExprs (es\<lparr>expressions := map simple_expr (expressions es)\<rparr>) None = Ok mg"
    using mergeExprs_None [of "es\<lparr>expressions := map simple_expr (expressions es)\<rparr>"]
    by (auto simp: simple_expr_def)
  then show ?thesis
    using start final es simplifyExprs_sound [OF es(2)]
    by (simp add: getFutureMatches_def Let_def series_invalid)
qed

subsection \<open>The next execution time\<close>

text \<open>The present time, as the matcher writes it when no start is given, is between the years 100
  and 9999.\<close>

definition present :: "settings \<Rightarrow> bool" where
  "present E \<longleftrightarrow> stamp_ok (st_now E) \<and> modern (c_year (cal_of_ms (st_now E))) \<and>
     c_year (cal_of_ms (st_now E)) < 10000"

lemma plain_defaults: "plain_iso iso_defaults"
  by (simp add: plain_iso_def iso_defaults_def)

lemma parse_now:
  assumes "present E"
  shows "\<exists>ms. millis_of ms (cal_of_ms (st_now E)) \<and>
    parseISODate E (toISOString (st_now E)) = Some (iso_fields (cal_of_ms (st_now E)) ms, Some utcInstance)"
proof -
  have "0 \<le> c_year (cal_of_ms (st_now E))" "c_year (cal_of_ms (st_now E)) \<le> 9999"
    using assms by (simp_all add: present_def modern_def)
  from parse_iso_output [OF plain_defaults valid_cal_of_ms this zt_Z] show ?thesis
    by (simp add: toISOString_def Let_def)
qed

lemma fromISO_unknown_zone:
  assumes z: "normalizeZone E zi (defaultZone E) = z" "\<not> zone_isValid z" and throw: "\<not> st_throwOnInvalid E"
    and L: "Locale_fromObject E no_locale_opts = Ok l" and now: "present E"
  shows "\<exists>t. fromISO E (toISOString (st_now E)) (no_from_opts\<lparr>fo_zone := zi\<rparr>) = Ok t \<and> \<not> isValid t"
proof -
  let ?c = "cal_of_ms (st_now E)"
  have c: "valid_cal ?c" "modern (c_year ?c)" "c_year ?c < 10000"
    using now by (simp_all add: present_def valid_cal_of_ms)
  obtain ms where ms: "millis_of ms ?c" "parseISODate E (toISOString (st_now E)) = Some (iso_fields ?c ms, Some utcInstance)"
    using parse_now [OF now] by blast
  have utc: "const_zone E utcInstance 0" by unfold_locales
  have obj: "fromObject E (iso_fields ?c ms) (no_from_opts\<lparr>fo_zone := ZZone utcInstance, fo_specificOffset := None\<rparr>)
      = Ok (dt_at utcInstance 0 l ?c)"
    using now modern_in_range [OF c(1,2), of 0] modern_not_lost [OF c(2)] ms(1) c(1) L
    by (intro const_zone.fromObject_at [OF utc])
      (simp_all add: no_from_opts_def normalizeZone_def present_def)
  have "\<not> zone_equals z utcInstance"
    using z(2) by (cases z) (auto simp: zone_equals_def utcInstance_def zone_type_def zone_isValid_def)
  then obtain t where t: "setZone E (dt_at utcInstance 0 l ?c) zi False = Ok t" "\<not> isValid t"
    using z throw L
    by (auto simp: setZone_def DateTime_invalid_def DateTime_new_def no_config_def config_invalid_def Let_def
        isValid_def Locale_fromObject_def no_locale_opts_def)
  have "fromISO E (toISOString (st_now E)) (no_from_opts\<lparr>fo_zone := zi\<rparr>) = Ok t"
    unfolding fromISO_def ms(2)
    by (simp add: from_parsed_def parseDataToDateTime_def Let_def) (use obj t(1) in \<open>simp add: no_from_opts_def iso_fields_def\<close>)
  with t(2) show ?thesis by blast
qed

text \<open>West of Greenwich the zone is \<open>UTC+-h\<close>, which is no offset.\<close>

lemma page_timezone_west:
  assumes "0 < tzo"
  shows "normalizeZone E (ZString (page_timezone tzo)) d
    = IANAZone (page_timezone tzo) (pf_zone_ok E (page_timezone tzo))"
proof -
  obtain r where r: "page_timezone tzo = ''UTC+-'' @ r"
    using assms by (auto simp: page_timezone_def hours_text_def Let_def)
  have low: "toLowerCase (page_timezone tzo) = ''utc+-'' @ toLowerCase r"
    unfolding r by (simp add: toLowerCase_def lower_char_def) code_simp
  have "match_utc (''utc+-'' @ s) = None" for s
    by (simp add: match_utc_def Let_def is_digit_def)
  then have "parseSpecifier (toLowerCase (page_timezone tzo)) = None"
    by (simp add: parseSpecifier_def low)
  then show ?thesis
    using low by (simp add: normalizeZone_def Let_def IANAZone_create_def isValidZone_def r)
qed

text \<open>East of Greenwich at a whole number of hours it is the offset.\<close>

lemma page_timezone_east:
  assumes "0 \<le> h" "h < 100"
  shows "normalizeZone E (ZString (page_timezone (- (60 * h)))) d = FixedOffsetZone (of_int (60 * h))"
proof -
  have tz: "page_timezone (- (60 * h)) = ''UTC+'' @ show_int h"
    using assms(1) by (simp add: page_timezone_def hours_text_def Let_def)
  have "lower_char c = c" if "is_digit c" for c
    using that by (auto simp: lower_char_def is_digit_def)
  then have "map lower_char (show_int h) = show_int h"
    using show_int_sign_digits [OF assms(1)] by (intro map_idI) blast
  moreover have "map lower_char ''UTC+'' = ''utc+''" "map lower_char ''utc'' = ''utc''" by code_simp+
  ultimately have low: "toLowerCase (page_timezone (- (60 * h))) = ''utc+'' @ show_int h" "toLowerCase ''utc'' = ''utc''"
    unfolding tz toLowerCase_def map_append by simp_all
  then have "match_utc (''utc+'' @ show_int h) = Some (Some (CHR ''+'' # show_int h), None)"
    using assms by (simp add: match_utc_def Let_def not_less)
  moreover have "signedOffset (Some (CHR ''+'' # show_int h)) None = 60 * h"
    using scan_int_signed [OF assms(1), of "CHR ''+''"] assms(1) by (simp add: signedOffset_def Let_def)
  ultimately show ?thesis using low by (simp add: normalizeZone_def Let_def parseSpecifier_def)
qed

lemma page_options_simps [simp]:
  "mo_startAt (page_options tzo) = None" "mo_endAt (page_options tzo) = None"
  "mo_timezone (page_options tzo) = Some (page_timezone tzo)" "mo_matchCount (page_options tzo) = Some 5"
  "mo_maxLoopCount (page_options tzo) = None" "mo_hasSeconds (page_options tzo) = OBool True"
  "mo_formatInTimezone (page_options tzo) = True" "validates (page_options tzo) = (\<lambda>_. True)"
  by (simp_all add: page_options_def no_options_def validates_def fun_eq_iff)

lemma page_from_zone: "from_zone (Some (page_timezone tzo)) = no_from_opts\<lparr>fo_zone := ZString (page_timezone tzo)\<rparr>"
  by (simp add: from_zone_def text_or_def page_timezone_def)

text \<open>The jobs of a browser west of Greenwich are never shown to run.\<close>

lemma nextExecTime_west:
  assumes tzo: "0 < tzo" "\<not> pf_zone_ok E (page_timezone tzo)" and throw: "\<not> st_throwOnInvalid E"
    and L: "Locale_fromObject E no_locale_opts = Ok l" and now: "present E"
    and row: "r_execType row = TimingExecute" "parse (r_cron row) (OBool True) = Ok es"
      "list_all sound_expr (expressions es)"
  shows "nextExecTime_cell E tzo local row = Ok (div_text ''never'')"
proof -
  have z: "normalizeZone E (ZString (page_timezone tzo)) (defaultZone E) = IANAZone (page_timezone tzo) False"
    unfolding page_timezone_west [OF tzo(1)] using tzo(2) by simp
  obtain t where "fromISO E (toISOString (st_now E)) (no_from_opts\<lparr>fo_zone := ZString (page_timezone tzo)\<rparr>) = Ok t"
    "\<not> isValid t"
    using fromISO_unknown_zone [OF z _ throw L now] by (auto simp: zone_isValid_def)
  then have "getFutureMatches E (CText (r_cron row)) (page_options tzo) = Ok []"
    using row(2,3) by (intro getFutureMatches_invalid) (simp_all add: page_from_zone text_or_def parse_input_def)
  then show ?thesis using row(1) by (simp add: nextExecTime_cell_def)
qed

text \<open>East of it, at a whole number of hours, the first matching time from now on is shown.\<close>

lemma find_hd_filter: "find P xs = (case filter P xs of [] \<Rightarrow> None | x # _ \<Rightarrow> Some x)"
  by (induction xs) auto

definition next_match :: "cron_exprs \<Rightarrow> cal \<Rightarrow> cal option" where
  "next_match es c0 = find (any_matches es) (take 100000 (candidates es c0))"

lemma page_start_east:
  assumes "0 \<le> h" "h < 100" "Locale_fromObject E no_locale_opts = Ok l" "present E"
  shows "fromISO E (toISOString (st_now E)) (from_zone (Some (page_timezone (- (60 * h)))))
    = Ok (dt_at (FixedOffsetZone (of_int (60 * h))) (60 * h) l (cal_of_ms (st_now E + 60 * h * 60000)))"
proof -
  let ?c = "cal_of_ms (st_now E)"
  have sane: "sane_zone E (FixedOffsetZone (of_int (60 * h))) (60 * h)" using assms(1,2) by (intro fixed_sane_zone) simp
  have c: "valid_cal ?c" "modern (c_year ?c)" "c_year ?c < 10000"
    using assms(4) by (simp_all add: present_def valid_cal_of_ms)
  show ?thesis
    using sane_zone.fromISO_utc [OF sane plain_defaults page_timezone_east [OF assms(1,2)] assms(3) _ c] assms(4)
    by (simp add: toISOString_def Let_def present_def page_from_zone)
qed

lemma nextExecTime_east:
  assumes h: "0 \<le> h" "h < 100"
    and L: "Locale_fromObject E no_locale_opts = Ok l" and now: "present E"
      "modern (c_year (cal_of_ms (st_now E + 60 * h * 60000)))"
    and row: "r_execType row = TimingExecute" "parse (r_cron row) (OBool True) = Ok es"
      "list_all sound_expr (expressions es)"
  shows "nextExecTime_cell E (- (60 * h)) local row = Ok (div_text
    (case next_match es (cal_of_ms (st_now E + 60 * h * 60000)) of None \<Rightarrow> ''never''
     | Some c \<Rightarrow> local (toISO E (dt_at (FixedOffsetZone (of_int (60 * h))) (60 * h) l c) (matcher_iso True))))"
proof -
  let ?z = "FixedOffsetZone (of_int (60 * h))" and ?off = "60 * h"
  let ?start = "cal_of_ms (st_now E + 60 * h * 60000)"
  let ?P = "any_matches es" and ?cs = "take 100000 (candidates es ?start)"
  let ?out = "\<lambda>c. toISO E (dt_at ?z ?off l c) (matcher_iso True)"
  have sane: "sane_zone E ?z ?off" using h by (intro fixed_sane_zone) simp
  note start = page_start_east [OF h L now(1)]
  have "getFutureMatches E (CText (r_cron row)) (page_options (- (60 * h)))
      = Ok (take (nat (int_or (mo_matchCount (page_options (- (60 * h)))) 5))
          (wanted ?P ?out (validates (page_options (- (60 * h))))
            (take (nat (int_or (mo_maxLoopCount (page_options (- (60 * h)))) MAX_LOOP_COUNT))
              (takeWhile (\<lambda>c. \<not> ended None c) (candidates es ?start)))))"
    using start row(2,3) now(2) sane_zone.getOutputTime_zone [OF sane]
    by (intro sane_zone.getFutureMatches_at [OF sane L])
      (simp_all add: page_from_zone text_or_def parse_input_def valid_cal_of_ms int_or_def MAX_LOOP_COUNT_def)
  then have m: "getFutureMatches E (CText (r_cron row)) (page_options (- (60 * h)))
      = Ok (take 5 (map ?out (filter ?P ?cs)))"
    by (simp add: int_or_def MAX_LOOP_COUNT_def wanted_def ended_def takeWhile_eq_all_conv [THEN iffD2])
  have "find ?P ?cs = (case filter ?P ?cs of [] \<Rightarrow> None | c # _ \<Rightarrow> Some c)"
    by (rule find_hd_filter)
  then show ?thesis
    using row(1) by (cases "filter ?P ?cs") (simp_all add: nextExecTime_cell_def m next_match_def)
qed

subsection \<open>The page as a machine\<close>

text \<open>What can happen: the user's actions, and the answers of the server, which may come in any order
  and at any time. \<open>S\<close> holds the rows the server may send.\<close>

inductive page_step :: "job_row set \<Rightarrow> page \<Rightarrow> page \<Rightarrow> bool" for S where
  st_load: "set rows \<subseteq> S \<Longrightarrow> page_step S p (rows_loaded rows p)"
| st_remove: "row \<in> S \<Longrightarrow> page_step S p (remove_job (r_jobId row) p)"
| st_removed: "page_step S p (remove_success p)"
| st_flip: "row \<in> S \<Longrightarrow> page_step S p (flip_switch (r_jobId row) i p)"
| st_edit: "edit i p = Ok q \<Longrightarrow> page_step S p q"
| st_type: "page_step S p (type_cron s p)"
| st_fields: "page_step S p (p\<lparr>pg_form := (pg_form p)\<lparr>fm_name := n, fm_description := d\<rparr>\<rparr>)"
| st_close: "page_step S p (p\<lparr>pg_modalShown := False\<rparr>)"
| st_save: "page_step S p (save p)"
| st_saved: "page_step S p (save_success p)"

text \<open>The page after it is loaded: no row has been edited and nothing was sent.\<close>

definition fresh :: "page \<Rightarrow> bool" where
  "fresh p \<longleftrightarrow> pg_rows p = None \<and> pg_jobId p = [] \<and> pg_requests p = [] \<and> pg_hintHidden p \<and>
     pg_cronClass p = ''form-control''"

inductive reachable :: "job_row set \<Rightarrow> page \<Rightarrow> bool" for S where
  re_start: "fresh p \<Longrightarrow> reachable S p"
| re_step: "reachable S p \<Longrightarrow> page_step S p q \<Longrightarrow> reachable S q"

definition known :: "job_row set \<Rightarrow> string \<Rightarrow> bool" where
  "known S i \<longleftrightarrow> (\<exists>row\<in>S. r_jobId row = i)"

definition known_request :: "job_row set \<Rightarrow> request \<Rightarrow> bool" where
  "known_request S r \<longleftrightarrow> (case r of Delete_job i \<Rightarrow> known S i | Enable_job i _ \<Rightarrow> known S i
     | Create_job _ \<Rightarrow> True | Update_job i _ \<Rightarrow> known S i \<and> i \<noteq> [])"

definition page_ok :: "job_row set \<Rightarrow> page \<Rightarrow> bool" where
  "page_ok S p \<longleftrightarrow> (\<forall>rows. pg_rows p = Some rows \<longrightarrow> set rows \<subseteq> S) \<and>
     (pg_jobId p = [] \<or> known S (pg_jobId p)) \<and> list_all (known_request S) (pg_requests p) \<and>
     (pg_cronClass p = ''form-control is-invalid'' \<longrightarrow> \<not> pg_hintHidden p) \<and>
     (pg_cronClass p = ''form-control is-valid'' \<longrightarrow> pg_hintHidden p)"

lemmas page_defs = rows_loaded_def remove_job_def remove_success_def flip_switch_def enable_def type_cron_def
  cronCheck_def save_def save_success_def reload_def navClick_def send_def Let_def

lemma edit_page_ok:
  assumes "edit i p = Ok q" "page_ok S p"
  shows "page_ok S q"
proof -
  obtain rows where rows: "pg_rows p = Some rows" "i < length rows"
    and q: "q = p\<lparr>pg_jobId := r_jobId (rows ! i),
      pg_form := \<lparr>fm_name = r_name (rows ! i), fm_description = r_description (rows ! i),
        fm_cron = r_cron (rows ! i)\<rparr>, pg_modalShown := True\<rparr>"
    using assms(1) by (auto simp: edit_def Let_def split: option.splits if_splits)
  have "rows ! i \<in> S" using assms(2) rows nth_mem by (fastforce simp: page_ok_def)
  then show ?thesis using assms(2) rows unfolding q by (auto simp: page_ok_def known_def)
qed

lemma other_steps_page_ok:
  assumes "page_ok S p"
  shows "set rows \<subseteq> S \<Longrightarrow> page_ok S (rows_loaded rows p)"
    "row \<in> S \<Longrightarrow> page_ok S (remove_job (r_jobId row) p)"
    "page_ok S (remove_success p)"
    "row \<in> S \<Longrightarrow> page_ok S (flip_switch (r_jobId row) i p)"
    "page_ok S (type_cron s p)"
    "page_ok S (p\<lparr>pg_form := f\<rparr>)"
    "page_ok S (p\<lparr>pg_modalShown := False\<rparr>)"
    "page_ok S (save p)"
    "page_ok S (save_success p)"
  using assms
  by (auto simp: page_defs page_ok_def known_def known_request_def split: option.splits)

lemma page_step_ok: "page_step S p q \<Longrightarrow> page_ok S p \<Longrightarrow> page_ok S q"
  by (induction rule: page_step.induct) (blast intro: other_steps_page_ok edit_page_ok)+

lemma reachable_ok: "reachable S p \<Longrightarrow> page_ok S p"
proof (induction rule: reachable.induct)
  case (re_start p)
  then show ?case by (simp add: fresh_def page_ok_def)
next
  case (re_step p q)
  then show ?case by (blast intro: page_step_ok)
qed

text \<open>Editing a row and saving the form as it is sends the row back.\<close>

lemma save_edited:
  assumes "pg_rows p = Some rows" "i < length rows" "r_jobId (rows ! i) \<noteq> []"
  shows "\<exists>q. edit i p = Ok q \<and> pg_requests (save q) = pg_requests p @
    [Update_job (r_jobId (rows ! i)) \<lparr>fm_name = r_name (rows ! i),
       fm_description = r_description (rows ! i), fm_cron = r_cron (rows ! i)\<rparr>]"
  using assms by (simp add: edit_def save_def send_def Let_def)

lemma type_cron_marks:
  "pg_cronClass (type_cron s p) = ''form-control is-valid'' \<longleftrightarrow> is_Ok (parse s (OBool True))"
  "pg_cronClass (type_cron s p) = ''form-control is-invalid'' \<longleftrightarrow> \<not> is_Ok (parse s (OBool True))"
  by (simp_all add: type_cron_def cronCheck_def)

end
