(* ===== verification/Sample.thy ===== *)
theory Sample
  imports JobPageLaws ZoneLaws
begin

text \<open>
  One concrete platform, for the inputs on which the properties are run: a browser that knows the zone
  \<open>Etc/UTC\<close> and the locale \<open>en-US\<close>, with settings as the library has them at the start. Its clock
  shows noon of the first of February 2024, and its system time zone is universal time.
\<close>

definition sample :: settings where
  "sample = \<lparr>pf_tzo = (\<lambda>_. 0), pf_zone_ok = (\<lambda>z. z = TZ_UTC), pf_parts = (\<lambda>_ t. parts_of (cal_of_ms t)),
     pf_zone = ''Etc/UTC'', pf_locale = ''en-US'', pf_resolve = (\<lambda>_. None), st_now = 1706788800000,
     st_defaultZone = ZUndefined, st_defaultLocale = None, st_defaultNumberingSystem = None,
     st_defaultOutputCalendar = None, st_throwOnInvalid = False\<rparr>"

definition sample_locale :: locale_obj where
  "sample_locale = res_val (Locale_fromObject sample no_locale_opts)"

lemma sample_locale: "Locale_fromObject sample no_locale_opts = Ok sample_locale"
  unfolding sample_locale_def by code_simp

lemma sample_now:
  "stamp_ok (st_now sample)"
  "cal_of_ms (st_now sample) = \<lparr>c_year = 2024, c_month = 2, c_day = 1, c_hour = 12, c_minute = 0,
     c_second = 0, c_millisecond = 0\<rparr>"
  "present sample"
  by code_simp+

lemma sample_utc: "utc_platform sample"
  unfolding utc_platform_def utc_zone_def
  by (auto intro!: iana_sane_zone simp: sample_def reads_parts_of)

lemma sample_zone: "sane_zone sample utc_zone 0" "pf_zone_ok sample TZ_UTC"
  using sample_utc by (simp_all add: utc_platform_def)

lemma sample_text:
  assumes "valid_cal c" "modern (c_year c)" "c_year c < 10000"
  shows "fromISO sample (toISODate_cal c True @ ''T'' @ toISOTime_clock c iso_defaults @ ''Z'') (from_zone None)
    = Ok (dt_at utc_zone 0 sample_locale c)"
  using sane_zone.fromISO_utc [OF sample_zone(1) plain_defaults normalize_TZ_UTC [OF sample_zone(2)] sample_locale
      sample_now(1) assms] assms(1)
  by (simp add: from_zone_def text_or_def)

text \<open>A start, and an expression for the end of February.\<close>

definition february :: cal where
  "february = \<lparr>c_year = 2024, c_month = 2, c_day = 1, c_hour = 0, c_minute = 0, c_second = 0,
     c_millisecond = 0\<rparr>"

definition february_text :: string where
  "february_text = ''2024-02-01T00:00:00.000Z''"

lemma february_ok: "valid_cal february" "modern (c_year february)" "c_year february < 10000"
  by code_simp+

lemma from_february: "fromISO sample february_text (from_zone None) = Ok (dt_at utc_zone 0 sample_locale february)"
proof -
  have "toISODate_cal february True @ ''T'' @ toISOTime_clock february iso_defaults @ ''Z'' = february_text"
    by code_simp
  with sample_text [OF february_ok] show ?thesis by simp
qed

definition leap_cron :: string where
  "leap_cron = ''0 0 29 2 ? 2024''"

definition leap_exprs :: cron_exprs where
  "leap_exprs = res_val (parse leap_cron OUndefined)"

lemma leap_exprs: "parse leap_cron OUndefined = Ok leap_exprs"
  unfolding leap_exprs_def by code_simp

lemma leap_exprs_sound: "list_all sound_expr (expressions leap_exprs)"
  by code_simp

definition leap_day :: cal where
  "leap_day = february\<lparr>c_day := 29\<rparr>"

lemma leap_candidates: "candidates leap_exprs february = [leap_day]"
proof -
  have "map cal_key (candidates leap_exprs february) = [cal_key leap_day]" by code_simp
  then show ?thesis by (auto simp: cal_key_def map_eq_Cons_conv intro!: cal.equality)
qed

lemma leap_matches: "any_matches leap_exprs leap_day" "valid_cal leap_day" "modern (c_year leap_day)"
  by code_simp+

lemma leap_run: "\<exists>t. getFutureMatches sample (CText leap_cron) (no_options\<lparr>mo_startAt := Some february_text\<rparr>) = Ok [t]"
proof -
  let ?o = "no_options\<lparr>mo_startAt := Some february_text\<rparr>"
  have o: "text_or (mo_startAt ?o) s = february_text" "mo_timezone ?o = None" "mo_endAt ?o = None"
    "mo_hasSeconds ?o = OUndefined" "int_or (mo_matchCount ?o) 5 = 5"
    "int_or (mo_maxLoopCount ?o) MAX_LOOP_COUNT = 100000" "\<not> mo_formatInTimezone ?o"
    "validates ?o x" for s x
    by (simp_all add: no_options_def text_or_def february_text_def int_or_def MAX_LOOP_COUNT_def validates_def)
  show ?thesis
    by (subst sane_zone.getFutureMatches_at [OF sample_zone(1) sample_locale _ february_ok(1,2), where ce = None
        and es = leap_exprs and out = "\<lambda>c. Some (utc_text (cal_ms c - 0 * 60000))"])
      (simp_all only: o from_february sane_zone.getOutputTime_utc [OF sample_zone(1) sample_utc],
       simp_all add: leap_candidates leap_matches leap_exprs_sound o parse_input_def leap_exprs ended_def)
qed

end
