(* ===== verification/LoopLaws.thy ===== *)
theory LoopLaws
  imports CronApiLaws
begin

text \<open>
  Invariants of the nested loops of the series, for any start time, zone and expression: what the
  consumer keeps, the series keeps. With them, what holds of every answer of \<open>getFutureMatches\<close>.
\<close>

text \<open>\<open>P\<close> holds while the loop goes on and \<open>Q\<close> when it was left.\<close>

definition keeps :: "('s \<Rightarrow> bool) \<Rightarrow> ('s \<Rightarrow> bool) \<Rightarrow> ('s \<Rightarrow> 's ctl res) \<Rightarrow> bool" where
  "keeps P Q f \<longleftrightarrow> (\<forall>s r. P s \<longrightarrow> f s = Ok r \<longrightarrow> (case r of Next t \<Rightarrow> P t | Stop t \<Rightarrow> Q t))"

lemma keepsI: "(\<And>s r. P s \<Longrightarrow> f s = Ok r \<Longrightarrow> case r of Next t \<Rightarrow> P t | Stop t \<Rightarrow> Q t) \<Longrightarrow> keeps P Q f"
  by (simp add: keeps_def)

lemma keepsD: "keeps P Q f \<Longrightarrow> P s \<Longrightarrow> f s = Ok r \<Longrightarrow> case r of Next t \<Rightarrow> P t | Stop t \<Rightarrow> Q t"
  by (simp add: keeps_def)

lemma keeps_foldB: "(\<And>x. keeps P Q (body x)) \<Longrightarrow> keeps P Q (foldB body xs)"
proof (rule keepsI)
  fix s r
  assume body: "\<And>x. keeps P Q (body x)" and s: "P s" "foldB body xs s = Ok r"
  from s show "case r of Next t \<Rightarrow> P t | Stop t \<Rightarrow> Q t"
  proof (induction xs arbitrary: s)
    case (Cons x xs)
    then obtain u where u: "body x s = Ok u"
      "(case u of Next t \<Rightarrow> foldB body xs t | Stop t \<Rightarrow> Ok (Stop t)) = Ok r" by auto
    with keepsD [OF body Cons.prems(1) u(1)] Cons.IH show ?case by (cases u) auto
  qed auto
qed

abbreviation on_consumer :: "('c \<Rightarrow> bool) \<Rightarrow> 'c series \<Rightarrow> bool" where
  "on_consumer P s \<equiv> P (g_consumer s)"

lemma keeps_set:
  assumes "keeps (on_consumer P) (on_consumer Q) loop"
  shows "keeps (on_consumer P) (on_consumer Q)
    (\<lambda>s. rbind (setTime E (g_time s) u n) (\<lambda>g. loop (s\<lparr>g_time := g\<rparr>)))"
proof (rule keepsI)
  fix s r
  assume s: "P (g_consumer s)" "rbind (setTime E (g_time s) u n) (\<lambda>g. loop (s\<lparr>g_time := g\<rparr>)) = Ok r"
  then obtain g where "loop (s\<lparr>g_time := g\<rparr>) = Ok r" by auto
  with assms s(1) show "case r of Next t \<Rightarrow> on_consumer P t | Stop t \<Rightarrow> on_consumer Q t"
    by (intro keepsD [of "on_consumer P" _ loop]) auto
qed

lemma keeps_skip: "keeps P Q f \<Longrightarrow> keeps P Q (\<lambda>s. if b s then Ok (Next s) else f s)"
  by (auto simp: keeps_def split: ctl.splits)

lemma keeps_second:
  assumes "\<And>t. keeps P Q (consume t)"
  shows "keeps (on_consumer P) (on_consumer Q) (second_body E ms consume n)"
proof (rule keepsI)
  fix s r
  assume s: "P (g_consumer s)" "second_body E ms consume n s = Ok r"
  then obtain t where "setTime E (g_time s) ''second'' n = Ok t" by (auto simp: second_body_def)
  with s keepsD [OF assms s(1), of t] show "case r of Next t \<Rightarrow> on_consumer P t | Stop t \<Rightarrow> on_consumer Q t"
    by (fastforce simp: second_body_def Let_def ctl_map_def split: if_splits ctl.splits)
qed

lemma keeps_bodies:
  assumes "\<And>t. keeps P Q (consume t)"
  shows "keeps (on_consumer P) (on_consumer Q) (minute_body E mg ms consume mi)"
    "keeps (on_consumer P) (on_consumer Q) (hour_body E mg st consume ymd h)"
    "keeps (on_consumer P) (on_consumer Q) (day_body E mg st consume ym d)"
    "keeps (on_consumer P) (on_consumer Q) (month_body E mg st consume y m)"
    "keeps (on_consumer P) (on_consumer Q) (year_body E mg st consume y)"
proof -
  show mi: "keeps (on_consumer P) (on_consumer Q) (minute_body E mg ms consume mi)" for ms mi
    unfolding minute_body_def by (intro keeps_set keeps_foldB keeps_second assms)
  show h: "keeps (on_consumer P) (on_consumer Q) (hour_body E mg st consume ymd h)" for ymd h
    unfolding hour_body_def by (cases ymd) (simp, intro keeps_skip keeps_set keeps_foldB mi)
  show d: "keeps (on_consumer P) (on_consumer Q) (day_body E mg st consume ym d)" for ym d
    unfolding day_body_def by (cases ym) (simp, intro keeps_skip keeps_set keeps_foldB h)
  show m: "keeps (on_consumer P) (on_consumer Q) (month_body E mg st consume y m)" for y m
    unfolding month_body_def by (intro keeps_skip keeps_set keeps_foldB d)
  show "keeps (on_consumer P) (on_consumer Q) (year_body E mg st consume y)"
    unfolding year_body_def by (intro keeps_skip keeps_set keeps_foldB m)
qed

lemma getTimeSeries_keeps:
  assumes "\<And>t. keeps P Q (consume t)" "getTimeSeries E es start consume c = Ok d" "P c"
  shows "P d \<or> Q d"
proof -
  obtain mg r where r: "foldB (year_body E mg start consume) (mg YEAR)
      \<lparr>g_time = start, g_reached = False, g_consumer = c\<rparr> = Ok r" "d = g_consumer (ctl_state r)"
    using assms(2) by (auto simp: getTimeSeries_def)
  have "keeps (on_consumer P) (on_consumer Q) (foldB (year_body E mg start consume) (mg YEAR))"
    by (intro keeps_foldB keeps_bodies(5) assms(1))
  from keepsD [OF this _ r(1)] assms(3) r(2) show ?thesis by (cases r) auto
qed

text \<open>The state of the loop of \<open>getFutureMatches\<close>.\<close>

lemma future_body_keeps:
  "keeps (\<lambda>(k, ts). k < m \<and> int (length ts) < n \<and> list_all (validates options) ts)
     (\<lambda>(k, ts). k \<le> m \<and> int (length ts) \<le> n \<and> list_all (validates options) ts)
     (future_body E es start final n m options t)"
proof (rule keepsI, clarify)
  fix k ts r
  assume s: "k < m" "int (length ts) < n" "list_all (validates options) ts"
    and r: "future_body E es start final n m options t (k, ts) = Ok r"
  let ?past = "case final of None \<Rightarrow> False | Some e \<Rightarrow> nle (toMillis e) (toMillis t)"
  let ?early = "nless (toMillis t) (toMillis start)"
  show "case r of Next (k, ts) \<Rightarrow> k < m \<and> int (length ts) < n \<and> list_all (validates options) ts
      | Stop (k, ts) \<Rightarrow> k \<le> m \<and> int (length ts) \<le> n \<and> list_all (validates options) ts"
  proof (cases "?past \<or> ?early")
    case True
    then have "r = Stop (k + 1, ts) \<or> r = next_round m (k + 1, ts)"
      using r by (cases ?past) (simp_all add: future_body_def Let_def)
    with s show ?thesis by (auto simp: next_round_def)
  next
    case False
    define more where "more = (\<lambda>b. if b then rmap (\<lambda>time. if (case mo_matchValidator options of None \<Rightarrow> True | Some valid \<Rightarrow> valid time)
        then ts @ [time] else ts) (getOutputTime E t (mo_formatInTimezone options)) else Ok ts)"
    obtain b us where us: "more b = Ok us"
      "r = (if int (length us) \<ge> n then Stop (k + 1, us) else next_round m (k + 1, us))"
      using r False by (auto simp: future_body_def Let_def more_def)
    from us(1) s have "list_all (validates options) us \<and> length us \<le> length ts + 1"
      by (auto simp: more_def validates_def split: if_splits)
    with us(2) s show ?thesis by (auto simp: next_round_def)
  qed
qed

lemma getFutureMatches_validates:
  assumes "getFutureMatches E expr options = Ok ts" "1 \<le> int_or (mo_matchCount options) 5"
  shows "int (length ts) \<le> int_or (mo_matchCount options) 5 \<and> list_all (validates options) ts"
proof (cases "int_or (mo_maxLoopCount options) MAX_LOOP_COUNT \<le> 0")
  case True
  then show ?thesis using assms by (auto simp: getFutureMatches_def Let_def)
next
  case False
  then obtain es start final k where "getTimeSeries E es start (future_body E es start final
      (int_or (mo_matchCount options) 5) (int_or (mo_maxLoopCount options) MAX_LOOP_COUNT) options) (0, [])
      = Ok (k, ts)"
    using assms(1) by (fastforce simp: getFutureMatches_def Let_def)
  from getTimeSeries_keeps [OF future_body_keeps this] False assms(2) show ?thesis by auto
qed

subsection \<open>Steps that never end\<close>

text \<open>The values of a step are collected by a loop that ends when the step is positive or the range is
  empty. The expressions can be expanded exactly when that holds of all their steps.\<close>

definition step_ends :: "cron_step \<Rightarrow> bool" where
  "step_ends s \<longleftrightarrow> 0 < s_step s \<or> s_to s < s_from s"

lemma mapM_Hang_iff: "(\<And>x e. f x \<noteq> Throw e) \<Longrightarrow> mapM f xs = Hang \<longleftrightarrow> (\<exists>x\<in>set xs. f x = Hang)"
proof (induction xs)
  case (Cons x xs)
  then show ?case by (cases "f x") auto
qed simp

lemma mapM_not_Throw: "(\<And>x e. f x \<noteq> Throw e) \<Longrightarrow> mapM f xs \<noteq> Throw e"
proof (induction xs)
  case (Cons x xs)
  then show ?case by (cases "f x") auto
qed simp

lemma getValues_Hang_iff: "getValues a b k = Hang \<longleftrightarrow> k \<le> 0 \<and> a \<le> b"
  using getValues_pos [of k a b] getValues_empty [of b a k] getValues_hang [of k a b] by fastforce

lemma rmap_eq_Throw [simp]: "rmap f m = Throw e \<longleftrightarrow> m = Throw e"
  by (cases m) auto

lemma steps_values_Hang_iff: "steps_values steps = Hang \<longleftrightarrow> \<not> list_all step_ends (opt_list steps)"
  by (auto simp: steps_values_def mapM_Hang_iff getValues_not_Throw getValues_Hang_iff list_all_iff step_ends_def not_less)

lemma steps_values_not_Throw: "steps_values steps \<noteq> Throw e"
  by (simp add: steps_values_def mapM_not_Throw getValues_not_Throw)

lemma simplifyField_cases:
  obtains "simplifyField f e = Hang" "\<not> list_all step_ends (opt_list (f_steps (e f)))"
  | x where "simplifyField f e = Ok (e(f := x))" "list_all step_ends (opt_list (f_steps (e f)))"
proof (cases "f_steps (e f)")
  case None
  with that(2) [of "e f"] show ?thesis by (simp add: simplifyField_def opt_list_def)
next
  case (Some ss)
  with that steps_values_Hang_iff [of "Some ss"] steps_values_not_Throw [of "Some ss"] show ?thesis
    by (cases "steps_values (Some ss)") (auto simp: simplifyField_def)
qed

lemma simplify_fields_Hang:
  "distinct fs \<Longrightarrow> foldM simplifyField fs e = Hang \<longleftrightarrow>
     (\<exists>f\<in>set fs. \<not> list_all step_ends (opt_list (f_steps (e f))))"
proof (induction fs arbitrary: e)
  case (Cons f fs)
  show ?case
  proof (cases rule: simplifyField_cases [of f e])
    case (2 x)
    have "(\<exists>g\<in>set fs. \<not> list_all step_ends (opt_list (f_steps ((e(f := x)) g)))) \<longleftrightarrow>
        (\<exists>g\<in>set fs. \<not> list_all step_ends (opt_list (f_steps (e g))))"
      using Cons.prems by (intro bex_cong) auto
    with 2 Cons show ?thesis by simp
  qed simp
qed simp

lemma simplify_fields_not_Throw: "foldM simplifyField fs e \<noteq> Throw er"
proof (induction fs arbitrary: e)
  case (Cons f fs)
  then show ?case by (cases rule: simplifyField_cases [of f e]) auto
qed simp

lemma set_matcher_FIELDS: "set matcher_FIELDS = UNIV"
  by (auto simp: matcher_FIELDS_def) (metis fld.exhaust)

lemma distinct_matcher_FIELDS: "distinct matcher_FIELDS"
  by (simp add: matcher_FIELDS_def)

lemma simplifyExprs_Hang:
  "simplifyExprs es = Hang \<longleftrightarrow>
   (\<exists>e\<in>set (expressions es). \<exists>f. \<not> list_all step_ends (opt_list (f_steps (e f))))"
  by (auto simp: simplifyExprs_def mapM_Hang_iff simplify_fields_not_Throw set_matcher_FIELDS
      simplify_fields_Hang [OF distinct_matcher_FIELDS])

lemma simplifyExprs_not_Throw: "simplifyExprs es \<noteq> Throw e"
  by (simp add: simplifyExprs_def mapM_not_Throw simplify_fields_not_Throw)

text \<open>So does everything that simplifies them first.\<close>

lemma getFutureMatches_Hang:
  assumes "fromISO E (text_or (mo_startAt options) (toISOString (st_now E))) (from_zone (mo_timezone options)) = Ok t"
    and "mo_endAt options = None" "parse_input expr (mo_hasSeconds options) = Ok es" "simplifyExprs es = Hang"
  shows "getFutureMatches E expr options = Hang"
  using assms by (simp add: getFutureMatches_def Let_def)

end
