(* ===== verification/CronPrint.thy ===== *)
theory CronPrint
  imports CronParser
begin

text \<open>
  A reference printer for parsed cron fields, and the round trip: parsing the printed form of a
  field gives the field back. The printer is the specification's, not the code's; what it shows is
  that every well-formed field has a text that denotes it, apart from the day of the week 7, which
  the parser reads as 0.
\<close>

subsection \<open>The parts of a field as data\<close>

datatype part =
    PValue int | PRange cron_range | PStep cron_step | PNth nth_day
  | PLastDay | PLastWeekday | PNearest int | PLastDays int

definition show_part :: "part \<Rightarrow> string" where
  "show_part p = (case p of
       PValue n \<Rightarrow> show_int n
     | PRange r \<Rightarrow> show_int (r_from r) @ ''-'' @ show_int (r_to r)
     | PStep s \<Rightarrow> show_int (s_from s) @ ''-'' @ show_int (s_to s) @ ''/'' @ show_int (s_step s)
     | PNth d \<Rightarrow> show_int (n_day_of_week d) @ ''#'' @ show_int (n_instance d)
     | PLastDay \<Rightarrow> ''l'' | PLastWeekday \<Rightarrow> ''lw''
     | PNearest n \<Rightarrow> show_int n @ ''w'' | PLastDays n \<Rightarrow> show_int n @ ''l'')"

definition add_part :: "part \<Rightarrow> cron_field \<Rightarrow> cron_field" where
  "add_part p x = (case p of
       PValue n \<Rightarrow> x\<lparr>f_values := push_opt (f_values x) n\<rparr>
     | PRange r \<Rightarrow> x\<lparr>f_ranges := push_opt (f_ranges x) r\<rparr>
     | PStep s \<Rightarrow> x\<lparr>f_steps := push_opt (f_steps x) s\<rparr>
     | PNth d \<Rightarrow> x\<lparr>f_nthDays := push_opt (f_nthDays x) d\<rparr>
     | PLastDay \<Rightarrow> x\<lparr>f_lastDay := True\<rparr> | PLastWeekday \<Rightarrow> x\<lparr>f_lastWeekday := True\<rparr>
     | PNearest n \<Rightarrow> x\<lparr>f_nearestWeekdays := push_opt (f_nearestWeekdays x) n\<rparr>
     | PLastDays n \<Rightarrow> x\<lparr>f_lastDays := push_opt (f_lastDays x) n\<rparr>)"

definition field_parts :: "cron_field \<Rightarrow> part list" where
  "field_parts x =
     map PValue (opt_list (f_values x)) @ map PRange (opt_list (f_ranges x)) @
     map PStep (opt_list (f_steps x)) @ map PNth (opt_list (f_nthDays x)) @
     (if f_lastDay x then [PLastDay] else []) @ (if f_lastWeekday x then [PLastWeekday] else []) @
     map PNearest (opt_list (f_nearestWeekdays x)) @ map PLastDays (opt_list (f_lastDays x))"

fun join :: "char \<Rightarrow> string list \<Rightarrow> string" where
  "join sep [] = []"
| "join sep [p] = p"
| "join sep (p # ps) = p @ sep # join sep ps"

definition show_field :: "cron_field \<Rightarrow> string" where
  "show_field x = (if f_all x then ''*'' else if f_omit x then ''?''
     else join (CHR '','') (map show_part (field_parts x)))"

text \<open>A number that can be written in a field: not negative, and not the alias 7 of Sunday.\<close>

definition plain_num :: "fld \<Rightarrow> int \<Rightarrow> bool" where
  "plain_num f n \<longleftrightarrow> 0 \<le> n \<and> \<not> (f = DAY_OF_WEEK \<and> n = 7)"

definition printable_part :: "fld \<Rightarrow> part \<Rightarrow> bool" where
  "printable_part f p = (case p of
       PValue n \<Rightarrow> wf_value f n \<and> plain_num f n
     | PRange r \<Rightarrow> wf_range f r
     | PStep s \<Rightarrow> wf_step f s \<and> plain_num f (s_from s) \<and> plain_num f (s_to s)
         \<and> plain_num f (s_step s)
     | PNth d \<Rightarrow> wf_nth d \<and> f = DAY_OF_WEEK \<and> plain_num f (n_day_of_week d)
     | PLastDay \<Rightarrow> f \<in> {DAY_OF_WEEK, DAY_OF_MONTH} | PLastWeekday \<Rightarrow> f = DAY_OF_MONTH
     | PNearest n \<Rightarrow> f = DAY_OF_MONTH \<and> plain_num f n
     | PLastDays n \<Rightarrow> f = DAY_OF_WEEK \<and> plain_num f n)"

definition printable :: "fld \<Rightarrow> cron_field \<Rightarrow> bool" where
  "printable f x \<longleftrightarrow> wf_field f x \<and> distinct (field_parts x)
     \<and> (\<forall>p \<in> set (field_parts x). printable_part f p)"

subsection \<open>Numbers\<close>

lemma show_int_digits: "0 \<le> n \<Longrightarrow> c \<in> set (show_int n) \<Longrightarrow> is_digit c"
  by (auto simp: show_int_def dest: show_nat_digits)

lemma show_int_not_Nil [simp]: "show_int n \<noteq> []"
  by (simp add: show_int_def)

lemma show_int_inject [simp]: "show_int m = show_int n \<longleftrightarrow> m = n"
  by (metis option.inject parseInt_show_int)

lemma show_int_7: "show_int 7 = ''7''"
  by code_simp

lemma alias_keys:
  "k \<in> fst ` set (info_alias (FIELD_INFO f)) \<Longrightarrow> (f = DAY_OF_WEEK \<and> k = ''7'') \<or> \<not> is_digit (hd k)"
  by (cases f) (auto simp: FIELD_INFO_def is_digit_def)

lemma unalias_plain:
  assumes "plain_num f n"
  shows "unalias (Some f) (show_int n) = show_int n"
proof -
  have "show_int n \<notin> fst ` set (info_alias (FIELD_INFO f))"
  proof
    assume "show_int n \<in> fst ` set (info_alias (FIELD_INFO f))"
    from alias_keys [OF this] show False
    proof
      assume "f = DAY_OF_WEEK \<and> show_int n = ''7''"
      then have "f = DAY_OF_WEEK \<and> n = 7" by (metis show_int_7 show_int_inject)
      with assms show False by (simp add: plain_num_def)
    next
      assume "\<not> is_digit (hd (show_int n))"
      with assms show False
        using show_int_digits [of n "hd (show_int n)"] by (simp add: plain_num_def)
    qed
  qed
  then have "map_of (info_alias (FIELD_INFO f)) (show_int n) = None"
    by (simp add: map_of_eq_None_iff)
  then show ?thesis by (simp add: unalias_def)
qed

lemma parseNumber_plain:
  "plain_num f n \<Longrightarrow> parseNumber e (Some f) (show_int n) = Ok n"
  by (simp add: parseNumber_def unalias_plain)

lemma parseNumber_None: "parseNumber e None (show_int n) = Ok n"
  by (simp add: parseNumber_def unalias_def)

lemma parseNumber_7: "parseNumber e (Some DAY_OF_WEEK) (unalias (Some DAY_OF_WEEK) (show_int 7)) = Ok 0"
proof -
  have u: "unalias (Some DAY_OF_WEEK) (show_int 7) = show_int 0"
    unfolding show_int_7 by (simp add: unalias_def FIELD_INFO_def)
  have "plain_num DAY_OF_WEEK 0" by (simp add: plain_num_def)
  then show ?thesis unfolding u by (rule parseNumber_plain)
qed

text \<open>What the separators of the syntax are not.\<close>

lemma not_in_show_int:
  assumes "0 \<le> n" "\<not> is_digit c"
  shows "c \<notin> set (show_int n)"
  using assms show_int_digits by blast

lemma seps_not_digit [simp]:
  "\<not> is_digit (CHR ''/'')" "\<not> is_digit (CHR ''-'')" "\<not> is_digit (CHR ''#'')"
  "\<not> is_digit (CHR ''l'')" "\<not> is_digit (CHR ''w'')" "\<not> is_digit (CHR '','')"
  "\<not> is_digit (CHR ''*'')" "\<not> is_digit (CHR ''?'')"
  by (simp_all add: is_digit_def)

lemmas show_simps = not_in_show_int has_char_def ends_with_char_def split_app split_none

subsection \<open>One part\<close>

lemma parse_show_value:
  assumes "wf_value f n" "plain_num f n"
  shows "parseValue e f (show_int n) = Ok n"
  using assms by (auto simp: parseValue_def parseNumber_plain wf_value_def Let_def)

lemma split_dash:
  "0 \<le> a \<Longrightarrow> 0 \<le> b \<Longrightarrow> split (CHR ''-'') (show_int a @ CHR ''-'' # show_int b) = [show_int a, show_int b]"
  by (simp add: show_simps)

lemma wf_range_nonneg: "wf_range f r \<Longrightarrow> 0 \<le> r_from r \<and> 0 < r_to r \<and> plain_num f (r_from r)"
  by (cases f) (auto simp: wf_range_def FIELD_INFO_def plain_num_def)

lemma parse_show_range:
  assumes "wf_range f r"
  shows "parseRange e f (show_int (r_from r) @ ''-'' @ show_int (r_to r)) = Ok r"
proof -
  note nn = wf_range_nonneg [OF assms]
  have from_ok: "parseNumber e (Some f) (unalias (Some f) (show_int (r_from r))) = Ok (r_from r)"
    using nn by (simp add: unalias_plain parseNumber_plain)
  show ?thesis
  proof (cases "f = DAY_OF_WEEK \<and> r_to r = 7")
    case True
    then have "parseNumber e (Some f) (unalias (Some f) (show_int (r_to r))) = Ok 0"
      using parseNumber_7 by auto
    with True nn assms from_ok show ?thesis
      by (auto simp: parseRange_def split_dash wf_range_def Let_def)
  next
    case False
    then have "plain_num f (r_to r)" using nn by (auto simp: plain_num_def)
    then have "parseNumber e (Some f) (unalias (Some f) (show_int (r_to r))) = Ok (r_to r)"
      by (simp add: unalias_plain parseNumber_plain)
    with nn assms from_ok show ?thesis
      by (auto simp: parseRange_def split_dash wf_range_def Let_def)
  qed
qed

lemma show_int_not_star: "0 \<le> n \<Longrightarrow> show_int n \<noteq> ''*''"
  using show_int_digits [of n "CHR ''*''"] by auto

lemma parse_show_step:
  assumes "wf_step f s" "plain_num f (s_from s)" "plain_num f (s_to s)" "plain_num f (s_step s)"
  shows "parseStepRange e f
     (show_int (s_from s) @ ''-'' @ show_int (s_to s) @ ''/'' @ show_int (s_step s)) = Ok s"
proof -
  let ?a = "show_int (s_from s) @ CHR ''-'' # show_int (s_to s)"
  have nn: "0 \<le> s_from s" "0 \<le> s_to s" "0 \<le> s_step s"
    using assms by (auto simp: plain_num_def)
  have sp: "split (CHR ''/'') (?a @ CHR ''/'' # show_int (s_step s)) = [?a, show_int (s_step s)]"
    using nn by (subst split_app) (auto simp: show_simps)
  have dash: "has_char (CHR ''-'') ?a" by (simp add: has_char_def)
  show ?thesis
    using assms nn sp split_dash [OF nn(1,2)] dash
    by (simp add: parseStepRange_def Let_def unalias_plain parseNumber_plain wf_step_def
        show_int_not_star)
qed

lemma parse_show_nth:
  assumes "wf_nth d" "plain_num DAY_OF_WEEK (n_day_of_week d)"
  shows "parseNth e DAY_OF_WEEK (show_int (n_day_of_week d) @ ''#'' @ show_int (n_instance d)) = Ok d"
proof -
  have nn: "0 \<le> n_day_of_week d" "0 \<le> n_instance d"
    using assms by (auto simp: plain_num_def wf_nth_def)
  then have "split (CHR ''#'') (show_int (n_day_of_week d) @ CHR ''#'' # show_int (n_instance d))
    = [show_int (n_day_of_week d), show_int (n_instance d)]"
    by (simp add: show_simps)
  with assms show ?thesis
    by (simp add: parseNth_def Let_def parseNumber_plain parseNumber_None wf_nth_def)
qed

lemma parsePart_show:
  assumes "printable_part f p"
  shows "parsePart e f (show_part p) x = Ok (add_part p x)"
proof (cases p)
  case (PValue n)
  with assms have "0 \<le> n" by (simp add: printable_part_def plain_num_def)
  moreover from this have "last (show_int n) \<noteq> CHR ''l''"
    using show_int_digits [of n "last (show_int n)"] by auto
  ultimately show ?thesis
    using PValue assms parse_show_value
    by (auto simp: parsePart_def show_part_def add_part_def printable_part_def show_simps
        split: list.splits) (metis list.set_intros(1) not_in_show_int seps_not_digit(4) set_rev)+
next
  case (PRange r)
  with assms wf_range_nonneg [of f r] parse_show_range [of f r] show ?thesis
    by (simp add: parsePart_def show_part_def add_part_def printable_part_def show_simps)
next
  case (PStep s)
  with assms parse_show_step [of f s] show ?thesis
    by (simp add: parsePart_def show_part_def add_part_def printable_part_def show_simps)
next
  case (PNth d)
  then have "0 \<le> n_day_of_week d" "0 \<le> n_instance d"
    using assms by (auto simp: plain_num_def wf_nth_def printable_part_def)
  with PNth assms parse_show_nth [of d] show ?thesis
    by (auto simp add: parsePart_def show_part_def add_part_def printable_part_def show_simps)
next
  case PLastDay
  with assms show ?thesis
    by (simp add: parsePart_def show_part_def add_part_def printable_part_def show_simps parseL_def)
next
  case PLastWeekday
  with assms show ?thesis
    by (simp add: parsePart_def show_part_def add_part_def printable_part_def show_simps parseLW_def)
next
  case (PNearest n)
  with assms have "0 \<le> n" by (simp add: printable_part_def plain_num_def)
  moreover from this have "show_int n \<noteq> ''l''" using not_in_show_int [of n "CHR ''l''"] by auto
  ultimately show ?thesis using PNearest assms
    by (auto simp: parsePart_def show_part_def add_part_def printable_part_def show_simps
        parseNearestWeekday_def parseNumber_plain)
next
  case (PLastDays n)
  with assms have "0 \<le> n" by (simp add: printable_part_def plain_num_def)
  with PLastDays assms show ?thesis
    by (auto simp: parsePart_def show_part_def add_part_def printable_part_def show_simps
        parseLastDays_def parseNumber_plain)
qed

subsection \<open>A whole field\<close>

lemma add_part_inject: "add_part p empty_field = add_part q empty_field \<Longrightarrow> p = q"
  by (cases p; cases q) (auto simp: add_part_def empty_field_def push_opt_def)

lemma show_part_inject:
  assumes "printable_part f p" "printable_part f q" "show_part p = show_part q"
  shows "p = q"
  using parsePart_show [OF assms(1)] parsePart_show [OF assms(2)] assms(3) add_part_inject
  by (metis res.inject(1))

text \<open>The characters of a printed part are digits, separators or the letters l and w; none of them
  is changed by lower-casing, trimming or splitting at commas.\<close>

definition part_char :: "char \<Rightarrow> bool" where
  "part_char c \<longleftrightarrow> is_digit c \<or> c \<in> {CHR ''-'', CHR ''/'', CHR ''#'', CHR ''l'', CHR ''w''}"

lemma show_int_chars: "c \<in> set (show_int n) \<Longrightarrow> is_digit c \<or> c = CHR ''-''"
  by (auto simp: show_int_def dest: show_nat_digits split: if_splits)

lemma show_part_chars: "c \<in> set (show_part p) \<Longrightarrow> part_char c"
  by (cases p) (auto simp: show_part_def part_char_def dest: show_int_chars)

lemma part_charD:
  "part_char c \<Longrightarrow> c \<noteq> CHR '',''" "part_char c \<Longrightarrow> \<not> is_space c" "part_char c \<Longrightarrow> lower_char c = c"
  by (auto simp: part_char_def is_digit_def is_space_def lower_char_def)

lemma show_part_not_Nil [simp]: "show_part p \<noteq> []"
  by (cases p) (auto simp: show_part_def)

lemma split_join:
  "ps \<noteq> [] \<Longrightarrow> (\<And>p. p \<in> set ps \<Longrightarrow> sep \<notin> set p) \<Longrightarrow> split sep (join sep ps) = ps"
proof (induction sep ps rule: join.induct)
  case (3 sep p q ps)
  then show ?case by (simp add: split_app)
qed (auto simp: split_none)

lemma set_join: "set (join sep ps) \<subseteq> insert sep (\<Union> (set ` set ps))"
  by (induction sep ps rule: join.induct) auto

lemma join_eq_Nil: "(\<And>p. p \<in> set ps \<Longrightarrow> p \<noteq> []) \<Longrightarrow> join sep ps = [] \<longleftrightarrow> ps = []"
  by (induction sep ps rule: join.induct) auto

lemma splitAndCleanup_join:
  assumes "distinct ps" "\<And>p. p \<in> set ps \<Longrightarrow> p \<noteq> []"
    "\<And>p c. p \<in> set ps \<Longrightarrow> c \<in> set p \<Longrightarrow> c \<noteq> sep \<and> \<not> is_space c"
  shows "splitAndCleanup (join sep ps) sep = ps"
proof (cases "ps = []")
  case True
  then show ?thesis by (simp add: splitAndCleanup_def dedupe_def trim_def)
next
  case False
  have "split sep (join sep ps) = ps" using False assms(3) by (intro split_join) auto
  moreover have "map trim ps = ps" using assms(3) by (intro map_idI trim_no_space) auto
  moreover have "filter (\<lambda>p. p \<noteq> []) ps = ps" using assms(2) by (simp add: filter_id_conv)
  ultimately show ?thesis using assms(1) by (simp add: splitAndCleanup_def dedupe_distinct)
qed

lemma show_parts_text:
  fixes ps :: "part list"
  defines "s \<equiv> join (CHR '','') (map show_part ps)"
  shows "toLowerCase s = s" "trim s = s" "s \<noteq> ''*''" "s \<noteq> ''?''"
proof -
  have c: "c = CHR '','' \<or> part_char c" if "c \<in> set s" for c
    using that set_join [of "CHR '',''" "map show_part ps"] show_part_chars by (auto simp: s_def)
  have comma: "lower_char (CHR '','') = CHR '',''" "\<not> is_space (CHR '','')"
    by (simp_all add: lower_char_def is_space_def)
  show "toLowerCase s = s" unfolding toLowerCase_def
    by (rule map_idI) (use c comma part_charD(3) in blast)
  show "trim s = s" by (rule trim_no_space) (use c comma part_charD(2) in blast)
  show "s \<noteq> ''*''" "s \<noteq> ''?''"
    using c [of "CHR ''*''"] c [of "CHR ''?''"] by (auto simp: part_char_def)
qed

lemma foldM_parsePart:
  "(\<And>p. p \<in> set ps \<Longrightarrow> printable_part f p) \<Longrightarrow>
   foldM (parsePart e f) (map show_part ps) x = Ok (fold add_part ps x)"
  by (induction ps arbitrary: x) (auto simp: parsePart_show)

text \<open>Adding the parts of a field to the empty record gives the field.\<close>

lemma fold_PValue: "vs \<noteq> [] \<Longrightarrow> fold add_part (map PValue vs) x = x\<lparr>f_values := Some (opt_list (f_values x) @ vs)\<rparr>"
  by (induction vs arbitrary: x rule: list_nonempty_induct)
    (auto simp: add_part_def push_opt_def opt_list_def split: option.split)

lemma fold_PRange: "vs \<noteq> [] \<Longrightarrow> fold add_part (map PRange vs) x = x\<lparr>f_ranges := Some (opt_list (f_ranges x) @ vs)\<rparr>"
  by (induction vs arbitrary: x rule: list_nonempty_induct)
    (auto simp: add_part_def push_opt_def opt_list_def split: option.split)

lemma fold_PStep: "vs \<noteq> [] \<Longrightarrow> fold add_part (map PStep vs) x = x\<lparr>f_steps := Some (opt_list (f_steps x) @ vs)\<rparr>"
  by (induction vs arbitrary: x rule: list_nonempty_induct)
    (auto simp: add_part_def push_opt_def opt_list_def split: option.split)

lemma fold_PNth: "vs \<noteq> [] \<Longrightarrow> fold add_part (map PNth vs) x = x\<lparr>f_nthDays := Some (opt_list (f_nthDays x) @ vs)\<rparr>"
  by (induction vs arbitrary: x rule: list_nonempty_induct)
    (auto simp: add_part_def push_opt_def opt_list_def split: option.split)

lemma fold_PNearest: "vs \<noteq> [] \<Longrightarrow> fold add_part (map PNearest vs) x = x\<lparr>f_nearestWeekdays := Some (opt_list (f_nearestWeekdays x) @ vs)\<rparr>"
  by (induction vs arbitrary: x rule: list_nonempty_induct)
    (auto simp: add_part_def push_opt_def opt_list_def split: option.split)

lemma fold_PLastDays: "vs \<noteq> [] \<Longrightarrow> fold add_part (map PLastDays vs) x = x\<lparr>f_lastDays := Some (opt_list (f_lastDays x) @ vs)\<rparr>"
  by (induction vs arbitrary: x rule: list_nonempty_induct)
    (auto simp: add_part_def push_opt_def opt_list_def split: option.split)

lemma opt_all_cases:
  assumes "opt_all P xs"
  obtains "xs = None" | ys where "xs = Some ys" "ys \<noteq> []"
  using assms by (cases xs) (auto simp: opt_all_def)

lemma fold_field_parts:
  assumes "wf_parts f x" "\<not> f_all x" "\<not> f_omit x"
  shows "fold add_part (field_parts x) empty_field = x"
proof -
  have "opt_all (wf_value f) (f_values x)" "opt_all (wf_range f) (f_ranges x)"
    "opt_all (wf_step f) (f_steps x)" "opt_all wf_nth (f_nthDays x)"
    "opt_all (\<lambda>_. True) (f_nearestWeekdays x)" "opt_all (\<lambda>_. True) (f_lastDays x)"
    using assms(1) by (auto simp: wf_parts_def)
  then show ?thesis
    using assms(2,3)
    by (elim opt_all_cases; simp add: field_parts_def opt_list_def fold_PValue fold_PRange
        fold_PStep fold_PNth fold_PNearest fold_PLastDays empty_field_def add_part_def)
qed

lemma fold_value_distinct: "distinct (field_parts x) \<Longrightarrow> map_option dedupe (f_values x) = f_values x"
  by (cases "f_values x")
    (auto simp: field_parts_def opt_list_def distinct_map dedupe_distinct)

lemma parseField_show:
  assumes "printable f x"
  shows "parseField e f (show_field x) = Ok x"
proof -
  from assms have wf: "wf_field f x" and d: "distinct (field_parts x)"
    and p: "\<And>p. p \<in> set (field_parts x) \<Longrightarrow> printable_part f p" by (auto simp: printable_def)
  consider "f_all x" | "\<not> f_all x" "f_omit x" | "\<not> f_all x" "\<not> f_omit x" by blast
  then show ?thesis
  proof cases
    case 1
    then have "x = empty_field\<lparr>f_all := True\<rparr>" using wf by (simp add: wf_field_def)
    then show ?thesis using 1
      by (simp add: show_field_def parseField_def toLowerCase_def lower_char_def trim_def is_space_def)
  next
    case 2
    then have "x = empty_field\<lparr>f_omit := True\<rparr>" "f \<in> {DAY_OF_WEEK, DAY_OF_MONTH}"
      using wf by (auto simp: wf_field_def)
    then show ?thesis using 2
      by (auto simp: show_field_def parseField_def toLowerCase_def lower_char_def trim_def
          is_space_def parseQ_def)
  next
    case 3
    let ?s = "join (CHR '','') (map show_part (field_parts x))"
    have "distinct (map show_part (field_parts x))"
      unfolding distinct_map using d by (auto intro!: inj_onI dest: show_part_inject [OF p p])
    then have "splitAndCleanup ?s (CHR '','') = map show_part (field_parts x)"
      by (rule splitAndCleanup_join) (auto dest!: show_part_chars dest: part_charD)
    moreover have "foldM (parsePart e f) (map show_part (field_parts x)) empty_field = Ok x"
      using foldM_parsePart [OF p] fold_field_parts [of f x] wf 3 by (simp add: wf_field_def)
    ultimately show ?thesis
      using 3 show_parts_text [of "field_parts x"] fold_value_distinct [OF d]
      by (simp add: show_field_def parseField_def)
  qed
qed

end
