(* ===== verification/CronProperties.thy ===== *)
theory CronProperties
  imports Sample LoopLaws CronPrint
begin

text \<open>
  The properties of the cron parser and of the cron matcher, each with a run on a concrete input where
  it has hypotheses. The hypotheses on zones say that the offset of the zone is constant
  (\<open>sane_zone\<close>); those on platforms, that the platform knows universal time and a default locale.
\<close>

subsection \<open>The times an expression gives\<close>










text \<open>C27: whatever the start, the zone and the expression, an answer of \<open>getFutureMatches\<close> has at most
  \<open>matchCount\<close> times, and the validator accepted each of them.\<close>

theorem getFutureMatches_bounded:
  assumes "getFutureMatches E expr options = Ok ts" "1 \<le> int_or (mo_matchCount options) 5"
  shows "int (length ts) \<le> int_or (mo_matchCount options) 5 \<and> list_all (validates options) ts"
  by (rule getFutureMatches_validates [OF assms])

theorem getFutureMatches_bounded_witness:
  "\<exists>ts. getFutureMatches sample (CText leap_cron) (no_options\<lparr>mo_startAt := Some february_text\<rparr>) = Ok ts \<and>
    ts \<noteq> [] \<and> int (length ts) \<le> 5"
proof -
  let ?o = "no_options\<lparr>mo_startAt := Some february_text\<rparr>"
  have o: "int_or (mo_matchCount ?o) 5 = 5" by (simp add: no_options_def int_or_def)
  obtain t where t: "getFutureMatches sample (CText leap_cron) ?o = Ok [t]"
    using leap_run by blast
  with getFutureMatches_bounded [OF t] show ?thesis by (simp add: o)
qed

text \<open>C5: the generator of the series with the loop that reads it is the loop over the list of the
  candidates: the five nested loops, the setting of each field and the flag that skips the times
  before the start refine a filtered list.\<close>

theorem getTimeSeries_refines:
  assumes "sane_zone E z off" "list_all sound_expr (expressions es)" "valid_cal c0" "modern (c_year c0)"
  shows "getTimeSeries E (es\<lparr>expressions := map simple_expr (expressions es)\<rparr>) (dt_at z off l c0) consume k
    = rmap ctl_state (consume_all (dt_at z off l) consume (candidates es c0) k)"
proof -
  have "mergeExprs (es\<lparr>expressions := map simple_expr (expressions es)\<rparr>) (Some (c_year c0))
      = Ok (merged_values (map simple_expr (expressions es)) (c_year c0))"
    by (subst mergeExprs_values) (auto simp: simple_expr_def)
  from sane_zone.series_consumes [OF assms(1) this merged_values_ok [OF assms(2,4)] assms(3,4)]
  show ?thesis by (simp add: candidates_def)
qed

theorem getTimeSeries_refines_witness:
  "getTimeSeries sample (leap_exprs\<lparr>expressions := map simple_expr (expressions leap_exprs)\<rparr>)
     (dt_at utc_zone 0 sample_locale february) (\<lambda>t ts. Ok (Next (ts @ [toMillis t]))) []
   = Ok [Some 1709164800000]"
proof -
  have "toMillis (dt_at utc_zone 0 sample_locale leap_day) = Some (of_int (cal_ms leap_day - 0 * 60000))"
    by simp
  also have "cal_ms leap_day = 1709164800000" by code_simp
  finally show ?thesis
    by (subst getTimeSeries_refines [OF sample_zone(1) leap_exprs_sound february_ok(1,2)])
      (simp add: leap_candidates consume_all_def)
qed

subsection \<open>Whether a time matches\<close>


text \<open>The third Friday of March 2024, the last working day of the month, and every quarter of an hour.\<close>

definition market_exprs :: cron_exprs where
  "market_exprs = res_val (parse ''*/15 9-17 lw * fri#3,6l'' OUndefined)"

definition friday :: cal where
  "friday = \<lparr>c_year = 2024, c_month = 3, c_day = 15, c_hour = 9, c_minute = 45, c_second = 0, c_millisecond = 0\<rparr>"

lemma market_ok:
  "list_all sound_expr (expressions market_exprs)" "valid_cal friday" "modern (c_year friday)" "c_year friday < 10000"
  "list_ex (\<lambda>e. cron_matches e friday) (expressions market_exprs)"
  "\<not> list_ex (\<lambda>e. cron_matches e (friday\<lparr>c_day := 8\<rparr>)) (expressions market_exprs)"
  "valid_cal (friday\<lparr>c_day := 8\<rparr>)" "modern (c_year (friday\<lparr>c_day := 8\<rparr>))" "c_year (friday\<lparr>c_day := 8\<rparr>) < 10000"
  by code_simp+




text \<open>C29: expanding the steps of the expressions before matching changes no answer: simplifying returns,
  leaves no steps, and the simplified expressions match the same times.\<close>

theorem simplifyExprs_keeps_meaning:
  assumes "list_all sound_expr (expressions es)"
  shows "\<exists>simple. simplifyExprs es = Ok simple \<and> pattern simple = pattern es \<and>
    (\<forall>e\<in>set (expressions simple). \<forall>f. f_steps (e f) = None) \<and>
    map (\<lambda>e. cron_matches e c) (expressions simple) = map (\<lambda>e. cron_matches e c) (expressions es)"
  using simplifyExprs_sound [OF assms] assms
  by (auto simp: simple_expr_def list_all_iff cron_matches_simple [unfolded simple_expr_def])

theorem simplifyExprs_keeps_meaning_witness:
  "\<exists>simple. simplifyExprs market_exprs = Ok simple \<and> pattern simple = pattern market_exprs \<and>
    (\<forall>e\<in>set (expressions simple). \<forall>f. f_steps (e f) = None) \<and>
    map (\<lambda>e. cron_matches e friday) (expressions simple)
      = map (\<lambda>e. cron_matches e friday) (expressions market_exprs)"
  by (rule simplifyExprs_keeps_meaning [OF market_ok(1)])

subsection \<open>Days of a month\<close>

text \<open>C30: \<open>getLastDay\<close> with a day of the week returns the greatest day of the month that falls on it.\<close>

theorem getLastDay_greatest:
  assumes "sane_zone E z off" "Locale_fromObject E no_locale_opts = Ok l0" "0 \<le> w" "w \<le> 6"
    and "valid_cal c" "modern (c_year c)" "c_year c < 10000"
  shows "\<exists>d. getLastDay E (dt_at z off l c) (Some w) = Ok (Some d) \<and> 1 \<le> d \<and> d \<le> month_days c \<and>
    dow_of c d = w \<and> (\<forall>d'\<le>month_days c. dow_of c d' = w \<longrightarrow> d' \<le> d)"
  using sane_zone.getLastDay_kind [OF assms] last_day_greatest [OF assms(3,4), where c = c] by blast

theorem getLastDay_greatest_witness:
  "\<exists>d. getLastDay sample (dt_at utc_zone 0 sample_locale friday) (Some 5) = Ok (Some d) \<and> 1 \<le> d \<and> d \<le> month_days friday \<and>
    dow_of friday d = 5 \<and> (\<forall>d'\<le>month_days friday. dow_of friday d' = 5 \<longrightarrow> d' \<le> d)"
  by (rule getLastDay_greatest [OF sample_zone(1) sample_locale _ _ market_ok(2,3,4)]) simp_all

text \<open>C31: for a number that is no day of the week the search for the last such day never ends; the
  parser lets such numbers through (\<open>9l\<close>).\<close>

theorem getLastDay_never_ends:
  assumes "sane_zone E z off" "Locale_fromObject E no_locale_opts = Ok l0" "\<not> (0 \<le> w \<and> w \<le> 6)"
    and "valid_cal c" "modern (c_year c)" "c_year c < 10000"
  shows "getLastDay E (dt_at z off l c) (Some w) = Hang"
  by (rule sane_zone.getLastDay_hang [OF assms])

theorem getLastDay_never_ends_witness:
  "rmap f_lastDays (parseField [] DAY_OF_WEEK ''9l'') = Ok (Some [9]) \<and>
   getLastDay sample (dt_at utc_zone 0 sample_locale friday) (Some 9) = Hang"
proof
  show "rmap f_lastDays (parseField [] DAY_OF_WEEK ''9l'') = Ok (Some [9])" by code_simp
  show "getLastDay sample (dt_at utc_zone 0 sample_locale friday) (Some 9) = Hang"
    by (rule getLastDay_never_ends [OF sample_zone(1) sample_locale _ market_ok(2,3,4)]) simp
qed

text \<open>\<open>getLastWeekDay\<close> returns the greatest working day of the month, and \<open>isNearestWeekDay\<close> holds on a
  working day of the month than which none is nearer to the given day (the last of the month for a day
  beyond it), and on no other day.\<close>

theorem working_days:
  assumes "sane_zone E z off" "Locale_fromObject E no_locale_opts = Ok l0"
    and "valid_cal c" "modern (c_year c)" "c_year c < 10000" and d: "1 \<le> d"
  shows "(\<exists>w. getLastWeekDay E (dt_at z off l c) = Ok (Some w) \<and> w \<le> month_days c \<and> working (dow_of c w) \<and>
      (\<forall>w'\<le>month_days c. working (dow_of c w') \<longrightarrow> w' \<le> w)) \<and>
    (\<exists>n. isNearestWeekDay E (dt_at z off l c) d = Ok (c_day c = n) \<and>
      1 \<le> n \<and> n \<le> month_days c \<and> working (dow_of c n) \<and>
      (\<forall>e\<in>{1..month_days c}. working (dow_of c e) \<longrightarrow>
        \<bar>n - min d (month_days c)\<bar> \<le> \<bar>e - min d (month_days c)\<bar>))"
proof
  show "\<exists>w. getLastWeekDay E (dt_at z off l c) = Ok (Some w) \<and> w \<le> month_days c \<and> working (dow_of c w) \<and>
      (\<forall>w'\<le>month_days c. working (dow_of c w') \<longrightarrow> w' \<le> w)"
    using sane_zone.getLastWeekDay_at [OF assms(1-5)] last_working_day_greatest by blast
  show "\<exists>n. isNearestWeekDay E (dt_at z off l c) d = Ok (c_day c = n) \<and>
      1 \<le> n \<and> n \<le> month_days c \<and> working (dow_of c n) \<and>
      (\<forall>e\<in>{1..month_days c}. working (dow_of c e) \<longrightarrow>
        \<bar>n - min d (month_days c)\<bar> \<le> \<bar>e - min d (month_days c)\<bar>)"
    using sane_zone.isNearestWeekDay_at [OF assms(1,3,4) d] nearest_weekday_nearest [OF d, where c = c]
    by (intro exI [of _ "nearest_weekday c d"]) (simp add: Ball_def)
qed

theorem working_days_witness:
  "(\<exists>w. getLastWeekDay sample (dt_at utc_zone 0 sample_locale friday) = Ok (Some w) \<and> w \<le> month_days friday \<and>
      working (dow_of friday w) \<and> (\<forall>w'\<le>month_days friday. working (dow_of friday w') \<longrightarrow> w' \<le> w)) \<and>
    (\<exists>n. isNearestWeekDay sample (dt_at utc_zone 0 sample_locale friday) 31 = Ok (c_day friday = n) \<and>
      1 \<le> n \<and> n \<le> month_days friday \<and> working (dow_of friday n) \<and>
      (\<forall>e\<in>{1..month_days friday}. working (dow_of friday e) \<longrightarrow>
        \<bar>n - min 31 (month_days friday)\<bar> \<le> \<bar>e - min 31 (month_days friday)\<bar>))"
  by (rule working_days [OF sample_zone(1) sample_locale market_ok(2,3,4)]) simp

text \<open>C32: the fifth weekday of a month (\<open>mon#5\<close>) never matches: the test whether a month has enough such
  days asks for one more than it needs, and the loop that collects them ends before the 31st.\<close>

theorem fifth_weekday_never:
  assumes "sane_zone E z off" "valid_cal c" "modern (c_year c)" "c_year c < 10000"
  shows "isDayOfWeekMatches E (e(DAY_OF_WEEK := empty_field\<lparr>f_nthDays := Some [\<lparr>n_day_of_week = w, n_instance = 5\<rparr>]\<rparr>))
    DAY_OF_WEEK (dt_at z off l c) = Ok False"
proof -
  have "\<not> nth_day_holds c \<lparr>n_day_of_week = w, n_instance = 5\<rparr>"
    using length_days_of_type [of c w] by (simp add: nth_day_holds_def Let_def)
  then show ?thesis
    using sane_zone.nth_matches_at [OF assms]
    by (simp add: isDayOfWeekMatches_def isFieldMatches_def opt_list_def empty_field_def Let_def)
qed

theorem fifth_weekday_never_witness:
  "isDayOfWeekMatches sample ((\<lambda>_. empty_field)(DAY_OF_WEEK :=
      empty_field\<lparr>f_nthDays := Some [\<lparr>n_day_of_week = 5, n_instance = 5\<rparr>]\<rparr>))
    DAY_OF_WEEK (dt_at utc_zone 0 sample_locale (friday\<lparr>c_day := 29\<rparr>)) = Ok False"
  by (rule fifth_weekday_never [OF sample_zone(1)]) code_simp+

subsection \<open>Values of a field\<close>

text \<open>C33: \<open>getValues\<close> ends exactly when the step is positive or the range is empty, and then returns the
  values of the range that the step reaches, in increasing order; otherwise its loop never ends.\<close>

theorem getValues_spec:
  "if 0 < step \<or> to < from
   then \<exists>vs. getValues from to step = Ok vs \<and> sorted_wrt (<) vs \<and>
     set vs = {v. from \<le> v \<and> v \<le> to \<and> step dvd (v - from)}
   else getValues from to step = Hang"
proof (cases "to < from")
  case True
  then show ?thesis by (auto simp: getValues_empty)
next
  case False
  show ?thesis
  proof (cases "0 < step")
    case True
    note vs = getValues_pos [OF True, of "from" to]
    have "sorted_wrt (<) (map (\<lambda>k. from + int k * step) [0..<n])" for n
      using True by (simp add: sorted_wrt_map sorted_wrt_iff_nth_less)
    with set_getValues [OF True vs] vs True show ?thesis by auto
  next
    case False
    with \<open>\<not> to < from\<close> show ?thesis by (simp add: getValues_hang)
  qed
qed

text \<open>C25: expanding the steps of the expressions hangs exactly when one of the steps is zero or negative
  on a range that is not empty; it never throws.\<close>

theorem simplifyExprs_hangs_iff:
  "(simplifyExprs es = Hang) = (\<exists>e\<in>set (expressions es). \<exists>f. \<exists>s\<in>set (opt_list (f_steps (e f))).
     s_step s \<le> 0 \<and> s_from s \<le> s_to s) \<and> (\<forall>e. simplifyExprs es \<noteq> Throw e)"
  by (simp add: simplifyExprs_Hang simplifyExprs_not_Throw list_all_iff step_ends_def not_less Bex_def)

subsection \<open>The parser\<close>

text \<open>C17: every expression list the parser returns consists of well-formed expressions.\<close>

theorem parse_result_wf: "parse s hs = Ok es \<Longrightarrow> list_all wf_expr (expressions es)"
  by (auto simp: parse_def mapM_eq_Ok list_all_length list_all2_conv_all_nth dest!: parseExpr_wf
      split: if_splits)

theorem parse_result_wf_witness:
  "is_Ok (parse ''0 0 1 1 ?'' OUndefined)
   \<and> list_all wf_expr (expressions (res_val (parse ''0 0 1 1 ?'' OUndefined)))"
proof -
  have ok: "is_Ok (parse ''0 0 1 1 ?'' OUndefined)" by code_simp
  from parse_result_wf [OF is_Ok_val [OF this]] ok show ?thesis by simp
qed


text \<open>C18: a printed field parses to the field.\<close>

theorem parse_show_roundtrip: "printable f x \<Longrightarrow> parseField e f (show_field x) = Ok x"
  by (rule parseField_show)

theorem parse_show_roundtrip_witness:
  "parseField [] DAY_OF_WEEK (show_field (empty_field\<lparr>f_values := Some [1, 3], f_lastDays := Some [5]\<rparr>))
   = Ok (empty_field\<lparr>f_values := Some [1, 3], f_lastDays := Some [5]\<rparr>)"
  by (rule parse_show_roundtrip) code_simp


text \<open>The predefined expressions mean what they stand for, whether or not seconds are expected.\<close>

theorem predefined_expressions:
  "list_all (\<lambda>(name, e). rmap expressions (parse name (OBool b)) = rmap expressions (parse e (OBool False)) \<and>
     is_Ok (parse name (OBool b))) PREDEFINED_EXPRS"
proof (cases b)
  case True
  then show ?thesis by (simp only: True) code_simp
next
  case False
  then show ?thesis by (simp only: False) code_simp
qed

lemma parsePart_number:
  assumes "0 \<le> n"
  shows "parsePart e f (show_int n) x
    = rbind (parseValue e f (show_int n)) (\<lambda>v. Ok (x\<lparr>f_values := push_opt (f_values x) v\<rparr>))"
proof -
  have "CHR ''l'' \<notin> set (show_int n)" using not_in_show_int [OF assms] by simp
  then have "\<not> ends_with_char (CHR ''l'') (show_int n)" "show_int n \<noteq> ''l''" "show_int n \<noteq> ''lw''"
    by (auto simp: ends_with_char_def split: list.splits)
  then show ?thesis using assms by (simp add: parsePart_def show_simps)
qed

lemma parseValue_number:
  assumes "0 \<le> n"
  shows "is_Ok (parseValue e f (show_int n)) \<longleftrightarrow> info_min (FIELD_INFO f) \<le> n \<and> n \<le> info_max (FIELD_INFO f)"
    "parseValue e f (show_int n) = Ok v \<Longrightarrow> v = (if f = DAY_OF_WEEK \<and> n = 7 then 0 else n)"
proof -
  have "parseNumber e (Some f) (show_int n) = Ok (if f = DAY_OF_WEEK \<and> n = 7 then 0 else n)"
  proof (cases "f = DAY_OF_WEEK \<and> n = 7")
    case True
    then show ?thesis by (simp add: show_int_7 parseNumber_def unalias_def FIELD_INFO_def)
  next
    case False
    then show ?thesis using assms by (simp add: parseNumber_plain plain_num_def)
  qed
  then obtain x y where v: "parseValue e f (show_int n)
      = (let v = (if f = DAY_OF_WEEK \<and> n = 7 then 0 else n) in
         if v < info_min (FIELD_INFO f) then Throw x
         else if info_max (FIELD_INFO f) \<noteq> 0 \<and> info_max (FIELD_INFO f) < v then Throw y else Ok v)"
    by (simp add: parseValue_def Let_def)
  have "info_max (FIELD_INFO f) \<noteq> 0" "f = DAY_OF_WEEK \<Longrightarrow> info_min (FIELD_INFO f) = 0 \<and> info_max (FIELD_INFO f) = 7"
    by (cases f; simp add: FIELD_INFO_def)+
  then show "is_Ok (parseValue e f (show_int n)) \<longleftrightarrow> info_min (FIELD_INFO f) \<le> n \<and> n \<le> info_max (FIELD_INFO f)"
    "parseValue e f (show_int n) = Ok v \<Longrightarrow> v = (if f = DAY_OF_WEEK \<and> n = 7 then 0 else n)"
    unfolding v by (auto simp: Let_def split: if_splits)
qed

text \<open>A number is accepted as the value of a field exactly within the bounds of the field, and the field
  is then that value; the seventh day of the week is Sunday. Anything else is an error.\<close>

theorem parseField_number:
  assumes "0 \<le> n"
  shows "case parseField e f (show_int n) of
      Ok x \<Rightarrow> info_min (FIELD_INFO f) \<le> n \<and> n \<le> info_max (FIELD_INFO f) \<and>
        x = empty_field\<lparr>f_values := Some [if f = DAY_OF_WEEK \<and> n = 7 then 0 else n]\<rparr>
    | Throw _ \<Rightarrow> n < info_min (FIELD_INFO f) \<or> info_max (FIELD_INFO f) < n
    | Hang \<Rightarrow> False"
proof -
  have t: "toLowerCase (show_int n) = show_int n" "trim (show_int n) = show_int n"
    "show_int n \<noteq> ''*''" "show_int n \<noteq> ''?''"
    using show_parts_text [of "[PValue n]"] by (simp_all add: show_part_def)
  have "splitAndCleanup (join (CHR '','') [show_int n]) (CHR '','') = [show_int n]"
    using not_in_show_int [OF assms] show_int_digits [OF assms]
    by (intro splitAndCleanup_join) (auto simp: is_digit_def is_space_def)
  then have "parseField e f (show_int n) = rmap (\<lambda>v. empty_field\<lparr>f_values := Some [v]\<rparr>) (parseValue e f (show_int n))"
    by (cases "parseValue e f (show_int n)")
      (simp_all add: parseField_def t parsePart_number [OF assms] push_opt_def empty_field_def dedupe_def)
  then show ?thesis
    using parseValue_number [OF assms, of e f] plain_parts(1) [of e f "show_int n"]
    by (cases "parseValue e f (show_int n)") auto
qed

theorem parseField_number_witness:
  "parseField [] DAY_OF_WEEK (show_int 7) = Ok (empty_field\<lparr>f_values := Some [0]\<rparr>) \<and>
   \<not> is_Ok (parseField [] DAY_OF_WEEK (show_int 8))"
  using parseField_number [of 7 DAY_OF_WEEK "[]"] parseField_number [of 8 DAY_OF_WEEK "[]"]
  by (auto simp: FIELD_INFO_def split: res.splits)

end
