(* ===== verification/ScriptPage.thy ===== *)
theory ScriptPage
  imports JobPage
begin

text \<open>
  The page of the script editor (\<open>ui/js/edit.js\<close>): the identity of the job in the path of the page, the
  requests, and the output of the debugger. The messages of a web socket are events of their own; a
  socket stays open when another session starts, and all of them write to the one array.
\<close>

definition getId :: "string \<Rightarrow> string" where
  [js_defs]: "getId pathname = drop 6 pathname"

datatype script_request = Save_script string string | Open_debug string string

record script_page =
  sp_path :: string
  sp_host :: string
  sp_editor :: string
  sp_debugOut :: "string list"
  sp_html :: string
  sp_requests :: "script_request list"

fun join_lines :: "string list \<Rightarrow> string" where
  "join_lines [] = []"
| "join_lines [x] = x"
| "join_lines (x # xs) = x @ CHR 0x0A # join_lines xs"

definition saveScript :: "script_page \<Rightarrow> script_page" where
  [js_defs]: "saveScript p =
     p\<lparr>sp_requests := sp_requests p @ [Save_script (getId (sp_path p)) (sp_editor p)]\<rparr>"

definition response :: "script_page \<Rightarrow> script_page" where
  [js_defs]: "response p = p\<lparr>sp_html := join_lines (sp_debugOut p)\<rparr>"

definition debugScript :: "script_page \<Rightarrow> script_page" where
  [js_defs]: "debugScript p = p\<lparr>sp_debugOut := [],
     sp_requests := sp_requests p @ [Open_debug (sp_host p) (getId (sp_path p))]\<rparr>"

definition message :: "string \<Rightarrow> script_page \<Rightarrow> script_page" where
  [js_defs]: "message text p = response (p\<lparr>sp_debugOut := sp_debugOut p @ [text]\<rparr>)"

subsection \<open>What the page shows\<close>

datatype script_event = Click_debug | Click_save | Message string | Typed string

fun script_step :: "script_event \<Rightarrow> script_page \<Rightarrow> script_page" where
  "script_step Click_debug p = debugScript p"
| "script_step Click_save p = saveScript p"
| "script_step (Message s) p = message s p"
| "script_step (Typed s) p = p\<lparr>sp_editor := s\<rparr>"

fun run_script :: "script_event list \<Rightarrow> script_page \<Rightarrow> script_page" where
  "run_script [] p = p"
| "run_script (e # es) p = run_script es (script_step e p)"

text \<open>The messages that came after the last click on the debug button.\<close>

fun last_session :: "string list \<Rightarrow> script_event list \<Rightarrow> string list" where
  "last_session ms [] = ms"
| "last_session ms (Click_debug # es) = last_session [] es"
| "last_session ms (Message s # es) = last_session (ms @ [s]) es"
| "last_session ms (_ # es) = last_session ms es"

lemmas script_defs = debugScript_def saveScript_def message_def response_def

lemma run_append: "run_script (es @ fs) p = run_script fs (run_script es p)"
  by (induction es arbitrary: p) auto

lemma debug_out_session: "sp_debugOut (run_script es p) = last_session (sp_debugOut p) es"
proof (induction es arbitrary: p)
  case (Cons e es)
  then show ?case by (cases e) (simp_all add: script_defs)
qed simp

text \<open>After a message the page shows the lines of the session.\<close>

lemma shown_after_message:
  "sp_html (run_script (es @ [Message s]) p) = join_lines (last_session (sp_debugOut p) es @ [s])"
  by (simp add: run_append script_defs debug_out_session)

lemma path_unchanged: "sp_path (run_script es p) = sp_path p" "sp_host (run_script es p) = sp_host p"
proof (induction es arbitrary: p)
  case (Cons e es)
  case 1 then show ?case using Cons by (cases e) (simp_all add: script_defs)
  case 2 then show ?case using Cons by (cases e) (simp_all add: script_defs)
qed simp_all

text \<open>Every request names the job of the path.\<close>

fun about :: "string \<Rightarrow> script_request \<Rightarrow> bool" where
  "about i (Save_script j _) = (j = i)"
| "about i (Open_debug _ j) = (j = i)"

lemma requests_about:
  "list_all (about (getId (sp_path p))) (sp_requests p) \<Longrightarrow>
   list_all (about (getId (sp_path p))) (sp_requests (run_script es p))"
proof (induction es arbitrary: p)
  case (Cons e es)
  have same: "sp_path (script_step e p) = sp_path p" by (cases e) (simp_all add: script_defs)
  have "list_all (about (getId (sp_path p))) (sp_requests (script_step e p))"
    using Cons.prems by (cases e) (simp_all add: script_defs)
  then show ?case using Cons.IH [of "script_step e p"] by (simp add: same)
qed simp

end
