(* ===== verification/PageProperties.thy ===== *)
theory PageProperties
  imports Sample LoopLaws ScriptPage
begin

text \<open>
  The properties of the two pages: the next execution time the table shows, the requests the page of the
  jobs sends, the mark of the cron input, and the output of the debugger.
\<close>

subsection \<open>The next execution time\<close>

definition fresh_page :: page where
  "fresh_page = \<lparr>pg_rows = None, pg_switch = (\<lambda>_. False), pg_jobId = [],
     pg_form = \<lparr>fm_name = [], fm_description = [], fm_cron = []\<rparr>, pg_cronClass = ''form-control'',
     pg_hintHidden = True, pg_modalShown = False, pg_body = [], pg_requests = []\<rparr>"


text \<open>East of Greenwich and at it, on a whole number of hours, the table shows the earliest matching time in
  the zone of the browser, or \<open>never\<close>.\<close>

theorem nextExecTime_shown:
  assumes "0 \<le> h" "h < 100" "Locale_fromObject E no_locale_opts = Ok l" "present E"
      "modern (c_year (cal_of_ms (st_now E + 60 * h * 60000)))"
    and "r_execType row = TimingExecute" "parse (r_cron row) (OBool True) = Ok es"
      "list_all sound_expr (expressions es)"
  shows "nextExecTime_cell E (- (60 * h)) local row = Ok (div_text
    (case next_match es (cal_of_ms (st_now E + 60 * h * 60000)) of None \<Rightarrow> ''never''
     | Some c \<Rightarrow> local (toISO E (dt_at (FixedOffsetZone (of_int (60 * h))) (60 * h) l c) (matcher_iso True))))"
  by (rule nextExecTime_east [OF assms])

definition sample_row :: job_row where
  "sample_row = \<lparr>r_jobId = ''j1'', r_name = ''backup'', r_description = [], r_execType = 0,
     r_cron = ''0 0 8 1 1 ? 2023'', r_execAt = [], r_lastExecTime = None, r_state = 1\<rparr>"

definition row_exprs :: cron_exprs where
  "row_exprs = res_val (parse (r_cron sample_row) (OBool True))"

lemma row_exprs: "parse (r_cron sample_row) (OBool True) = Ok row_exprs"
  "list_all sound_expr (expressions row_exprs)" "r_execType sample_row = TimingExecute"
proof -
  show "parse (r_cron sample_row) (OBool True) = Ok row_exprs" unfolding row_exprs_def by code_simp
qed code_simp+

theorem nextExecTime_shown_witness:
  "nextExecTime_cell sample (- (60 * 8)) (\<lambda>_. ''soon'') sample_row = Ok (div_text
    (case next_match row_exprs (cal_of_ms (st_now sample + 60 * 8 * 60000)) of None \<Rightarrow> ''never''
     | Some c \<Rightarrow> (\<lambda>_. ''soon'') (toISO sample (dt_at (FixedOffsetZone (of_int (60 * 8))) (60 * 8) sample_locale c) (matcher_iso True))))"
  by (rule nextExecTime_shown [OF _ _ sample_locale sample_now(3) _ row_exprs(3,1,2)]) code_simp+









text \<open>C26: a step of zero passes for a valid cron expression in the form, and freezes the table: the cell of the
  row never gets a text, because the loop that expands the step does not end.\<close>

theorem zero_step_freezes:
  assumes "fromISO E (toISOString (st_now E)) (from_zone (Some (page_timezone tzo))) = Ok t"
    and "r_execType row = TimingExecute" "parse (r_cron row) (OBool True) = Ok es" "e \<in> set (expressions es)"
    and "s \<in> set (opt_list (f_steps (e f)))" "s_step s \<le> 0" "s_from s \<le> s_to s"
  shows "nextExecTime_cell E tzo local row = Hang \<and>
    pg_cronClass (type_cron (r_cron row) p) = ''form-control is-valid''"
proof
  have "\<not> list_all step_ends (opt_list (f_steps (e f)))" using assms(5-7)
    by (simp add: list_all_iff step_ends_def not_less) blast
  then have "simplifyExprs es = Hang" using assms(4) by (auto simp: simplifyExprs_Hang)
  then have "getFutureMatches E (CText (r_cron row)) (page_options tzo) = Hang"
    using assms(1,3) by (intro getFutureMatches_Hang [of E _ t _ es]) (simp_all add: text_or_def parse_input_def)
  then show "nextExecTime_cell E tzo local row = Hang" using assms(2) by (simp add: nextExecTime_cell_def)
  show "pg_cronClass (type_cron (r_cron row) p) = ''form-control is-valid''"
    using assms(3) by (simp add: type_cron_marks)
qed

theorem zero_step_freezes_witness:
  "nextExecTime_cell sample 0 (\<lambda>_. ''soon'') (sample_row\<lparr>r_cron := ''*/0 * * * * ?''\<rparr>) = Hang \<and>
    pg_cronClass (type_cron (r_cron (sample_row\<lparr>r_cron := ''*/0 * * * * ?''\<rparr>)) fresh_page) = ''form-control is-valid''"
proof -
  have "rmap (\<lambda>es. map (\<lambda>e. f_steps (e SECOND)) (expressions es)) (parse ''*/0 * * * * ?'' (OBool True))
      = Ok [Some [\<lparr>s_from = 0, s_to = 59, s_step = 0\<rparr>]]"
    by code_simp
  then obtain es e where "parse ''*/0 * * * * ?'' (OBool True) = Ok es" "e \<in> set (expressions es)"
    "\<lparr>s_from = 0, s_to = 59, s_step = 0\<rparr> \<in> set (opt_list (f_steps (e SECOND)))"
    by (auto simp: opt_list_def map_eq_Cons_conv)
  then show ?thesis
    using page_start_east [of 0, OF _ _ sample_locale sample_now(3)]
    by (intro zero_step_freezes [where e = e and s = "\<lparr>s_from = 0, s_to = 59, s_step = 0\<rparr>" and f = SECOND])
      (simp_all add: sample_row_def TimingExecute_def)
qed

subsection \<open>The page of the jobs\<close>





text \<open>Editing a row and saving the form sends the row back under its identity, and a row the table does not
  show cannot be edited.\<close>

theorem edit_then_save:
  assumes "pg_rows p = Some rows" "i < length rows \<longrightarrow> r_jobId (rows ! i) \<noteq> []"
  shows "case edit i p of
      Ok q \<Rightarrow> i < length rows \<and> pg_modalShown q \<and> pg_requests (save q) = pg_requests p @
        [Update_job (r_jobId (rows ! i)) \<lparr>fm_name = r_name (rows ! i),
          fm_description = r_description (rows ! i), fm_cron = r_cron (rows ! i)\<rparr>]
    | Throw _ \<Rightarrow> length rows \<le> i
    | Hang \<Rightarrow> False"
  using assms by (auto simp: edit_def save_def send_def Let_def)

theorem edit_then_save_witness:
  "\<exists>q. edit 0 (rows_loaded [sample_row] fresh_page) = Ok q \<and> pg_requests (save q)
    = [Update_job ''j1'' \<lparr>fm_name = ''backup'', fm_description = [], fm_cron = ''0 0 8 1 1 ? 2023''\<rparr>]"
  using edit_then_save [of "rows_loaded [sample_row] fresh_page" "[sample_row]" 0]
  by (auto simp: rows_loaded_def fresh_page_def sample_row_def split: res.splits)

text \<open>Typing in the cron field marks it valid exactly when the parser accepts the text with seconds, invalid
  otherwise, and shows the hint exactly then; but opening another row leaves the mark of the row
  before, and saving does not ask for it.\<close>

theorem cron_mark:
  "pg_cronClass (type_cron s p) = (if is_Ok (parse s (OBool True)) then ''form-control is-valid'' else ''form-control is-invalid'')
    \<and> pg_hintHidden (type_cron s p) = is_Ok (parse s (OBool True))
    \<and> (case edit i (type_cron s p) of Ok q \<Rightarrow> pg_cronClass q = pg_cronClass (type_cron s p) | _ \<Rightarrow> True)
    \<and> pg_requests (save (type_cron s p))
      = pg_requests p @ [if pg_jobId p = [] then Create_job ((pg_form p)\<lparr>fm_cron := s\<rparr>)
          else Update_job (pg_jobId p) ((pg_form p)\<lparr>fm_cron := s\<rparr>)]"
  by (simp add: type_cron_def cronCheck_def edit_def save_def send_def Let_def split: option.splits)

subsection \<open>The page of the script\<close>

text \<open>After a message of the debugger the page shows the lines that came since the last click on debug, in
  order; the messages of a session that is still open go on arriving in the next one.\<close>

theorem debug_output:
  "sp_html (run_script (es @ [Message s]) p) = join_lines (last_session (sp_debugOut p) es @ [s])"
  by (rule shown_after_message)

text \<open>Every request of the page, for saving and for debugging, names the job in the path of the page.\<close>

theorem requests_name_job:
  assumes "sp_requests p = []"
  shows "list_all (about (getId (sp_path p))) (sp_requests (run_script es p)) \<and>
    (\<forall>i. sp_path p = ''/edit/'' @ i \<longrightarrow> getId (sp_path p) = i)"
  using requests_about [of p es] assms by (simp add: getId_def)

theorem requests_name_job_witness:
  "list_all (about (getId ''/edit/j1'')) (sp_requests (run_script [Click_debug, Click_save]
      \<lparr>sp_path = ''/edit/j1'', sp_host = ''h'', sp_editor = [], sp_debugOut = [], sp_html = [], sp_requests = []\<rparr>)) \<and>
    getId ''/edit/j1'' = ''j1''"
  using requests_name_job [of "\<lparr>sp_path = ''/edit/j1'', sp_host = ''h'', sp_editor = [], sp_debugOut = [],
    sp_html = [], sp_requests = []\<rparr>" "[Click_debug, Click_save]"] by (simp add: getId_def)

end
