(* ===== verification/WeekLaws.thy ===== *)
theory WeekLaws
  imports DateTimeLaws
begin

text \<open>
  Week dates and ordinal dates. The Monday of the first week of a year (the week with the fourth of
  January) and the number of weeks of a year fit together, and both kinds of date give the time stamp
  back from which they were computed, although \<open>uncomputeOrdinal\<close> leaves the ordinal in January.
\<close>

subsection \<open>Ordinal dates\<close>

lemma month_start_ladder:
  "0 \<le> m \<Longrightarrow> m \<le> 11 \<Longrightarrow> js_nth (if isLeapYear y then leapLadder else nonLeapLadder) m = Some (month_start (leap y) m)"
  by (auto simp: js_nth_def leapLadder_def nonLeapLadder_def month_start_def elim: month_cases)

text \<open>The day of the year, from 1.\<close>

definition year_day :: "cal \<Rightarrow> int" where
  "year_day c = day_no c - DayFromYear (c_year c) + 1"

lemma computeOrdinal_cal:
  assumes "valid_cal c"
  shows "computeOrdinal (c_year c) (c_month c) (c_day c) = Some (year_day c)"
  using valid_calD [OF assms] month_start_ladder [of "c_month c - 1" "c_year c"]
  by (simp add: computeOrdinal_def year_day_def day_no_def MakeDay_def Let_def)

lemma year_day_bounds:
  assumes "valid_cal c"
  shows "1 \<le> year_day c" "year_day c \<le> DaysInYear (c_year c)"
  using assms MakeDay_in_year [of "c_year c" "c_month c - 1" "c_day c"]
  by (simp_all add: valid_cal_def year_day_def day_no_def DayFromYear_Suc)

lemma uncomputeOrdinal_january: "1 \<le> n \<Longrightarrow> uncomputeOrdinal y n = (1, Some n)"
  by (auto simp: uncomputeOrdinal_def leapLadder_def nonLeapLadder_def js_nth_def)

lemma MakeDay_january: "MakeDay y 0 n = DayFromYear y + n - 1"
  by (simp add: MakeDay_def month_start_def)

text \<open>A time stamp from a year and a day of the year.\<close>

lemma localTS_ordinal:
  assumes "valid_cal c" "modern (c_year c)" "modern y" "DayFromYear y + n - 1 = day_no c"
  shows "localTS y 1 n (c_hour c) (c_minute c) (c_second c) (c_millisecond c) = Some (cal_ms c)"
proof -
  have "in_range 0 (cal_ms c)" by (rule modern_in_range [OF assms(1,2)]) simp
  then show ?thesis
    using assms(4) by (simp add: localTS_modern [OF assms(3)] MakeDay_january cal_ms_def day_no_def in_range_def)
qed

lemma ordinal_roundtrip:
  assumes "valid_cal c" "modern (c_year c)"
  shows "objToLocalTS (ordinalToGregorian (gregorianToOrdinal (obj_of_cal c))) = Some (cal_ms c)"
proof -
  have "localTS (c_year c) 1 (year_day c) (c_hour c) (c_minute c) (c_second c) (c_millisecond c) = Some (cal_ms c)"
    by (rule localTS_ordinal [OF assms assms(2)]) (simp add: year_day_def)
  then show ?thesis
    using year_day_bounds(1) [OF assms(1)]
    by (simp add: gregorianToOrdinal_def ordinalToGregorian_def obj_of_cal_def computeOrdinal_cal [OF assms(1)]
        timeObject_def pick_def uncomputeOrdinal_january objToLocalTS_def)
qed

subsection \<open>Weeks\<close>

text \<open>The day of the week, Monday 1 to Sunday 7, and the Monday of the first week of a year.\<close>

definition iso_day :: "int \<Rightarrow> int" where
  "iso_day n = (n + 3) mod 7 + 1"

definition week1 :: "int \<Rightarrow> int" where
  "week1 y = DayFromYear y + 3 - (DayFromYear y - 1) mod 7"

lemma iso_day_WeekDay: "(if WeekDay n = 0 then 7 else WeekDay n) = iso_day n"
proof -
  have "((n + 4) mod 7 + 6) mod 7 = (n + 3 + 7 * 1) mod 7" by (simp add: mod_simps add.commute)
  then have "(n + 3) mod 7 = ((n + 4) mod 7 + 6) mod 7" by (simp only: mod_mult_self2)
  moreover have q: "(if q = 0 then 7 else q) = (q + 6) mod 7 + 1" if "0 \<le> q" "q < 7" for q :: int
    using that by presburger
  ultimately show ?thesis using q [of "(n + 4) mod 7"] unfolding WeekDay_def iso_day_def by simp
qed

lemma iso_day_bounds: "1 \<le> iso_day n" "iso_day n \<le> 7"
  by (simp_all add: iso_day_def)

lemma iso_day_jan4: "iso_day (DayFromYear y + 3) = (DayFromYear y - 1) mod 7 + 1"
proof -
  have "(DayFromYear y + 3 + 3) mod 7 = (DayFromYear y - 1 + 7 * 1) mod 7" by simp
  then show ?thesis unfolding iso_day_def mod_mult_self2 by simp
qed

lemma dayOfWeek_modern:
  assumes "100 \<le> y" "\<bar>MakeDay y (m - 1) d\<bar> \<le> 100000000"
  shows "dayOfWeek y m d = Some (iso_day (MakeDay y (m - 1) d))"
proof -
  have "Date_UTC y (m - 1) d 0 0 0 0 = Some (MakeDay y (m - 1) d * msPerDay)"
    using assms by (simp add: Date_UTC_def MakeDate_def MakeTime_def msPerDay_def TimeClip_def)
  then show ?thesis
    using assms(1) by (simp add: dayOfWeek_def getUTCDay_def msPerDay_def Let_def flip: iso_day_WeekDay)
qed

text \<open>The sum from which the number of weeks is computed, and the first day of the year after.\<close>

lemma DayFromYear_sum:
  "y + y div 4 - y div 100 + y div 400 = DayFromYear (y + 1) + 3 + 7 * (102737 - 52 * y)"
proof -
  have "(y - 1968) div 4 = y div 4 - 492" "(y - 1900) div 100 = y div 100 - 19" "(y - 1600) div 400 = y div 400 - 4"
    by simp_all
  then show ?thesis by (simp add: DayFromYear_def)
qed

lemma weeksInWeekYear_days:
  assumes "1 \<le> y"
  shows "week1 (y + 1) = week1 y + 7 * weeksInWeekYear y"
proof -
  let ?D = "DayFromYear y" let ?S = "\<lambda>y. y + y div 4 - y div 100 + y div 400"
  have pos: "0 \<le> ?S y" "0 \<le> ?S (y - 1)" using assms by (simp_all add: div_le_mono add_increasing)
  have rem: "js_rem a 7 = a mod 7" if "0 \<le> a" for a
    using that by (cases "a = 0") (simp_all add: js_rem_def)
  have shift: "((d + 3) mod 7 = 4) = ((d - 1) mod 7 = 0)" "((d + 3) mod 7 = 3) = ((d - 1) mod 7 = 6)" for d :: int
    by presburger+
  have p1: "js_rem (?S y) 7 = 4 \<longleftrightarrow> (DayFromYear (y + 1) - 1) mod 7 = 0"
    unfolding rem [OF pos(1)] unfolding DayFromYear_sum mod_mult_self2 by (rule shift(1))
  have p2: "js_rem (?S (y - 1)) 7 = 3 \<longleftrightarrow> (?D - 1) mod 7 = 6"
    unfolding rem [OF pos(2)] unfolding DayFromYear_sum [of "y - 1"] mod_mult_self2 by (simp add: shift(2))
  define r where "r = (?D - 1) mod 7"
  have r: "0 \<le> r" "r \<le> 6" "(364 + ?D) mod 7 = (r + 1) mod 7" "(365 + ?D) mod 7 = (r + 2) mod 7"
    using mod_mult_self2 [of ?D 7 52] mod_mult_self2 [of "?D + 1" 7 52] by (simp_all add: r_def mod_simps add.commute)
  have "DayFromYear (y + 1) = ?D + 365 \<or> DayFromYear (y + 1) = ?D + 366"
    by (auto simp: DayFromYear_Suc DaysInYear_def)
  moreover have "r \<in> {0, 1, 2, 3, 4, 5, 6}" using r(1,2) by auto
  ultimately show ?thesis
    using r unfolding week1_def weeksInWeekYear_def Let_def p1 p2 r_def [symmetric]
    by (elim disjE insertE emptyE) simp_all
qed

text \<open>What the week of a date is: the number of weeks since the first week of its year, or of the year
  before or after.\<close>

definition week_of :: "cal \<Rightarrow> int \<times> int" where
  "week_of c = (let y = c_year c; n = (year_day c - iso_day (day_no c) + 10) div 7 in
     if n < 1 then (y - 1, weeksInWeekYear (y - 1))
     else if n > weeksInWeekYear y then (y + 1, 1) else (y, n))"

lemma gregorianToWeek_cal:
  assumes "valid_cal c" "modern (c_year c)"
  shows "gregorianToWeek (obj_of_cal c) = [UWeekYear \<mapsto> fst (week_of c), UWeekNumber \<mapsto> snd (week_of c),
    UWeekday \<mapsto> iso_day (day_no c)] ++ timeObject (obj_of_cal c)"
proof -
  have "dayOfWeek (c_year c) (c_month c) (c_day c) = Some (iso_day (day_no c))"
    using dayOfWeek_modern [of "c_year c" "c_month c" "c_day c"] modern_day [OF assms] assms(2)
    by (simp add: modern_def day_no_def abs_le_iff)
  then show ?thesis
    by (simp add: gregorianToWeek_def computeOrdinal_cal [OF assms(1)] week_of_def obj_of_cal_def Let_def)
qed

text \<open>The Monday of the week of a date, from the week's year and number.\<close>

lemma monday_of_week:
  assumes "valid_cal c" "2 \<le> c_year c"
  shows "week1 (fst (week_of c)) + 7 * (snd (week_of c) - 1) = day_no c - (iso_day (day_no c) - 1)"
proof -
  let ?y = "c_year c" and ?n = "day_no c"
  define k where "k = (year_day c - iso_day ?n + 10) div 7"
  define q where "q = (?n + 3) div 7 - (DayFromYear ?y - 1) div 7"
  have n: "iso_day ?n = ?n + 4 - 7 * ((?n + 3) div 7)"
    unfolding iso_day_def by (simp add: minus_mult_div_eq_mod [symmetric])
  have r: "(DayFromYear ?y - 1) mod 7 = DayFromYear ?y - 1 - 7 * ((DayFromYear ?y - 1) div 7)"
    by (simp add: minus_mult_div_eq_mod [symmetric])
  have "year_day c - iso_day ?n + 10 = 6 - (DayFromYear ?y - 1) mod 7 + 7 * q"
    unfolding r n by (simp add: year_day_def q_def)
  moreover have "(6 - (DayFromYear ?y - 1) mod 7) div 7 = 0"
    by (rule div_pos_pos_trivial) (simp_all add: pos_mod_sign order.strict_implies_order)
  ultimately have k: "k = q" by (simp add: k_def)
  have m: "week1 ?y + 7 * (k - 1) = ?n - (iso_day ?n - 1)"
    unfolding k week1_def r n by (simp add: q_def)
  have w: "week1 (?y + 1) = week1 ?y + 7 * weeksInWeekYear ?y" "week1 ?y = week1 (?y - 1) + 7 * weeksInWeekYear (?y - 1)"
    using weeksInWeekYear_days [of ?y] weeksInWeekYear_days [of "?y - 1"] assms(2) by simp_all
  have "7 * (k - 1) \<le> 7 * weeksInWeekYear ?y + 2"
    using m w(1) iso_day_bounds [of ?n] year_day_bounds(2) [OF assms(1)] pos_mod_bound [of 7 "DayFromYear (?y + 1) - 1"]
    by (simp add: week1_def [of "?y + 1"] year_day_def DayFromYear_Suc)
  then have bounds: "0 \<le> k" "k \<le> weeksInWeekYear ?y + 1"
    using year_day_bounds(1) [OF assms(1)] iso_day_bounds(2) [of ?n] by (simp_all add: k_def)
  then consider "k = 0" | "1 \<le> k" "k \<le> weeksInWeekYear ?y" | "k = weeksInWeekYear ?y + 1" "1 \<le> k" by linarith
  then show ?thesis
    using m w by cases (simp_all add: week_of_def k_def Let_def)
qed

lemma weeksInWeekYear_bounds: "52 \<le> weeksInWeekYear y" "weeksInWeekYear y \<le> 53" "1 \<le> weeksInWeekYear y"
  by (simp_all add: weeksInWeekYear_def Let_def)

lemma week_of_bounds:
  assumes "valid_cal c"
  shows "1 \<le> snd (week_of c)" "snd (week_of c) \<le> weeksInWeekYear (fst (week_of c))"
    "\<bar>fst (week_of c) - c_year c\<bar> \<le> 1"
  using weeksInWeekYear_bounds(3) by (auto simp: week_of_def Let_def)

text \<open>The dates that come out are accepted by the checks that guard the constructors.\<close>

lemma gregorianToWeek_valid:
  assumes "valid_cal c" "modern (c_year c)"
  shows "hasInvalidWeekData (gregorianToWeek (obj_of_cal c)) = None"
  unfolding gregorianToWeek_cal [OF assms]
  using week_of_bounds [OF assms(1)] iso_day_bounds [of "day_no c"]
  by (simp add: hasInvalidWeekData_def integerBetween_def timeObject_def pick_def obj_of_cal_def)

lemma year_of_day:
  assumes "valid_cal c" "DayFromYear y \<le> day_no c" "day_no c < DayFromYear (y + 1)"
  shows "y = c_year c"
proof -
  have "\<not> y + 1 \<le> c_year c" "\<not> c_year c + 1 \<le> y"
    using DayFromYear_mono [of "y + 1" "c_year c"] DayFromYear_mono [of "c_year c + 1" y] assms
      MakeDay_in_year [of "c_year c" "c_month c - 1" "c_day c"]
    by (auto simp: day_no_def valid_cal_def)
  then show ?thesis by simp
qed

lemma week_roundtrip:
  assumes "valid_cal c" "modern (c_year c)" "101 \<le> c_year c"
  shows "objToLocalTS (weekToGregorian (gregorianToWeek (obj_of_cal c))) = Some (cal_ms c)"
proof -
  let ?w = "fst (week_of c)" and ?n = "snd (week_of c)" and ?d = "iso_day (day_no c)"
  let ?j = "iso_day (DayFromYear ?w + 3)"
  define o0 where "o0 = ?n * 7 + ?d - ?j - 3"
  define yo where "yo = (if o0 < 1 then (?w - 1, o0 + daysInYear (?w - 1))
    else if o0 > daysInYear ?w then (?w + 1, o0 - daysInYear ?w) else (?w, o0))"
  have w: "1 \<le> ?n" "?n \<le> 53" "100 \<le> ?w" "?w \<le> 10001"
    using week_of_bounds [OF assms(1)] weeksInWeekYear_bounds(2) [of ?w] assms(2,3) by (auto simp: modern_def)
  have "DayFromYear ?w + o0 - 1 = day_no c"
    using monday_of_week [OF assms(1)] assms(3) by (simp add: o0_def week1_def iso_day_jan4)
  then have day: "DayFromYear (fst yo) + snd yo - 1 = day_no c"
    using DayFromYear_Suc [of "?w - 1"] by (simp add: yo_def DayFromYear_Suc)
  have "-2 \<le> o0" "o0 \<le> 374" using w iso_day_bounds [of "day_no c"] iso_day_bounds [of "DayFromYear ?w + 3"]
    by (simp_all add: o0_def)
  then have ord: "1 \<le> snd yo" "snd yo \<le> DaysInYear (fst yo)"
    using DaysInYear_bounds [of ?w] DaysInYear_bounds [of "?w - 1"] DaysInYear_bounds [of "?w + 1"]
    by (auto simp: yo_def)
  have y: "fst yo = c_year c"
    using year_of_day [OF assms(1), of "fst yo"] day ord by (simp add: DayFromYear_Suc)
  have "DayFromYear 100 \<le> DayFromYear ?w" "DayFromYear ?w \<le> DayFromYear 10001" using w by (auto intro: DayFromYear_mono)
  then have "dayOfWeek ?w 1 4 = Some ?j"
    using dayOfWeek_modern [of ?w 1 4] w(3) by (simp add: MakeDay_january abs_le_iff) (simp add: DayFromYear_def)
  then have "weekToGregorian (gregorianToWeek (obj_of_cal c))
      = [UYear \<mapsto> fst yo, UMonth \<mapsto> 1, UDay \<mapsto> snd yo] ++ timeObject (obj_of_cal c)"
    using ord(1) unfolding gregorianToWeek_cal [OF assms(1,2)] yo_def
    by (auto simp: weekToGregorian_def timeObject_def pick_def obj_of_cal_def o0_def [symmetric]
        uncomputeOrdinal_january Let_def)
  moreover have "localTS (c_year c) 1 (snd yo) (c_hour c) (c_minute c) (c_second c) (c_millisecond c) = Some (cal_ms c)"
    using localTS_ordinal [OF assms(1,2,2), of "snd yo"] day by (simp add: y)
  ultimately show ?thesis
    by (simp add: objToLocalTS_def obj_of_cal_def timeObject_def pick_def y)
qed

end
