(* ===== verification/DateProperties.thy ===== *)
theory DateProperties
  imports Sample WeekLaws DurationLaws
begin

text \<open>
  The properties of the date library: calendar, weeks, zones and their offsets, durations, the
  arithmetic of date-times and the texts they are printed to and read from.
\<close>

subsection \<open>The calendar\<close>

text \<open>C35: a time stamp taken apart into fields and put together again is the same time stamp, anywhere in the
  range of \<open>Date\<close> but on the day the library loses, the 29th of February of the year 0.\<close>

theorem fields_roundtrip:
  assumes "\<bar>t\<bar> \<le> 8640000000000000" "tsToObj (Some (of_int t)) (Some 0) = Some c"
    "\<not> (c_year c = 0 \<and> c_month c = 2 \<and> c_day c = 29)"
  shows "objToLocalTS (obj_of_cal c) = Some t \<and> valid_cal c"
proof -
  have c: "c = cal_of_ms t" using assms(1,2) by (simp add: tsToObj_def TimeClip_def)
  with objToLocalTS_of_ms [OF assms(1)] assms(3) show ?thesis
    by (simp add: cal_lost_def lost_day_def valid_cal_of_ms)
qed

theorem fields_roundtrip_witness:
  "objToLocalTS (obj_of_cal (february\<lparr>c_year := 99, c_hour := 13\<rparr>)) = Some (-59040270000000) \<and>
   valid_cal (february\<lparr>c_year := 99, c_hour := 13\<rparr>)"
  by (rule fields_roundtrip) code_simp+

lemma MakeDay_carry: "MakeDay y (12 * q + m) d = MakeDay (y + q) m d"
  by (simp add: MakeDay_def Let_def add.assoc)

text \<open>\<open>daysInMonth\<close> is the number of days from the first of the month to the first of the next, for every
  month number, also those that carry into another year.\<close>

theorem daysInMonth_difference: "daysInMonth y m = MakeDay y m 1 - MakeDay y (m - 1) 1"
proof -
  define q r where "q = (m - 1) div 12" and "r = (m - 1) mod 12"
  have m: "m - 1 = 12 * q + r" "0 \<le> r" "r \<le> 11" unfolding q_def r_def by simp_all
  then have m': "m = 12 * q + (r + 1)" by simp
  have carry: "MakeDay y (m - 1) 1 = MakeDay (y + q) r 1" "MakeDay y m 1 = MakeDay (y + q) (r + 1) 1"
    unfolding m(1) using MakeDay_carry [of y q "r + 1" 1] by (simp_all add: MakeDay_carry m')
  show ?thesis
    unfolding carry using MakeDay_next_month [OF m(2,3), of "y + q"]
    by (simp add: daysInMonth_carry q_def r_def)
qed

text \<open>C36: the week date and the ordinal date of a date give its time stamp back, the week is within the bounds the
  library checks, and \<open>weeksInWeekYear\<close> counts the weeks from the first Monday week of the week year
  to that of the next. The month that \<open>uncomputeOrdinal\<close> finds is always January: the day overflows
  into the right month.\<close>

theorem date_forms_roundtrip:
  assumes "valid_cal c" "101 \<le> c_year c" "c_year c \<le> 10000"
  shows "objToLocalTS (weekToGregorian (gregorianToWeek (obj_of_cal c))) = Some (cal_ms c) \<and>
    hasInvalidWeekData (gregorianToWeek (obj_of_cal c)) = None \<and>
    7 * weeksInWeekYear (c_year c) = week1 (c_year c + 1) - week1 (c_year c) \<and>
    objToLocalTS (ordinalToGregorian (gregorianToOrdinal (obj_of_cal c))) = Some (cal_ms c) \<and>
    ordinalToGregorian (gregorianToOrdinal (obj_of_cal c)) UMonth = Some 1"
proof -
  have m: "modern (c_year c)" using assms by (simp add: modern_def)
  have "ordinalToGregorian (gregorianToOrdinal (obj_of_cal c)) UMonth = Some 1"
    using year_day_bounds(1) [OF assms(1)]
    by (simp add: gregorianToOrdinal_def ordinalToGregorian_def obj_of_cal_def computeOrdinal_cal [OF assms(1)]
        timeObject_def pick_def uncomputeOrdinal_january)
  then show ?thesis
    using assms m by (simp add: gregorianToWeek_valid week_roundtrip ordinal_roundtrip weeksInWeekYear_days)
qed

theorem date_forms_roundtrip_witness:
  "objToLocalTS (weekToGregorian (gregorianToWeek (obj_of_cal leap_day))) = Some (cal_ms leap_day) \<and>
    hasInvalidWeekData (gregorianToWeek (obj_of_cal leap_day)) = None \<and>
    7 * weeksInWeekYear (c_year leap_day) = week1 (c_year leap_day + 1) - week1 (c_year leap_day) \<and>
    objToLocalTS (ordinalToGregorian (gregorianToOrdinal (obj_of_cal leap_day))) = Some (cal_ms leap_day) \<and>
    ordinalToGregorian (gregorianToOrdinal (obj_of_cal leap_day)) UMonth = Some 1"
  by (rule date_forms_roundtrip [OF leap_matches(2)]) code_simp+

subsection \<open>Zones and offsets\<close>

text \<open>The zone whose offset changes once, and its local time.\<close>

definition one_change :: "rat \<Rightarrow> rat \<Rightarrow> rat \<Rightarrow> rat \<Rightarrow> rat" where
  "one_change T a b t = (if t < T then a else b)"

definition local_time :: "(rat \<Rightarrow> rat) \<Rightarrow> rat \<Rightarrow> rat" where
  "local_time offset t = t + offset t * 60000"

text \<open>C10: around a change of the offset \<open>fixOffset\<close> finds, from either offset as a guess, a time stamp whose
  offset is the one it returns and whose local time is the given one; a local time that the change
  skips is moved on by the length of the gap.\<close>

theorem fixOffset_change:
  assumes "guess = a \<or> guess = b"
  shows "\<exists>ts. fixOffset (Some l) (Some guess) (map_option (one_change T a b)) = (Some ts, Some (one_change T a b ts)) \<and>
    local_time (one_change T a b) ts
      = (if \<exists>t. local_time (one_change T a b) t = l then l else l + \<bar>b - a\<bar> * 60000)"
proof -
  have ex: "(\<exists>t. local_time (one_change T a b) t = l) \<longleftrightarrow> l - a * 60000 < T \<or> T \<le> l - b * 60000"
  proof
    assume "\<exists>t. local_time (one_change T a b) t = l"
    then show "l - a * 60000 < T \<or> T \<le> l - b * 60000" by (auto simp: local_time_def one_change_def split: if_splits)
  next
    assume "l - a * 60000 < T \<or> T \<le> l - b * 60000"
    then show "\<exists>t. local_time (one_change T a b) t = l"
      by (auto simp: local_time_def one_change_def intro: exI [of _ "l - a * 60000"] exI [of _ "l - b * 60000"])
  qed
  define A B where "A = l - a * 60000" and "B = l - b * 60000"
  have l: "A + a * 60000 = l" "B + b * 60000 = l" "A - (b - a) * 60000 = B" "B - (a - b) * 60000 = A"
    "A + b * 60000 = l + (b - a) * 60000"
    by (simp_all add: A_def B_def left_diff_distrib)
  have ab: "a < b \<longleftrightarrow> B < A" by (simp add: A_def B_def)
  have find: "fixOffset (Some l) (Some g) (map_option f) = (let u = l - g * 60000; o2 = f u; u2 = u - (o2 - g) * 60000;
      o3 = f u2 in if g = o2 then (Some u, Some g) else if o2 = o3 then (Some u2, Some o2)
      else (Some (l - min o2 o3 * 60000), Some (max o2 o3)))" for g f
    by (simp add: fixOffset_def Let_def)
  have "\<not> A < T \<Longrightarrow> B < T \<Longrightarrow> a < b" using ab by simp
  then show ?thesis
    using assms l unfolding ex find A_def [symmetric] B_def [symmetric]
    by (cases "A < T"; cases "B < T")
      (auto simp: one_change_def local_time_def Let_def A_def [symmetric] B_def [symmetric] min_def max_def)
qed

theorem fixOffset_change_witness:
  "\<exists>ts. fixOffset (Some 9000000) (Some 60) (map_option (one_change 3600000 60 120))
      = (Some ts, Some (one_change 3600000 60 120 ts)) \<and>
    local_time (one_change 3600000 60 120) ts
      = (if \<exists>t. local_time (one_change 3600000 60 120) t = 9000000 then 9000000 else 9000000 + \<bar>120 - 60\<bar> * 60000)"
  by (rule fixOffset_change) simp

lemma show_int_one_digit: "0 < m \<Longrightarrow> m < 10 \<Longrightarrow> length (show_int m) = 1"
proof -
  have "\<forall>m\<in>{1..9}. length (show_int m) = 1" by code_simp
  then show "0 < m \<Longrightarrow> m < 10 \<Longrightarrow> length (show_int m) = 1" by simp
qed

lemma parseSpecifier_unpadded:
  assumes "\<bar>n\<bar> < 6000" "0 < \<bar>n\<bar> mod 60" "\<bar>n\<bar> mod 60 < 10"
  shows "parseSpecifier (zone_name E (FixedOffsetZone (of_int n))) = None"
proof -
  define sg where "sg = (if 0 \<le> n then CHR ''+'' else CHR ''-'')"
  have "zone_name E (FixedOffsetZone (of_int n))
      = ''UTC'' @ sg # show_int (\<bar>n\<bar> div 60) @ CHR '':'' # show_int (\<bar>n\<bar> mod 60)"
    using assms(2) by (auto simp: zone_name_def narrow_offset sg_def)
  moreover have "match_utc (''UTC'' @ sg # show_int (\<bar>n\<bar> div 60) @ CHR '':'' # show_int (\<bar>n\<bar> mod 60)) = None"
    using show_int_one_digit [OF assms(2,3)] pos_imp_zdiv_nonneg_iff [of 60 "\<bar>n\<bar>"]
    by (simp add: match_utc_def Let_def)
  ultimately show ?thesis by (simp add: parseSpecifier_def)
qed

text \<open>C37: the name of a fixed-offset zone, read as a specifier, is the zone; the name does not pad minutes, and
  those below ten are lost.\<close>

theorem zone_name_roundtrip:
  assumes "\<bar>n\<bar> < 6000"
  shows "(parseSpecifier (zone_name E (FixedOffsetZone (of_int n))) = Some (FixedOffsetZone (of_int n)))
    = (\<bar>n\<bar> mod 60 = 0 \<or> 10 \<le> \<bar>n\<bar> mod 60)"
proof
  assume "\<bar>n\<bar> mod 60 = 0 \<or> 10 \<le> \<bar>n\<bar> mod 60"
  then show "parseSpecifier (zone_name E (FixedOffsetZone (of_int n))) = Some (FixedOffsetZone (of_int n))"
    using assms by (intro parseSpecifier_zone_name) (simp add: readable_offset_def)
next
  assume "parseSpecifier (zone_name E (FixedOffsetZone (of_int n))) = Some (FixedOffsetZone (of_int n))"
  then have "\<not> (0 < \<bar>n\<bar> mod 60 \<and> \<bar>n\<bar> mod 60 < 10)" using parseSpecifier_unpadded [OF assms, of E] by auto
  moreover have "0 \<le> \<bar>n\<bar> mod 60" by simp
  ultimately show "\<bar>n\<bar> mod 60 = 0 \<or> 10 \<le> \<bar>n\<bar> mod 60" by linarith
qed

theorem zone_name_roundtrip_witness:
  "(parseSpecifier (zone_name sample (FixedOffsetZone (of_int (- 330)))) = Some (FixedOffsetZone (of_int (- 330))))
    = (\<bar>- 330\<bar> mod 60 = (0::int) \<or> 10 \<le> \<bar>- 330\<bar> mod (60::int))"
  by (rule zone_name_roundtrip) simp

text \<open>When \<open>formatToParts\<close> writes the local time of a time stamp, \<open>IANAZone.offset\<close> computes the offset of the
  zone at it, whichever way midnight is written.\<close>

theorem iana_offset_correct:
  assumes "stamp_ok t" "\<bar>off\<bar> \<le> 10000" "reads (parts t) (cal_of_ms (t + off * 60000))"
  shows "iana_offset parts (Some (of_int t)) = Some (of_int off)"
  using iana_offset_reads [of t off parts] assms by simp

theorem iana_offset_correct_witness:
  "iana_offset (\<lambda>t. parts_of (cal_of_ms (t + 330 * 60000))) (Some (of_int 1706788800123)) = Some (of_int 330)"
  by (rule iana_offset_correct) (simp_all add: stamp_ok_def reads_parts_of)

subsection \<open>Durations\<close>


definition some_duration :: duration where
  "some_duration = \<lparr>d_values = [(Hours, 25), (Minutes, -61), (Milliseconds, 1500)], d_loc = sample_locale,
     d_longterm = False, d_invalid = None\<rparr>"

lemma some_duration_ok:
  "Duration_isValid some_duration" "d_matrix some_duration = casualMatrix"
  "keys (d_values some_duration) = {Hours, Minutes, Milliseconds}"
  by (simp_all add: some_duration_def Duration_isValid_def d_matrix_def keys_def insert_commute)


text \<open>Adding durations adds their lengths, and negating one negates it.\<close>

theorem duration_arithmetic:
  assumes "Duration_isValid a" "Duration_isValid b"
  shows "\<exists>s. Duration_plus E a (DDuration b) = Ok s \<and> d_ms s = d_ms a + values_ms (d_matrix a) (d_values b) \<and>
    d_ms (negate a) = - d_ms a \<and> negate (negate a) = a"
  using assms
  by (simp add: Duration_plus_def fromDurationLike_def plus_duration_def negate_def d_ms_def values_ms_plus
      values_ms_negate negate_values_twice) (simp add: with_values_def Duration_isValid_def)

theorem duration_arithmetic_witness:
  "\<exists>s. Duration_plus sample some_duration (DDuration some_duration) = Ok s \<and>
    d_ms s = d_ms some_duration + values_ms (d_matrix some_duration) (d_values some_duration) \<and>
    d_ms (negate some_duration) = - d_ms some_duration \<and> negate (negate some_duration) = some_duration"
  by (rule duration_arithmetic [OF some_duration_ok(1,1)])

subsection \<open>Date-times\<close>

text \<open>C40: adding a month keeps the day, or takes the last day of a shorter month; the start and the end of a
  month are its first and its last millisecond.\<close>

theorem month_arithmetic:
  assumes "sane_zone E z off" "Locale_fromObject E no_locale_opts = Ok l0"
    and "valid_cal c" "modern (c_year c)" "c_year c < 10000"
  shows "plus E (dt_at z off l c) (DObject [(''month'', VNum 1)])
      = Ok (dt_at z off l (next_month (min (c_day c) (daysInMonth (c_year c) (c_month c + 1))) c))
    \<and> startOf E (dt_at z off l c) ''month'' = Ok (dt_at z off l (month_begin c))
    \<and> endOf E (dt_at z off l c) ''month'' = Ok (dt_at z off l (end_of_month c))"
  using sane_zone.plus_one_month [OF assms(1,3,4,5,2)] sane_zone.startOf_month [OF assms(1,3,4)]
    sane_zone.endOf_month [OF assms(1,3,4,5,2)] by simp

theorem month_arithmetic_witness:
  "plus sample (dt_at utc_zone 0 sample_locale leap_day) (DObject [(''month'', VNum 1)])
      = Ok (dt_at utc_zone 0 sample_locale (next_month (min (c_day leap_day) (daysInMonth (c_year leap_day) (c_month leap_day + 1))) leap_day))
    \<and> startOf sample (dt_at utc_zone 0 sample_locale leap_day) ''month'' = Ok (dt_at utc_zone 0 sample_locale (month_begin leap_day))
    \<and> endOf sample (dt_at utc_zone 0 sample_locale leap_day) ''month'' = Ok (dt_at utc_zone 0 sample_locale (end_of_month leap_day))"
  by (rule month_arithmetic [OF sample_zone(1) sample_locale leap_matches(2,3)]) code_simp

text \<open>Setting one field to a value within its bounds sets that field, keeps the others (the day is brought
  down to the length of the month) and gives a real date.\<close>

theorem set_one_field:
  assumes "sane_zone E z off" "valid_cal c" "normalizeUnit s = Ok u" "set_ok u n c" "modern (c_year (cal_set u n c))"
  shows "DateTime_set E (dt_at z off l c) [(s, VNum n)] = Ok (dt_at z off l (cal_set u n c))
    \<and> valid_cal (cal_set u n c)"
  using sane_zone.set_modern [OF assms] valid_cal_set [OF assms(2,4)] by simp

theorem set_one_field_witness:
  "DateTime_set sample (dt_at utc_zone 0 sample_locale leap_day) [(''year'', VNum 2023)]
    = Ok (dt_at utc_zone 0 sample_locale (cal_set UYear 2023 leap_day)) \<and> valid_cal (cal_set UYear 2023 leap_day)"
  by (rule set_one_field [OF sample_zone(1) leap_matches(2)]) code_simp+

text \<open>C7: the ISO text of a date-time, with its offset, is read back as the same date-time in the zone asked for.\<close>

theorem iso_text_roundtrip:
  assumes "sane_zone E z off" "plain_iso op" "io_includeOffset op" "\<bar>off\<bar> < 6000"
    and "normalizeZone E zi (defaultZone E) = z"
    and "Locale_fromObject E no_locale_opts = Ok l0" "stamp_ok (st_now E)"
    and "valid_cal c" "modern (c_year c)" "c_year c < 10000"
  shows "\<exists>s. toISO E (dt_at z off l c) op = Some s \<and>
    fromISO E s (no_from_opts\<lparr>fo_zone := zi\<rparr>) = Ok (dt_at z off l0 c)"
  by (rule sane_zone.iso_roundtrip [OF assms])

theorem iso_text_roundtrip_witness:
  "\<exists>s. toISO sample (dt_at (FixedOffsetZone (of_int 330)) 330 sample_locale leap_day) iso_defaults = Some s \<and>
    fromISO sample s (no_from_opts\<lparr>fo_zone := ZString ''UTC+5:30''\<rparr>)
      = Ok (dt_at (FixedOffsetZone (of_int 330)) 330 sample_locale leap_day)"
  by (rule iso_text_roundtrip [OF fixed_sane_zone plain_defaults _ _ _ sample_locale sample_now(1) leap_matches(2,3)])
    code_simp+

text \<open>A text in universal time is read as the same instant in the zone asked for: the offset moves the fields.\<close>

theorem iso_text_other_zone:
  assumes "sane_zone E z off" "plain_iso op" "normalizeZone E zi (defaultZone E) = z"
    and "Locale_fromObject E no_locale_opts = Ok l0" "stamp_ok (st_now E)"
    and "valid_cal c" "modern (c_year c)" "c_year c < 10000"
  shows "\<exists>dt. fromISO E (toISODate_cal c True @ ''T'' @ toISOTime_clock c op @ ''Z'') (no_from_opts\<lparr>fo_zone := zi\<rparr>) = Ok dt
    \<and> dt_zone dt = z \<and> toMillis dt = Some (of_int (cal_ms c)) \<and> dt_c dt = Some (cal_of_ms (cal_ms c + off * 60000))"
  using sane_zone.fromISO_utc [OF assms] by simp

theorem iso_text_other_zone_witness:
  "\<exists>dt. fromISO sample (toISODate_cal leap_day True @ ''T'' @ toISOTime_clock leap_day iso_defaults @ ''Z'')
      (no_from_opts\<lparr>fo_zone := ZString ''UTC+5:30''\<rparr>) = Ok dt
    \<and> dt_zone dt = FixedOffsetZone (of_int 330) \<and> toMillis dt = Some (of_int (cal_ms leap_day))
    \<and> dt_c dt = Some (cal_of_ms (cal_ms leap_day + 330 * 60000))"
  by (rule iso_text_other_zone [OF fixed_sane_zone plain_defaults _ sample_locale sample_now(1) leap_matches(2,3)])
    code_simp+

end
