(* ===== verification/LuxonDiff.thy ===== *)
theory LuxonDiff
  imports DateTimeLaws
begin

text \<open>
  The difference of two points in time (\<open>dayDiff\<close>, \<open>highOrderDiffs\<close>, \<open>diff\<close> and
  \<open>DateTime.diff\<close> in \<open>ui/js/bundle.js\<close>): for the units years to days a cursor is moved from the
  earlier to the later point, unit by unit; what remains is a number of milliseconds that goes to
  the smaller units, or to the last of the larger ones as a fraction.

  Amounts are exact rationals. The quotient by a zero length, an infinite amount in the code, is
  not represented: the model takes \<open>NaN\<close> for it, which \<open>Duration.fromObject\<close> refuses. It needs a
  zone in which adding one unit does not move the clock forward.
\<close>

subsection \<open>Units of the calendar\<close>

definition dunit_name :: "dunit \<Rightarrow> string" where
  [luxon_defs]: "dunit_name u = (case u of Years \<Rightarrow> ''years'' | Quarters \<Rightarrow> ''quarters''
     | Months \<Rightarrow> ''months'' | Weeks \<Rightarrow> ''weeks'' | Days \<Rightarrow> ''days'' | Hours \<Rightarrow> ''hours''
     | Minutes \<Rightarrow> ''minutes'' | Seconds \<Rightarrow> ''seconds'' | Milliseconds \<Rightarrow> ''milliseconds'')"

definition utcDayStart :: "settings \<Rightarrow> datetime \<Rightarrow> num res" where
  [luxon_defs]: "utcDayStart E dt =
     rbind (toUTC E dt 0 True) (\<lambda>u. rmap toMillis (startOf E u ''day''))"

definition dayDiff :: "settings \<Rightarrow> datetime \<Rightarrow> datetime \<Rightarrow> num res" where
  [luxon_defs]: "dayDiff E earlier later =
     rbind (utcDayStart E later) (\<lambda>l. rbind (utcDayStart E earlier) (\<lambda>e.
     rbind (Duration_fromMillis E (nsub l e) no_locale_opts False) (\<lambda>d.
       rmap (map_option (\<lambda>x. of_int \<lfloor>x\<rfloor>)) (Duration_as d ''days''))))"

text \<open>\<open>b - a\<close> for two getters, \<open>NaN\<close> when one is missing.\<close>

definition int_diff :: "int option \<Rightarrow> int option \<Rightarrow> num" where
  [luxon_defs]: "int_diff b a = nsub (num_of b) (num_of a)"

definition differ :: "settings \<Rightarrow> dunit \<Rightarrow> datetime \<Rightarrow> datetime \<Rightarrow> num res" where
  [luxon_defs]: "differ E u a b = (case u of
       Years \<Rightarrow> Ok (int_diff (year b) (year a))
     | Quarters \<Rightarrow> Ok (int_diff (quarter b) (quarter a))
     | Months \<Rightarrow> Ok (nadd (int_diff (month b) (month a))
         (map_option (\<lambda>y. y * 12) (int_diff (year b) (year a))))
     | Weeks \<Rightarrow> rmap (map_option (\<lambda>days. (days - of_int (js_rem \<lfloor>days\<rfloor> 7)) / 7)) (dayDiff E a b)
     | _ \<Rightarrow> dayDiff E a b)"

definition highUnits :: "dunit list" where
  [luxon_defs]: "highUnits = [Years, Quarters, Months, Weeks, Days]"

subsection \<open>Moving the cursor\<close>

text \<open>The variables of \<open>highOrderDiffs\<close>; \<open>df_same\<close> says that \<open>highWater\<close> and \<open>cursor\<close> are one
  object. An undefined \<open>lowestOrder\<close> is the key \<open>"undefined"\<close>.\<close>

record diffs =
  df_cursor :: datetime
  df_results :: "(string \<times> rat uval) list"
  df_highWater :: "datetime option"
  df_lowestOrder :: string
  df_same :: bool

definition plus_unit :: "settings \<Rightarrow> datetime \<Rightarrow> string \<Rightarrow> num \<Rightarrow> datetime res" where
  [luxon_defs]: "plus_unit E dt unit n = plus E dt (DObject [(unit, uval_of_num n)])"

definition highOrder_step ::
  "settings \<Rightarrow> datetime \<Rightarrow> dunit list \<Rightarrow> dunit \<Rightarrow> diffs \<Rightarrow> diffs res" where
  [luxon_defs]: "highOrder_step E later units u s =
     (if u \<notin> set units then Ok s
      else rbind (differ E u (df_cursor s) later) (\<lambda>delta.
        rbind (plus_unit E (df_cursor s) (dunit_name u) delta) (\<lambda>highWater.
        if nless (toMillis later) (toMillis highWater)
        then rbind (plus_unit E (df_cursor s) (dunit_name u) (nsub delta (Some 1))) (\<lambda>cursor.
          Ok \<lparr>df_cursor = cursor,
            df_results = AList.update (dunit_name u) (uval_of_num (nsub delta (Some 1))) (df_results s),
            df_highWater = Some highWater, df_lowestOrder = dunit_name u, df_same = False\<rparr>)
        else Ok \<lparr>df_cursor = highWater,
            df_results = AList.update (dunit_name u) (uval_of_num delta) (df_results s),
            df_highWater = Some highWater, df_lowestOrder = dunit_name u, df_same = True\<rparr>)))"

definition highOrderDiffs :: "settings \<Rightarrow> datetime \<Rightarrow> datetime \<Rightarrow> dunit list \<Rightarrow> diffs res" where
  [luxon_defs]: "highOrderDiffs E cursor later units =
     foldM (highOrder_step E later units) highUnits
       \<lparr>df_cursor = cursor, df_results = [], df_highWater = None, df_lowestOrder = ''undefined'',
        df_same = False\<rparr>"

subsection \<open>Differences\<close>

definition lowUnits :: "dunit list \<Rightarrow> dunit list" where
  [luxon_defs]: "lowUnits units = filter (\<lambda>u. u \<in> {Hours, Minutes, Seconds, Milliseconds}) units"

text \<open>The quotient of two time stamps; see the note above on a zero length.\<close>

definition ndiv :: "num \<Rightarrow> num \<Rightarrow> num" where
  [luxon_defs]: "ndiv a b = (case (a, b) of (Some x, Some y) \<Rightarrow> if y = 0 then None else Some (x / y)
     | _ \<Rightarrow> None)"

definition or_zero :: "rat uval option \<Rightarrow> num" where
  [luxon_defs]: "or_zero v = (case v of Some (VNum x) \<Rightarrow> Some x | _ \<Rightarrow> Some 0)"

text \<open>The results when no unit below days is asked for: the remainder as a fraction of the last
  unit.\<close>

definition with_fraction :: "settings \<Rightarrow> datetime \<Rightarrow> num \<Rightarrow> diffs \<Rightarrow> (string \<times> rat uval) list res" where
  [luxon_defs]: "with_fraction E later remainingMillis s =
     (let hw = Option.bind (df_highWater s) toMillis; l = df_lowestOrder s in
      rbind (if nless hw (toMillis later)
             then rmap (\<lambda>h. (toMillis h, False)) (plus_unit E (df_cursor s) l (Some 1))
             else Ok (hw, df_same s))
        (\<lambda>(hw', same). Ok (if same then df_results s
           else AList.update l (uval_of_num (nadd (or_zero (map_of (df_results s) l))
                  (ndiv remainingMillis (nsub hw' (toMillis (df_cursor s)))))) (df_results s))))"

definition diff_of :: "settings \<Rightarrow> datetime \<Rightarrow> datetime \<Rightarrow> dunit list \<Rightarrow> locale_opts \<Rightarrow> bool \<Rightarrow>
  duration res" where
  [luxon_defs]: "diff_of E earlier later units opts longterm =
     rbind (highOrderDiffs E earlier later units) (\<lambda>s.
     let remainingMillis = nsub (toMillis later) (toMillis (df_cursor s));
         lowerOrderUnits = lowUnits units
     in rbind (if lowerOrderUnits = [] then with_fraction E later remainingMillis s
               else Ok (df_results s)) (\<lambda>results.
        rbind (Duration_fromObject E results opts longterm) (\<lambda>duration.
        if lowerOrderUnits = [] then Ok duration
        else rbind (Duration_fromMillis E remainingMillis opts longterm) (\<lambda>d.
          Duration_plus E (shiftTo_units d lowerOrderUnits) (DDuration duration)))))"

text \<open>The options of the duration: the locale and numbering system of the point in time unless others
  are given.\<close>

definition diff_opts :: "datetime \<Rightarrow> locale_opts \<Rightarrow> locale_opts" where
  [luxon_defs]: "diff_opts dt opts = opts\<lparr>
     lo_locale := (case lo_locale opts of None \<Rightarrow> Some (l_locale (dt_loc dt)) | Some l \<Rightarrow> Some l),
     lo_numberingSystem := (case lo_numberingSystem opts of
       None \<Rightarrow> l_numberingSystem (dt_loc dt) | Some n \<Rightarrow> Some n)\<rparr>"

definition DateTime_diff :: "settings \<Rightarrow> datetime \<Rightarrow> datetime \<Rightarrow> string list \<Rightarrow> locale_opts \<Rightarrow> bool \<Rightarrow>
  duration res" where
  [luxon_defs]: "DateTime_diff E dt other unit opts longterm =
     (if \<not> isValid dt \<or> \<not> isValid other
      then Duration_invalid E (Invalid ''created by diffing an invalid DateTime'' None)
      else rbind (mapM Duration_normalizeUnit unit) (\<lambda>units.
        if nless (toMillis dt) (toMillis other)
        then rmap negate (diff_of E dt other units (diff_opts dt opts) longterm)
        else diff_of E other dt units (diff_opts dt opts) longterm))"

definition diffNow :: "settings \<Rightarrow> datetime \<Rightarrow> string list \<Rightarrow> locale_opts \<Rightarrow> bool \<Rightarrow> duration res" where
  [luxon_defs]: "diffNow E dt unit opts longterm =
     rbind (DateTime_now E) (\<lambda>now. DateTime_diff E dt now unit opts longterm)"

end
