(* ===== verification/LuxonInterval.thy ===== *)
theory LuxonInterval
  imports LuxonDiff LuxonISO
begin

text \<open>
  Intervals (\<open>Interval\<close> in \<open>ui/js/bundle.js\<close>): a half-open span between two points in time,
  with its construction and validation, the questions asked of it, the set operations on spans
  (\<open>intersection\<close>, \<open>union\<close>, \<open>merge\<close>, \<open>xor\<close>, \<open>difference\<close>), its division into parts, and
  its output as text and as a duration.

  An invalid interval has no end points, and a comparison with \<open>undefined\<close> is false. The
  comparator of \<open>merge\<close> and \<open>xor\<close> orders valid intervals totally; on a list with an invalid one
  the order of \<open>Array.prototype.sort\<close> is left open by the standard, and \<open>js_sort\<close> is then one
  order it may give.
\<close>

subsection \<open>Sorting\<close>

text \<open>\<open>Array.prototype.sort\<close> is stable: elements that the comparator does not tell apart keep
  their order.\<close>

fun js_insert :: "('a \<Rightarrow> 'a \<Rightarrow> bool) \<Rightarrow> 'a \<Rightarrow> 'a list \<Rightarrow> 'a list" where
  "js_insert lt x [] = [x]"
| "js_insert lt x (y # ys) = (if lt y x then y # js_insert lt x ys else x # y # ys)"

definition js_sort :: "('a \<Rightarrow> 'a \<Rightarrow> bool) \<Rightarrow> 'a list \<Rightarrow> 'a list" where
  [js_defs]: "js_sort lt xs = foldr (js_insert lt) xs []"

text \<open>Strings are ordered by their code units.\<close>

fun js_string_less :: "string \<Rightarrow> string \<Rightarrow> bool" where
  "js_string_less s [] = False"
| "js_string_less [] (d # t) = True"
| "js_string_less (c # s) (d # t) =
     (code c < code d \<or> c = d \<and> js_string_less s t)"

subsection \<open>State and construction\<close>

record interval =
  iv_s :: "datetime option"
  iv_e :: "datetime option"
  iv_invalid :: "invalid option"

definition Interval_invalid :: "settings \<Rightarrow> invalid \<Rightarrow> interval res" where
  [luxon_defs]: "Interval_invalid E why =
     (if st_throwOnInvalid E
      then Throw (InvalidIntervalError (''Invalid Interval: '' @ toMessage why))
      else Ok \<lparr>iv_s = None, iv_e = None, iv_invalid = Some why\<rparr>)"

definition validateStartEnd :: "settings \<Rightarrow> datetime \<Rightarrow> datetime \<Rightarrow> interval res option" where
  [luxon_defs]: "validateStartEnd E s e =
     (if \<not> isValid s then Some (Interval_invalid E (Invalid ''missing or invalid start'' None))
      else if \<not> isValid e then Some (Interval_invalid E (Invalid ''missing or invalid end'' None))
      else if nless (toMillis e) (toMillis s)
      then Some (Interval_invalid E (Invalid ''end before start'' (Some
        (''The end of an interval must be after its start, but you had start='' @
         str_or_null (toISO E s iso_defaults) @ '' and end='' @
         str_or_null (toISO E e iso_defaults)))))
      else None)"

text \<open>What \<open>friendlyDateTime\<close> is given: a \<open>DateTime\<close>, a \<open>Date\<close> with its time value, another
  value that is not falsy and whose \<open>valueOf\<close> is a number, an object of units, or anything else,
  with its text and the name of its type.\<close>

datatype dateTimeish = DtDateTime datetime | DtDate "int option" | DtNumeric
  | DtObject "(string \<times> int uval) list" | DtOther string string

definition friendlyDateTime :: "settings \<Rightarrow> dateTimeish \<Rightarrow> datetime res" where
  [luxon_defs]: "friendlyDateTime E d = (case d of
       DtDateTime dt \<Rightarrow> Ok dt
     | DtDate t \<Rightarrow> fromJSDate E t ZUndefined no_locale_opts
     | DtNumeric \<Rightarrow> fromJSDate E None ZUndefined no_locale_opts
     | DtObject ob \<Rightarrow> fromObject E ob no_from_opts
     | DtOther v ty \<Rightarrow> Throw (InvalidArgumentError
         (''Unknown datetime argument: '' @ v @ '', of type '' @ ty)))"

definition span :: "settings \<Rightarrow> datetime \<Rightarrow> datetime \<Rightarrow> interval res" where
  [luxon_defs]: "span E s e = (case validateStartEnd E s e of
       None \<Rightarrow> Ok \<lparr>iv_s = Some s, iv_e = Some e, iv_invalid = None\<rparr>
     | Some r \<Rightarrow> r)"

definition fromDateTimes :: "settings \<Rightarrow> dateTimeish \<Rightarrow> dateTimeish \<Rightarrow> interval res" where
  [luxon_defs]: "fromDateTimes E s e = rbind (friendlyDateTime E s) (\<lambda>builtStart.
     rbind (friendlyDateTime E e) (\<lambda>builtEnd. span E builtStart builtEnd))"

definition Interval_after :: "settings \<Rightarrow> dateTimeish \<Rightarrow> durationLike \<Rightarrow> interval res" where
  [luxon_defs]: "Interval_after E s d = rbind (fromDurationLike E d) (\<lambda>dur.
     rbind (friendlyDateTime E s) (\<lambda>dt. rbind (plus E dt (DDuration dur)) (\<lambda>e.
       fromDateTimes E (DtDateTime dt) (DtDateTime e))))"

definition Interval_before :: "settings \<Rightarrow> dateTimeish \<Rightarrow> durationLike \<Rightarrow> interval res" where
  [luxon_defs]: "Interval_before E e d = rbind (fromDurationLike E d) (\<lambda>dur.
     rbind (friendlyDateTime E e) (\<lambda>dt. rbind (minus E dt (DDuration dur)) (\<lambda>s.
       fromDateTimes E (DtDateTime s) (DtDateTime dt))))"

text \<open>A \<open>DateTime.fromISO\<close> in a \<open>try\<close> block: the point in time when it is valid.\<close>

definition try_fromISO :: "settings \<Rightarrow> string \<Rightarrow> from_opts \<Rightarrow> datetime option res" where
  [luxon_defs]: "try_fromISO E txt opts = (case fromISO E txt opts of
       Ok dt \<Rightarrow> Ok (if isValid dt then Some dt else None) | Throw e \<Rightarrow> Ok None | Hang \<Rightarrow> Hang)"

definition Interval_fromISO :: "settings \<Rightarrow> string \<Rightarrow> from_opts \<Rightarrow> bool \<Rightarrow> interval res" where
  [luxon_defs]: "Interval_fromISO E txt opts longterm =
     (let parts = split (CHR ''/'') txt;
          s = parts ! 0; e = (if length parts < 2 then [] else parts ! 1);
          bad = Interval_invalid E (Invalid ''unparsable'' (Some
            (''the input \"'' @ txt @ ''\" can't be parsed as ISO 8601'')))
      in if s = [] \<or> e = [] then bad
         else rbind (try_fromISO E s opts) (\<lambda>start. rbind (try_fromISO E e opts) (\<lambda>stop.
           case (start, stop) of
             (Some a, Some b) \<Rightarrow> fromDateTimes E (DtDateTime a) (DtDateTime b)
           | (Some a, None) \<Rightarrow>
               rbind (Duration_fromISO E e (fo_locale opts) longterm) (\<lambda>dur.
               if Duration_isValid dur then Interval_after E (DtDateTime a) (DDuration dur) else bad)
           | (None, Some b) \<Rightarrow>
               rbind (Duration_fromISO E s (fo_locale opts) longterm) (\<lambda>dur.
               if Duration_isValid dur then Interval_before E (DtDateTime b) (DDuration dur) else bad)
           | (None, None) \<Rightarrow> bad)))"

subsection \<open>Getters and comparisons\<close>

definition iv_isValid :: "interval \<Rightarrow> bool" where
  [luxon_defs]: "iv_isValid iv = (iv_invalid iv = None)"

definition iv_start :: "interval \<Rightarrow> datetime option" where
  [luxon_defs]: "iv_start iv = (if iv_isValid iv then iv_s iv else None)"

definition iv_end :: "interval \<Rightarrow> datetime option" where
  [luxon_defs]: "iv_end iv = (if iv_isValid iv then iv_e iv else None)"

definition iv_invalidReason :: "interval \<Rightarrow> string option" where
  [luxon_defs]: "iv_invalidReason iv = map_option reason (iv_invalid iv)"

definition iv_invalidExplanation :: "interval \<Rightarrow> string option" where
  [luxon_defs]: "iv_invalidExplanation iv = Option.bind (iv_invalid iv) explanation"

text \<open>The end points as numbers; \<open>undefined\<close> is \<open>NaN\<close>.\<close>

definition ms_of :: "datetime option \<Rightarrow> num" where
  [luxon_defs]: "ms_of d = Option.bind d toMillis"

definition isEmpty :: "interval \<Rightarrow> bool res" where
  [luxon_defs]: "isEmpty iv = (case (iv_s iv, iv_e iv) of
       (Some s, Some e) \<Rightarrow> Ok (neq (toMillis s) (toMillis e))
     | _ \<Rightarrow> Throw (TypeError ''Cannot read properties of undefined (reading 'valueOf')''))"

definition isAfter :: "interval \<Rightarrow> datetime \<Rightarrow> bool" where
  [luxon_defs]: "isAfter iv dt \<longleftrightarrow> iv_isValid iv \<and> nless (toMillis dt) (ms_of (iv_s iv))"

definition isBefore :: "interval \<Rightarrow> datetime \<Rightarrow> bool" where
  [luxon_defs]: "isBefore iv dt \<longleftrightarrow> iv_isValid iv \<and> nle (ms_of (iv_e iv)) (toMillis dt)"

definition contains :: "interval \<Rightarrow> datetime \<Rightarrow> bool" where
  [luxon_defs]: "contains iv dt \<longleftrightarrow> iv_isValid iv \<and>
     nle (ms_of (iv_s iv)) (toMillis dt) \<and> nless (toMillis dt) (ms_of (iv_e iv))"

definition overlaps :: "interval \<Rightarrow> interval \<Rightarrow> bool" where
  [luxon_defs]: "overlaps iv other \<longleftrightarrow>
     nless (ms_of (iv_s other)) (ms_of (iv_e iv)) \<and> nless (ms_of (iv_s iv)) (ms_of (iv_e other))"

definition abutsStart :: "interval \<Rightarrow> interval \<Rightarrow> bool" where
  [luxon_defs]: "abutsStart iv other \<longleftrightarrow> iv_isValid iv \<and> neq (ms_of (iv_e iv)) (ms_of (iv_s other))"

definition abutsEnd :: "interval \<Rightarrow> interval \<Rightarrow> bool" where
  [luxon_defs]: "abutsEnd iv other \<longleftrightarrow> iv_isValid iv \<and> neq (ms_of (iv_e other)) (ms_of (iv_s iv))"

definition engulfs :: "interval \<Rightarrow> interval \<Rightarrow> bool" where
  [luxon_defs]: "engulfs iv other \<longleftrightarrow> iv_isValid iv \<and>
     nle (ms_of (iv_s iv)) (ms_of (iv_s other)) \<and> nle (ms_of (iv_e other)) (ms_of (iv_e iv))"

definition dt_equals :: "datetime option \<Rightarrow> datetime option \<Rightarrow> bool" where
  [luxon_defs]: "dt_equals a b = (case (a, b) of
       (Some x, Some y) \<Rightarrow> DateTime_equals x y | _ \<Rightarrow> False)"

definition Interval_equals :: "interval \<Rightarrow> interval \<Rightarrow> bool" where
  [luxon_defs]: "Interval_equals iv other \<longleftrightarrow> iv_isValid iv \<and> iv_isValid other \<and>
     dt_equals (iv_s iv) (iv_s other) \<and> dt_equals (iv_e iv) (iv_e other)"

subsection \<open>Set operations\<close>

text \<open>An end point as an argument of \<open>fromDateTimes\<close>; it may be \<open>undefined\<close>.\<close>

definition endpoint :: "datetime option \<Rightarrow> dateTimeish" where
  [luxon_defs]: "endpoint d = (case d of Some dt \<Rightarrow> DtDateTime dt
     | None \<Rightarrow> DtOther ''undefined'' ''undefined'')"

definition Interval_set :: "settings \<Rightarrow> interval \<Rightarrow> dateTimeish option \<Rightarrow> dateTimeish option \<Rightarrow>
  interval res" where
  [luxon_defs]: "Interval_set E iv start stop =
     (if \<not> iv_isValid iv then Ok iv
      else fromDateTimes E (case start of Some d \<Rightarrow> d | None \<Rightarrow> endpoint (iv_s iv))
             (case stop of Some d \<Rightarrow> d | None \<Rightarrow> endpoint (iv_e iv)))"

text \<open>\<open>None\<close> is \<open>null\<close>.\<close>

definition intersection :: "settings \<Rightarrow> interval \<Rightarrow> interval \<Rightarrow> interval option res" where
  [luxon_defs]: "intersection E iv other =
     (if \<not> iv_isValid iv then Ok (Some iv)
      else let s = (if nless (ms_of (iv_s other)) (ms_of (iv_s iv)) then iv_s iv else iv_s other);
               e = (if nless (ms_of (iv_e iv)) (ms_of (iv_e other)) then iv_e iv else iv_e other)
        in if nle (ms_of e) (ms_of s) then Ok None
           else rmap Some (fromDateTimes E (endpoint s) (endpoint e)))"

definition union :: "settings \<Rightarrow> interval \<Rightarrow> interval \<Rightarrow> interval res" where
  [luxon_defs]: "union E iv other =
     (if \<not> iv_isValid iv then Ok iv
      else let s = (if nless (ms_of (iv_s iv)) (ms_of (iv_s other)) then iv_s iv else iv_s other);
               e = (if nless (ms_of (iv_e other)) (ms_of (iv_e iv)) then iv_e iv else iv_e other)
        in fromDateTimes E (endpoint s) (endpoint e))"

definition merge_step :: "settings \<Rightarrow> interval \<Rightarrow> interval list \<times> interval option \<Rightarrow>
  (interval list \<times> interval option) res" where
  [luxon_defs]: "merge_step E item s = (case snd s of
       None \<Rightarrow> Ok (fst s, Some item)
     | Some current \<Rightarrow>
         if overlaps current item \<or> abutsStart current item
         then rmap (\<lambda>u. (fst s, Some u)) (union E current item)
         else Ok (fst s @ [current], Some item))"

definition start_less :: "interval \<Rightarrow> interval \<Rightarrow> bool" where
  [luxon_defs]: "start_less a b = nless (ms_of (iv_s a)) (ms_of (iv_s b))"

definition merge :: "settings \<Rightarrow> interval list \<Rightarrow> interval list res" where
  [luxon_defs]: "merge E intervals =
     rmap (\<lambda>(found, final). case final of None \<Rightarrow> found | Some f \<Rightarrow> found @ [f])
       (foldM (merge_step E) (js_sort start_less intervals) ([], None))"

text \<open>The end points in the order of time, each with whether an interval starts there.\<close>

type_synonym mark = "datetime option \<times> bool"

definition marks :: "interval list \<Rightarrow> mark list" where
  [luxon_defs]: "marks intervals = js_sort (\<lambda>a b. nless (ms_of (fst a)) (ms_of (fst b)))
     (concat (map (\<lambda>i. [(iv_s i, True), (iv_e i, False)]) intervals))"

record sweep =
  sw_start :: "datetime option"
  sw_count :: int
  sw_results :: "interval list"

definition xor_step :: "settings \<Rightarrow> mark \<Rightarrow> sweep \<Rightarrow> sweep res" where
  [luxon_defs]: "xor_step E i w =
     (let currentCount = sw_count w + (if snd i then 1 else -1) in
      if currentCount = 1 then Ok (w\<lparr>sw_start := fst i, sw_count := currentCount\<rparr>)
      else rbind (case sw_start w of None \<Rightarrow> Ok (sw_results w)
             | Some start \<Rightarrow>
                 if neq (toMillis start) (ms_of (fst i)) then Ok (sw_results w)
                 else rmap (\<lambda>r. sw_results w @ [r])
                   (fromDateTimes E (DtDateTime start) (endpoint (fst i))))
        (\<lambda>results. Ok \<lparr>sw_start = None, sw_count = currentCount, sw_results = results\<rparr>))"

definition xor :: "settings \<Rightarrow> interval list \<Rightarrow> interval list res" where
  [luxon_defs]: "xor E intervals =
     rbind (foldM (xor_step E) (marks intervals) \<lparr>sw_start = None, sw_count = 0, sw_results = []\<rparr>)
       (\<lambda>w. merge E (sw_results w))"

fun filterM :: "('a \<Rightarrow> bool res) \<Rightarrow> 'a list \<Rightarrow> 'a list res" where
  "filterM p [] = Ok []"
| "filterM p (x # xs) =
     rbind (p x) (\<lambda>b. rmap (\<lambda>ys. if b then x # ys else ys) (filterM p xs))"

definition difference :: "settings \<Rightarrow> interval \<Rightarrow> interval list \<Rightarrow> interval list res" where
  [luxon_defs]: "difference E iv intervals =
     rbind (xor E (iv # intervals)) (\<lambda>parts.
     rbind (mapM (intersection E iv) parts) (\<lambda>cut.
       rmap (map the) (filterM (\<lambda>i. case i of None \<Rightarrow> Ok False | Some p \<Rightarrow> rmap Not (isEmpty p)) cut)))"

subsection \<open>Division into parts\<close>

definition date_text :: "settings \<Rightarrow> datetime \<Rightarrow> string" where
  [luxon_defs]: "date_text E dt = str_or_null (DateTime_toString E dt)"

text \<open>The loop of \<open>splitAt\<close> from \<open>s\<close> over the points that are left.\<close>

fun split_from :: "settings \<Rightarrow> datetime \<Rightarrow> datetime \<Rightarrow> datetime list \<Rightarrow> interval list res" where
  "split_from E e s [] =
     (if nless (toMillis s) (toMillis e) then rmap (\<lambda>p. [p]) (span E s e) else Ok [])"
| "split_from E e s (d # ds) =
     (if nless (toMillis s) (toMillis e) then
        let next' = (if nless (toMillis e) (toMillis d) then e else d) in
        rbind (span E s next') (\<lambda>p. rmap (Cons p) (split_from E e next' ds))
      else Ok [])"

text \<open>The points are sorted as texts: \<open>sort()\<close> without a comparator compares what \<open>toString\<close>
  gives.\<close>

definition splitAt :: "settings \<Rightarrow> interval \<Rightarrow> dateTimeish list \<Rightarrow> interval list res" where
  [luxon_defs]: "splitAt E iv dateTimes =
     (if \<not> iv_isValid iv then Ok []
      else rbind (mapM (friendlyDateTime E) dateTimes) (\<lambda>ds.
        let sorted' = js_sort (\<lambda>a b. js_string_less (date_text E a) (date_text E b))
              (filter (contains iv) ds)
        in case (iv_s iv, iv_e iv) of (Some s, Some e) \<Rightarrow> split_from E e s sorted' | _ \<Rightarrow> Ok []))"

definition splitBy_step :: "settings \<Rightarrow> datetime \<Rightarrow> datetime \<Rightarrow> duration \<Rightarrow>
  datetime \<times> int \<times> interval list \<Rightarrow> (datetime \<times> int \<times> interval list) res" where
  [luxon_defs]: "splitBy_step E start stop dur = (\<lambda>(s, idx, results).
     rbind (mapUnits (\<lambda>x u. VNum (x * of_int idx)) dur) (\<lambda>d.
     rbind (plus E start (DDuration d)) (\<lambda>added.
     let next' = (if nless (toMillis stop) (toMillis added) then stop else added) in
     rbind (span E s next') (\<lambda>p. Ok (next', idx + 1, results @ [p])))))"

text \<open>A \<open>while\<close> loop whose body may throw.\<close>

definition splitBy_loop :: "settings \<Rightarrow> datetime \<Rightarrow> datetime \<Rightarrow> duration \<Rightarrow> interval list res" where
  [luxon_defs]: "splitBy_loop E start stop dur =
     (case while_option (\<lambda>r. case r of Ok (s, _) \<Rightarrow> nless (toMillis s) (toMillis stop) | _ \<Rightarrow> False)
         (\<lambda>r. rbind r (splitBy_step E start stop dur)) (Ok (start, 1, [])) of
       None \<Rightarrow> Hang | Some r \<Rightarrow> rmap (\<lambda>(_, _, results). results) r)"

definition splitBy :: "settings \<Rightarrow> interval \<Rightarrow> durationLike \<Rightarrow> interval list res" where
  [luxon_defs]: "splitBy E iv d =
     rbind (fromDurationLike E d) (\<lambda>dur.
     if \<not> iv_isValid iv \<or> \<not> Duration_isValid dur then Ok []
     else rbind (Duration_as dur ''milliseconds'') (\<lambda>ms.
       if ms = Some 0 then Ok []
       else case (iv_s iv, iv_e iv) of (Some s, Some e) \<Rightarrow> splitBy_loop E s e dur | _ \<Rightarrow> Ok []))"

subsection \<open>Lengths\<close>

definition toDuration :: "settings \<Rightarrow> interval \<Rightarrow> string list \<Rightarrow> locale_opts \<Rightarrow> bool \<Rightarrow> duration res" where
  [luxon_defs]: "toDuration E iv unit opts longterm =
     (case iv_invalid iv of Some i \<Rightarrow> Duration_invalid E (Invalid (reason i) None)
      | None \<Rightarrow> (case (iv_s iv, iv_e iv) of
            (Some s, Some e) \<Rightarrow> DateTime_diff E e s unit opts longterm
          | _ \<Rightarrow> Throw (TypeError ''Cannot read properties of undefined (reading 'diff')'')))"

definition Interval_length :: "settings \<Rightarrow> interval \<Rightarrow> string \<Rightarrow> num res" where
  [luxon_defs]: "Interval_length E iv unit =
     (if iv_isValid iv
      then rbind (toDuration E iv [unit] no_locale_opts False) (\<lambda>d. Duration_get d unit)
      else Ok None)"

definition Interval_count :: "settings \<Rightarrow> interval \<Rightarrow> string \<Rightarrow> num res" where
  [luxon_defs]: "Interval_count E iv unit =
     (case (iv_start iv, iv_end iv) of
       (Some s, Some e) \<Rightarrow>
         rbind (startOf E s unit) (\<lambda>start. rbind (startOf E e unit) (\<lambda>stop.
         rbind (DateTime_diff E stop start [unit] no_locale_opts False) (\<lambda>d.
           rmap (map_option (\<lambda>n. of_int (\<lfloor>n\<rfloor> + 1))) (Duration_get d unit))))
     | _ \<Rightarrow> Ok None)"

definition Interval_hasSame :: "settings \<Rightarrow> interval \<Rightarrow> string \<Rightarrow> bool res" where
  [luxon_defs]: "Interval_hasSame E iv unit =
     (case (iv_start iv, iv_end iv) of
       (Some s, Some e) \<Rightarrow> rbind (isEmpty iv) (\<lambda>b.
         if b then Ok True
         else rbind (minus E e (DNumber (Some 1))) (\<lambda>last. hasSame E last s unit))
     | _ \<Rightarrow> Ok False)"

definition slice_to :: "int \<Rightarrow> 'a list \<Rightarrow> 'a list" where
  [js_defs]: "slice_to n xs = (if 0 \<le> n then take (nat n) xs else take (nat (int (length xs) + n)) xs)"

definition divideEqually :: "settings \<Rightarrow> interval \<Rightarrow> int \<Rightarrow> interval list res" where
  [luxon_defs]: "divideEqually E iv numberOfParts =
     (if \<not> iv_isValid iv then Ok []
      else rbind (Interval_length E iv ''milliseconds'') (\<lambda>len.
        rmap (slice_to numberOfParts)
          (splitBy E iv (DNumber (ndiv len (Some (of_int numberOfParts)))))))"

subsection \<open>Text and mapping\<close>

definition join_ends :: "interval \<Rightarrow> (datetime \<Rightarrow> string option) \<Rightarrow> string" where
  [luxon_defs]: "join_ends iv f = (case (iv_start iv, iv_end iv) of
       (Some s, Some e) \<Rightarrow> str_or_null (f s) @ ''/'' @ str_or_null (f e)
     | _ \<Rightarrow> ''Invalid Interval'')"

definition Interval_toISO :: "settings \<Rightarrow> interval \<Rightarrow> iso_opts \<Rightarrow> string" where
  [luxon_defs]: "Interval_toISO E iv opts = join_ends iv (\<lambda>d. toISO E d opts)"

definition Interval_toISODate :: "interval \<Rightarrow> string" where
  [luxon_defs]: "Interval_toISODate iv = join_ends iv (\<lambda>d. toISODate d True)"

definition Interval_toISOTime :: "settings \<Rightarrow> interval \<Rightarrow> iso_opts \<Rightarrow> bool \<Rightarrow> string" where
  [luxon_defs]: "Interval_toISOTime E iv opts includePrefix =
     join_ends iv (\<lambda>d. toISOTime E d opts includePrefix)"

definition mapEndpoints :: "settings \<Rightarrow> interval \<Rightarrow> (datetime option \<Rightarrow> dateTimeish res) \<Rightarrow>
  interval res" where
  [luxon_defs]: "mapEndpoints E iv mapFn =
     rbind (mapFn (iv_s iv)) (\<lambda>s. rbind (mapFn (iv_e iv)) (\<lambda>e. fromDateTimes E s e))"

text \<open>\<open>DateTime.until\<close> gives an interval, or the invalid point in time itself.\<close>

definition DateTime_until :: "settings \<Rightarrow> datetime \<Rightarrow> dateTimeish \<Rightarrow> (interval + datetime) res" where
  [luxon_defs]: "DateTime_until E dt other =
     (if isValid dt then rmap Inl (fromDateTimes E (DtDateTime dt) other) else Ok (Inr dt))"

end
