(* ===== verification/IntervalLaws.thy ===== *)
theory IntervalLaws
  imports LuxonInterval
begin

text \<open>
  Intervals as sets of instants. An interval that is \<open>proper\<close> (valid, with its end points in
  order) stands for the time stamps from its start up to its end; the operations of the code are
  shown to be the operations on these sets: \<open>merge\<close> keeps the union and leaves gaps between its
  results, \<open>xor\<close> gives what lies in exactly one interval, \<open>difference\<close> the set difference.
\<close>

subsection \<open>Sorting by a key\<close>

locale keyed_order =
  fixes ok :: "'a \<Rightarrow> bool" and lt :: "'a \<Rightarrow> 'a \<Rightarrow> bool" and key :: "'a \<Rightarrow> 'k::linorder"
  assumes lt_key: "ok a \<Longrightarrow> ok b \<Longrightarrow> lt a b \<longleftrightarrow> key a < key b"
begin

lemma js_insert_insort:
  "ok x \<Longrightarrow> list_all ok ys \<Longrightarrow> js_insert lt x ys = insort_key key x ys"
  by (induction ys) (auto simp: lt_key not_less)

lemma js_sort_key: "list_all ok xs \<Longrightarrow> js_sort lt xs = sort_key key xs"
proof (induction xs)
  case (Cons x xs)
  then have "js_sort lt (x # xs) = js_insert lt x (sort_key key xs)" by (simp add: js_sort_def)
  also have "\<dots> = insort_key key x (sort_key key xs)"
    using Cons.prems by (intro js_insert_insort) (auto simp: list_all_iff)
  finally show ?case by simp
qed (simp add: js_sort_def)

lemma js_sort_sorted: "list_all ok xs \<Longrightarrow> sorted (map key (js_sort lt xs))"
  by (simp add: js_sort_key)

lemma set_js_sort: "list_all ok xs \<Longrightarrow> set (js_sort lt xs) = set xs"
  by (simp add: js_sort_key)

lemma sum_js_sort:
  assumes "list_all ok xs"
  shows "sum_list (map f (js_sort lt xs)) = (sum_list (map f xs) :: int)"
proof -
  have "sum_list (map f (insort_key key x ys)) = f x + sum_list (map f ys)" for x ys
    by (induction ys) auto
  then have "sum_list (map f (sort_key key xs)) = sum_list (map f xs)" by (induction xs) auto
  then show ?thesis using assms by (simp add: js_sort_key)
qed

end

subsection \<open>Proper intervals\<close>

text \<open>A valid point in time with a time stamp, and the interval of two such points.\<close>

definition good :: "datetime \<Rightarrow> bool" where
  "good dt \<longleftrightarrow> isValid dt \<and> dt_ts dt \<noteq> None"

definition stamp :: "datetime \<Rightarrow> rat" where
  "stamp dt = the (dt_ts dt)"

definition between :: "datetime \<Rightarrow> datetime \<Rightarrow> interval" where
  "between s e = \<lparr>iv_s = Some s, iv_e = Some e, iv_invalid = None\<rparr>"

definition proper :: "interval \<Rightarrow> bool" where
  "proper iv \<longleftrightarrow> (case (iv_s iv, iv_e iv) of
     (Some s, Some e) \<Rightarrow> iv_invalid iv = None \<and> good s \<and> good e \<and> stamp s \<le> stamp e | _ \<Rightarrow> False)"

definition iv_lo :: "interval \<Rightarrow> rat" where
  "iv_lo iv = the (ms_of (iv_s iv))"

definition iv_hi :: "interval \<Rightarrow> rat" where
  "iv_hi iv = the (ms_of (iv_e iv))"

definition instants :: "interval \<Rightarrow> rat set" where
  "instants iv = {t. iv_lo iv \<le> t \<and> t < iv_hi iv}"

definition cover :: "interval list \<Rightarrow> rat set" where
  "cover xs = (\<Union>x\<in>set xs. instants x)"

lemma cover_simps [simp]:
  "cover [] = {}" "cover (x # xs) = instants x \<union> cover xs" "cover (xs @ ys) = cover xs \<union> cover ys"
  by (auto simp: cover_def)

lemma cover_set: "set xs = set ys \<Longrightarrow> cover xs = cover ys"
  by (simp add: cover_def)

lemma toMillis_good [simp]: "good dt \<Longrightarrow> toMillis dt = Some (stamp dt)"
  by (auto simp: good_def stamp_def toMillis_def)

lemma good_valid: "good dt \<Longrightarrow> isValid dt"
  by (simp add: good_def)

lemma between_simps [simp]:
  "iv_s (between s e) = Some s" "iv_e (between s e) = Some e" "iv_invalid (between s e) = None"
  "iv_isValid (between s e)" "iv_start (between s e) = Some s" "iv_end (between s e) = Some e"
  "good s \<Longrightarrow> iv_lo (between s e) = stamp s" "good e \<Longrightarrow> iv_hi (between s e) = stamp e"
  by (simp_all add: between_def iv_isValid_def iv_start_def iv_end_def iv_lo_def iv_hi_def ms_of_def)

lemma proper_between [simp]: "proper (between s e) \<longleftrightarrow> good s \<and> good e \<and> stamp s \<le> stamp e"
  by (simp add: proper_def)

lemma properE:
  assumes "proper iv"
  obtains s e where "iv = between s e" "good s" "good e" "stamp s \<le> stamp e"
  using assms by (cases iv) (auto simp: proper_def between_def split: option.splits)

lemma proper_ms:
  assumes "proper iv"
  shows "ms_of (iv_s iv) = Some (iv_lo iv)" "ms_of (iv_e iv) = Some (iv_hi iv)" "iv_lo iv \<le> iv_hi iv"
    "iv_isValid iv"
  using assms by (auto elim!: properE simp: ms_of_def)

lemma num_order [simp]:
  "nless (Some a) (Some b) \<longleftrightarrow> a < b" "nle (Some a) (Some b) \<longleftrightarrow> a \<le> b" "neq (Some a) (Some b) \<longleftrightarrow> a = b"
  by (simp_all add: nless_def nle_def neq_def)

lemma span_between [simp]:
  "good s \<Longrightarrow> good e \<Longrightarrow> stamp s \<le> stamp e \<Longrightarrow> span E s e = Ok (between s e)"
  by (simp add: span_def validateStartEnd_def good_valid between_def)

lemma fromDateTimes_span [simp]: "fromDateTimes E (DtDateTime s) (DtDateTime e) = span E s e"
  by (simp add: fromDateTimes_def friendlyDateTime_def)

lemma endpoint_Some [simp]: "endpoint (Some d) = DtDateTime d"
  by (simp add: endpoint_def)

text \<open>Whatever \<open>fromDateTimes\<close> returns is valid with its end points in order, or has no end points.\<close>

lemma span_result:
  assumes "span E s e = Ok iv"
  shows "iv = between s e \<and> isValid s \<and> isValid e \<and> \<not> nless (toMillis e) (toMillis s)
    \<or> \<not> iv_isValid iv \<and> iv_s iv = None \<and> iv_e iv = None"
  using assms by (auto simp: span_def validateStartEnd_def Interval_invalid_def between_def iv_isValid_def
      split: if_splits)

subsection \<open>Questions\<close>

lemma contains_instants: "proper iv \<Longrightarrow> good dt \<Longrightarrow> contains iv dt \<longleftrightarrow> stamp dt \<in> instants iv"
  by (simp add: contains_def proper_ms instants_def)

lemma isAfter_instants: "proper iv \<Longrightarrow> good dt \<Longrightarrow> isAfter iv dt \<longleftrightarrow> stamp dt < iv_lo iv"
  by (simp add: isAfter_def proper_ms)

lemma isBefore_instants: "proper iv \<Longrightarrow> good dt \<Longrightarrow> isBefore iv dt \<longleftrightarrow> iv_hi iv \<le> stamp dt"
  by (simp add: isBefore_def proper_ms)

lemma isEmpty_lo_hi: "proper iv \<Longrightarrow> isEmpty iv = Ok (iv_lo iv = iv_hi iv)"
  by (auto elim!: properE simp: isEmpty_def)

lemma overlaps_lo_hi: "proper a \<Longrightarrow> proper b \<Longrightarrow> overlaps a b \<longleftrightarrow> iv_lo b < iv_hi a \<and> iv_lo a < iv_hi b"
  by (simp add: overlaps_def proper_ms)

lemma abutsStart_lo_hi: "proper a \<Longrightarrow> proper b \<Longrightarrow> abutsStart a b \<longleftrightarrow> iv_hi a = iv_lo b"
  by (simp add: abutsStart_def proper_ms)

lemma instants_empty: "instants iv = {} \<longleftrightarrow> iv_hi iv \<le> iv_lo iv"
  by (auto simp: instants_def not_le intro: order.strict_trans1)

lemma overlaps_instants:
  assumes "proper a" "proper b" "iv_lo a < iv_hi a" "iv_lo b < iv_hi b"
  shows "overlaps a b \<longleftrightarrow> instants a \<inter> instants b \<noteq> {}"
proof -
  have "iv_lo b < iv_hi a \<and> iv_lo a < iv_hi b \<longleftrightarrow> max (iv_lo a) (iv_lo b) \<in> instants a \<inter> instants b"
    using assms(3,4) by (auto simp: instants_def)
  moreover have "t \<in> instants a \<inter> instants b \<Longrightarrow> iv_lo b < iv_hi a \<and> iv_lo a < iv_hi b" for t
    by (auto simp: instants_def)
  ultimately show ?thesis using assms(1,2) by (auto simp: overlaps_lo_hi)
qed

lemma engulfs_instants:
  assumes "proper a" "proper b" "iv_lo b < iv_hi b"
  shows "engulfs a b \<longleftrightarrow> instants b \<subseteq> instants a"
proof
  show "engulfs a b \<Longrightarrow> instants b \<subseteq> instants a"
    using assms by (auto simp: engulfs_def proper_ms instants_def)
  assume s: "instants b \<subseteq> instants a"
  have "iv_lo b \<in> instants b" using assms(3) by (simp add: instants_def)
  with s have lo: "iv_lo a \<le> iv_lo b" "iv_lo b < iv_hi a" by (auto simp: instants_def)
  have "iv_hi b \<le> iv_hi a"
  proof (rule ccontr)
    assume "\<not> iv_hi b \<le> iv_hi a"
    then have "iv_hi a \<in> instants b" using lo by (simp add: instants_def)
    with s show False by (auto simp: instants_def)
  qed
  with lo show "engulfs a b" using assms by (simp add: engulfs_def proper_ms)
qed

lemma isEmpty_instants: "proper iv \<Longrightarrow> isEmpty iv = Ok (instants iv = {})"
  using proper_ms(3) [of iv] by (auto simp: isEmpty_lo_hi instants_empty)

subsection \<open>Intersection and union\<close>

lemma union_proper:
  assumes "proper a" "proper b"
  obtains u where "union E a b = Ok u" "proper u" "iv_lo u = min (iv_lo a) (iv_lo b)"
    "iv_hi u = max (iv_hi a) (iv_hi b)"
proof -
  obtain s e where a: "a = between s e" "good s" "good e" "stamp s \<le> stamp e" using assms(1) by (rule properE)
  obtain s' e' where b: "b = between s' e'" "good s'" "good e'" "stamp s' \<le> stamp e'"
    using assms(2) by (rule properE)
  let ?s = "if stamp s < stamp s' then s else s'" and ?e = "if stamp e' < stamp e then e else e'"
  have "union E a b = Ok (between ?s ?e)"
    using a b by (auto simp: union_def ms_of_def Let_def)
  moreover have "proper (between ?s ?e)" using a b by auto
  moreover have "iv_lo (between ?s ?e) = min (iv_lo a) (iv_lo b)"
    "iv_hi (between ?s ?e) = max (iv_hi a) (iv_hi b)" using a b by (auto simp: min_def max_def)
  ultimately show thesis by (rule that)
qed

lemma intersection_proper:
  assumes "proper a" "proper b"
  shows "if instants a \<inter> instants b = {} then intersection E a b = Ok None
    else \<exists>i. intersection E a b = Ok (Some i) \<and> proper i \<and> instants i = instants a \<inter> instants b
      \<and> iv_lo i = max (iv_lo a) (iv_lo b) \<and> iv_hi i = min (iv_hi a) (iv_hi b)"
proof -
  obtain s e where a: "a = between s e" "good s" "good e" "stamp s \<le> stamp e" using assms(1) by (rule properE)
  obtain s' e' where b: "b = between s' e'" "good s'" "good e'" "stamp s' \<le> stamp e'"
    using assms(2) by (rule properE)
  define S where "S = (if stamp s' < stamp s then s else s')"
  define F where "F = (if stamp e < stamp e' then e else e')"
  have st: "stamp S = max (iv_lo a) (iv_lo b)" "stamp F = min (iv_hi a) (iv_hi b)" "good S" "good F"
    using a b by (auto simp: min_def max_def S_def F_def)
  have I: "instants a \<inter> instants b = {t. stamp S \<le> t \<and> t < stamp F}"
    using st(1,2) by (auto simp: instants_def)
  have "intersection E a b = (if stamp F \<le> stamp S then Ok None else rmap Some (span E S F))"
    unfolding a(1) b(1) S_def F_def using a(2,3) b(2,3)
    by (cases "stamp s' < stamp s"; cases "stamp e < stamp e'") (simp_all add: intersection_def ms_of_def)
  moreover have e: "stamp F \<le> stamp S \<longleftrightarrow> instants a \<inter> instants b = {}"
  proof
    show "instants a \<inter> instants b = {} \<Longrightarrow> stamp F \<le> stamp S"
      unfolding I by (metis (mono_tags) empty_Collect_eq linorder_not_le order.refl)
  qed (auto simp: I)
  ultimately have r: "intersection E a b
      = (if instants a \<inter> instants b = {} then Ok None else rmap Some (span E S F))" by simp
  show ?thesis
  proof (cases "instants a \<inter> instants b = {}")
    case False
    with e have le: "stamp S \<le> stamp F" by simp
    then have "intersection E a b = Ok (Some (between S F))" "proper (between S F)"
      using st(3,4) by (simp_all add: r False)
    moreover have "instants (between S F) = instants a \<inter> instants b"
      using I st(3,4) by (simp add: instants_def)
    ultimately show ?thesis using False st by simp
  qed (simp add: r)
qed

subsection \<open>Merging\<close>

interpretation by_start: keyed_order proper start_less iv_lo
  by unfold_locales (simp add: start_less_def proper_ms)

text \<open>Proper and not empty.\<close>

definition solid :: "interval \<Rightarrow> bool" where
  "solid iv \<longleftrightarrow> proper iv \<and> iv_lo iv < iv_hi iv"

lemma solid_proper: "solid iv \<Longrightarrow> proper iv"
  by (simp add: solid_def)

lemma list_all_solid: "list_all solid xs \<Longrightarrow> list_all proper xs"
  by (auto simp: list_all_iff solid_def)

definition gapped :: "interval list \<Rightarrow> bool" where
  "gapped xs \<longleftrightarrow> sorted_wrt (\<lambda>a b. iv_hi a < iv_lo b) xs"

lemma merge_step_solid:
  assumes "list_all solid (found @ [cur])" "gapped (found @ [cur])" "solid x" "iv_lo cur \<le> iv_lo x"
  obtains found' cur' where "merge_step E x (found, Some cur) = Ok (found', Some cur')"
    "list_all solid (found' @ [cur'])" "gapped (found' @ [cur'])" "iv_lo cur' \<le> iv_lo x"
    "cover (found' @ [cur']) = cover (found @ [cur]) \<union> instants x"
proof -
  have p: "proper cur" "proper x" "iv_lo cur < iv_hi cur" "iv_lo x < iv_hi x"
    using assms(1,3) by (auto simp: solid_def)
  show thesis
  proof (cases "iv_lo x \<le> iv_hi cur")
    case True
    obtain u where u: "union E cur x = Ok u" "proper u" "iv_lo u = min (iv_lo cur) (iv_lo x)"
      "iv_hi u = max (iv_hi cur) (iv_hi x)" using union_proper [OF p(1,2)] .
    have lo: "iv_lo u = iv_lo cur" using u(3) assms(4) by simp
    have "overlaps cur x \<or> abutsStart cur x"
      using True p assms(4) by (auto simp: overlaps_lo_hi abutsStart_lo_hi)
    then have "merge_step E x (found, Some cur) = Ok (found, Some u)" by (simp add: merge_step_def u(1))
    moreover have "solid u" using u p lo by (auto simp: solid_def)
    then have "list_all solid (found @ [u])" using assms(1) by simp
    moreover have "gapped (found @ [u])"
      using assms(2) lo by (auto simp: gapped_def sorted_wrt_append)
    moreover have "instants u = instants cur \<union> instants x"
      using True assms(4) lo u(4) p(3) by (auto simp: instants_def)
    then have "cover (found @ [u]) = cover (found @ [cur]) \<union> instants x" by auto
    ultimately show thesis using that lo assms(4) by simp
  next
    case False
    then have "\<not> overlaps cur x \<and> \<not> abutsStart cur x"
      using p by (auto simp: overlaps_lo_hi abutsStart_lo_hi)
    then have "merge_step E x (found, Some cur) = Ok (found @ [cur], Some x)" by (simp add: merge_step_def)
    moreover have "iv_hi y < iv_lo x" if "y \<in> set (found @ [cur])" for y
    proof -
      have "iv_hi y < iv_lo cur \<or> y = cur"
        using that assms(2) by (auto simp: gapped_def sorted_wrt_append)
      with False p(3) show ?thesis by auto
    qed
    then have "gapped ((found @ [cur]) @ [x])"
      using assms(2) unfolding gapped_def sorted_wrt_append [of _ "found @ [cur]"] by simp
    ultimately show thesis using that assms(1,3) by simp
  qed
qed

lemma merge_fold_solid:
  assumes "list_all solid (found @ [cur])" "gapped (found @ [cur])" "list_all solid xs"
    "sorted (map iv_lo (cur # xs))"
  shows "\<exists>found' cur'. foldM (merge_step E) xs (found, Some cur) = Ok (found', Some cur') \<and>
    list_all solid (found' @ [cur']) \<and> gapped (found' @ [cur']) \<and>
    cover (found' @ [cur']) = cover (found @ [cur]) \<union> cover xs"
  using assms
proof (induction xs arbitrary: found cur)
  case (Cons x xs)
  have x: "solid x" "iv_lo cur \<le> iv_lo x" using Cons.prems(3,4) by simp_all
  obtain f c where s: "merge_step E x (found, Some cur) = Ok (f, Some c)" "list_all solid (f @ [c])"
    "gapped (f @ [c])" "iv_lo c \<le> iv_lo x" "cover (f @ [c]) = cover (found @ [cur]) \<union> instants x"
    using merge_step_solid [OF Cons.prems(1,2) x] .
  have "sorted (map iv_lo (c # xs))" using Cons.prems(4) s(4) by auto
  from Cons.IH [OF s(2,3) _ this] Cons.prems(3) s(1,5) show ?case by (auto simp: Un_assoc)
qed simp

lemma merge_solid:
  assumes "list_all solid xs"
  shows "\<exists>ys. merge E xs = Ok ys \<and> list_all solid ys \<and> gapped ys \<and> cover ys = cover xs"
proof -
  have p: "list_all proper xs" using assms by (rule list_all_solid)
  define zs where "zs = js_sort start_less xs"
  have z: "list_all solid zs" "sorted (map iv_lo zs)"
    using assms by_start.set_js_sort [OF p] by_start.js_sort_sorted [OF p]
    by (simp_all add: zs_def list_all_iff)
  have cz: "cover zs = cover xs"
    unfolding zs_def by (rule cover_set) (rule by_start.set_js_sort [OF p])
  show ?thesis
  proof (cases zs)
    case Nil
    then show ?thesis using cz by (simp add: merge_def zs_def [symmetric] gapped_def)
  next
    case (Cons x r)
    have "\<exists>f c. foldM (merge_step E) r ([], Some x) = Ok (f, Some c) \<and>
      list_all solid (f @ [c]) \<and> gapped (f @ [c]) \<and> cover (f @ [c]) = cover ([] @ [x]) \<union> cover r"
      using z Cons by (intro merge_fold_solid) (simp_all add: gapped_def)
    then obtain f c where fc: "foldM (merge_step E) r ([], Some x) = Ok (f, Some c)"
      "list_all solid (f @ [c])" "gapped (f @ [c])" "cover (f @ [c]) = cover zs"
      by (auto simp: Cons)
    have "merge E xs = Ok (f @ [c])"
      using fc(1) by (simp add: merge_def zs_def [symmetric] Cons merge_step_def)
    with fc cz show ?thesis by auto
  qed
qed

subsection \<open>The sweep of the exclusive or\<close>

text \<open>A mark with its end point, and how many intervals are open after the marks up to a time.\<close>

definition mark_ok :: "mark \<Rightarrow> bool" where
  "mark_ok m \<longleftrightarrow> (case fst m of Some d \<Rightarrow> good d | None \<Rightarrow> False)"

definition mark_at :: "mark \<Rightarrow> rat" where
  "mark_at m = the (ms_of (fst m))"

definition sign_of :: "mark \<Rightarrow> int" where
  "sign_of m = (if snd m then 1 else - 1)"

definition depth :: "mark list \<Rightarrow> rat \<Rightarrow> int" where
  "depth ms t = (\<Sum>m\<leftarrow>ms. if mark_at m \<le> t then sign_of m else 0)"

lemma mark_okE:
  assumes "mark_ok m"
  obtains d where "fst m = Some d" "good d" "mark_at m = stamp d"
  using assms by (cases "fst m") (auto simp: mark_ok_def mark_at_def ms_of_def)

lemma mark_ms: "mark_ok m \<Longrightarrow> ms_of (fst m) = Some (mark_at m)"
  by (auto elim!: mark_okE simp: ms_of_def)

interpretation by_time: keyed_order mark_ok "\<lambda>a b. nless (ms_of (fst a)) (ms_of (fst b))" mark_at
  by unfold_locales (simp add: mark_ms)

lemma depth_append: "depth (xs @ ys) t = depth xs t + depth ys t"
  by (simp add: depth_def)

lemma depth_after: "(\<And>m. m \<in> set ms \<Longrightarrow> mark_at m \<le> t) \<Longrightarrow> depth ms t = sum_list (map sign_of ms)"
  by (induction ms) (auto simp: depth_def)

text \<open>The invariant of the loop after the marks \<open>p\<close>, the last of them at \<open>T\<close>.\<close>

definition swept :: "mark list \<Rightarrow> rat \<Rightarrow> sweep \<Rightarrow> bool" where
  "swept p T w \<longleftrightarrow> (\<forall>m\<in>set p. mark_at m \<le> T) \<and> sw_count w = sum_list (map sign_of p) \<and>
     (case sw_start w of None \<Rightarrow> sw_count w \<noteq> 1 | Some d \<Rightarrow> sw_count w = 1 \<and> good d \<and> stamp d = T) \<and>
     list_all solid (sw_results w) \<and> cover (sw_results w) = {t. t < T \<and> depth p t = 1}"

lemma swept_extend:
  assumes "swept p T w" "T \<le> mark_at m"
  shows "{t. t < mark_at m \<and> depth (p @ [m]) t = 1}
    = cover (sw_results w) \<union> (if sw_count w = 1 then {t. T \<le> t \<and> t < mark_at m} else {})"
proof -
  have "depth (p @ [m]) t = depth p t" if "t < mark_at m" for t
    using that by (simp add: depth_append) (simp add: depth_def)
  moreover have "depth p t = sw_count w" if "T \<le> t" for t
    using that assms(1) by (subst depth_after) (auto simp: swept_def)
  ultimately show ?thesis using assms by (auto simp: swept_def not_less)
qed

lemma xor_step_swept:
  assumes "swept p T w" "mark_ok m" "T \<le> mark_at m"
  shows "\<exists>w'. xor_step E m w = Ok w' \<and> swept (p @ [m]) (mark_at m) w'"
proof -
  obtain d where d: "fst m = Some d" "good d" "mark_at m = stamp d" using assms(2) by (rule mark_okE)
  have c: "sw_count w + (if snd m then 1 else - 1) = sum_list (map sign_of (p @ [m]))"
    using assms(1) by (simp add: swept_def sign_of_def)
  have le: "\<forall>x\<in>set (p @ [m]). mark_at x \<le> mark_at m" using assms(1,3) by (auto simp: swept_def)
  have s: "list_all solid (sw_results w)" using assms(1) by (simp add: swept_def)
  note ext = swept_extend [OF assms(1,3)]
  let ?c = "sw_count w + (if snd m then 1 else - 1)"
  show ?thesis
  proof (cases "?c = 1")
    case True
    then have "sw_count w \<noteq> 1" by (auto split: if_splits)
    with ext have "cover (sw_results w) = {t. t < mark_at m \<and> depth (p @ [m]) t = 1}" by simp
    with True c le s d show ?thesis by (simp add: xor_step_def swept_def)
  next
    case False
    show ?thesis
    proof (cases "sw_start w")
      case None
      then have "sw_count w \<noteq> 1" using assms(1) by (simp add: swept_def)
      with ext have "cover (sw_results w) = {t. t < mark_at m \<and> depth (p @ [m]) t = 1}" by simp
      with False c le s None show ?thesis by (simp add: xor_step_def swept_def)
    next
      case (Some b)
      then have b: "sw_count w = 1" "good b" "stamp b = T" using assms(1) by (simp_all add: swept_def)
      show ?thesis
      proof (cases "T = mark_at m")
        case True
        have "{t. T \<le> t \<and> t < mark_at m} = {}" unfolding True by auto
        with ext have "cover (sw_results w) = {t. t < mark_at m \<and> depth (p @ [m]) t = 1}"
          by (simp del: Collect_empty_eq)
        with False c le s Some True b d show ?thesis by (simp add: xor_step_def swept_def ms_of_def)
      next
        case neq: False
        with assms(3) b d have "stamp b < stamp d" by simp
        moreover from this have "instants (between b d) = {t. T \<le> t \<and> t < mark_at m}"
          using b d by (simp add: instants_def)
        then have "cover (sw_results w @ [between b d]) = {t. t < mark_at m \<and> depth (p @ [m]) t = 1}"
          using ext b by simp
        ultimately show ?thesis using False c le s Some b d
          by (simp add: xor_step_def swept_def ms_of_def solid_def)
      qed
    qed
  qed
qed

lemma xor_fold_swept:
  assumes "swept p T w" "list_all mark_ok ms" "sorted (map mark_at ms)" "\<And>m. m \<in> set ms \<Longrightarrow> T \<le> mark_at m"
  shows "\<exists>w' T'. foldM (xor_step E) ms w = Ok w' \<and> swept (p @ ms) T' w'"
  using assms
proof (induction ms arbitrary: p T w)
  case (Cons m ms)
  obtain v where v: "xor_step E m w = Ok v" "swept (p @ [m]) (mark_at m) v"
    using xor_step_swept [OF Cons.prems(1), of m E] Cons.prems(2,4) by auto
  have "\<exists>w' T'. foldM (xor_step E) ms v = Ok w' \<and> swept ((p @ [m]) @ ms) T' w'"
    using Cons.prems(2,3) by (intro Cons.IH [OF v(2)]) auto
  with v(1) show ?case by simp
qed auto

subsection \<open>Exclusive or and difference\<close>

definition depth_of :: "interval list \<Rightarrow> rat \<Rightarrow> nat" where
  "depth_of xs t = length (filter (\<lambda>x. t \<in> instants x) xs)"

definition raw_marks :: "interval list \<Rightarrow> mark list" where
  "raw_marks xs = concat (map (\<lambda>i. [(iv_s i, True), (iv_e i, False)]) xs)"

lemma marks_of_proper:
  assumes "proper i"
  shows "mark_ok (iv_s i, b)" "mark_ok (iv_e i, b)" "mark_at (iv_s i, b) = iv_lo i" "mark_at (iv_e i, b) = iv_hi i"
  using assms by (auto elim!: properE simp: mark_ok_def mark_at_def ms_of_def)

lemma raw_marks_ok: "list_all proper xs \<Longrightarrow> list_all mark_ok (raw_marks xs)"
  by (induction xs) (auto simp: raw_marks_def marks_of_proper)

lemma raw_marks_sum: "sum_list (map sign_of (raw_marks xs)) = 0"
  by (induction xs) (simp_all add: raw_marks_def sign_of_def)

lemma depth_raw_marks: "list_all proper xs \<Longrightarrow> depth (raw_marks xs) t = int (depth_of xs t)"
proof (induction xs)
  case (Cons x xs)
  then have "proper x" by simp
  from proper_ms(3) [OF this] marks_of_proper [OF this] Cons show ?case
    by (auto simp: depth_def raw_marks_def depth_of_def sign_of_def instants_def)
qed (simp add: depth_def raw_marks_def depth_of_def)

lemma xor_solid:
  assumes "list_all proper xs"
  shows "\<exists>ys. xor E xs = Ok ys \<and> list_all solid ys \<and> gapped ys \<and> cover ys = {t. depth_of xs t = 1}"
proof -
  let ?w = "\<lparr>sw_start = None, sw_count = 0, sw_results = []\<rparr>"
  have ok: "list_all mark_ok (raw_marks xs)" using assms by (rule raw_marks_ok)
  have m: "marks xs = js_sort (\<lambda>a b. nless (ms_of (fst a)) (ms_of (fst b))) (raw_marks xs)"
    by (simp add: marks_def raw_marks_def)
  have mok: "list_all mark_ok (marks xs)" "sorted (map mark_at (marks xs))"
    using ok by_time.set_js_sort [OF ok] by_time.js_sort_sorted [OF ok] by (simp_all add: m list_all_iff)
  have total: "sum_list (map sign_of (marks xs)) = 0"
    unfolding m by_time.sum_js_sort [OF ok] by (rule raw_marks_sum)
  have D: "depth (marks xs) t = int (depth_of xs t)" for t
    unfolding depth_def m by_time.sum_js_sort [OF ok] using depth_raw_marks [OF assms, of t]
    by (simp add: depth_def)
  define T0 where "T0 = (case marks xs of [] \<Rightarrow> 0 | m # _ \<Rightarrow> mark_at m)"
  have "swept [] T0 ?w" by (simp add: swept_def depth_def)
  moreover have "T0 \<le> mark_at m" if "m \<in> set (marks xs)" for m
    using that mok(2) by (auto simp: T0_def split: list.splits)
  ultimately obtain w T where w: "foldM (xor_step E) (marks xs) ?w = Ok w" "swept (marks xs) T w"
    using xor_fold_swept [OF _ mok, of "[]" T0 ?w E] by auto
  have "depth (marks xs) t = 0" if "T \<le> t" for t
    using that w(2) total by (subst depth_after) (auto simp: swept_def)
  then have "{t. t < T \<and> depth (marks xs) t = 1} = {t. depth_of xs t = 1}"
    unfolding D by (auto simp: not_le [symmetric])
  then have c: "list_all solid (sw_results w)" "cover (sw_results w) = {t. depth_of xs t = 1}"
    using w(2) by (simp_all add: swept_def)
  from merge_solid [OF c(1), of E] c(2) w(1) show ?thesis by (auto simp: xor_def)
qed

lemma filterM_filter: "(\<And>x. x \<in> set xs \<Longrightarrow> p x = Ok (q x)) \<Longrightarrow> filterM p xs = Ok (filter q xs)"
  by (induction xs) auto

text \<open>The parts of an interval that are left when it is cut with intervals with gaps.\<close>

definition kept :: "'a option list \<Rightarrow> 'a list" where
  "kept cs = map the (filter (\<lambda>c. c \<noteq> None) cs)"

lemma kept_simps [simp]: "kept [] = []" "kept (None # cs) = kept cs" "kept (Some c # cs) = c # kept cs"
  by (simp_all add: kept_def)

lemma set_kept: "c \<in> set (kept cs) \<longleftrightarrow> Some c \<in> set cs"
  by (induction cs) (auto simp: kept_def)

lemma cut_solid:
  assumes "proper iv" "list_all solid ps" "gapped ps"
  shows "\<exists>cs. mapM (intersection E iv) ps = Ok cs \<and> list_all solid (kept cs) \<and>
    cover (kept cs) = instants iv \<inter> cover ps \<and> gapped (kept cs) \<and>
    (\<forall>c\<in>set (kept cs). \<exists>p\<in>set ps. iv_lo p \<le> iv_lo c)"
  using assms(2,3)
proof (induction ps)
  case Nil
  show ?case by (simp add: gapped_def)
next
  case (Cons p ps)
  have "list_all solid ps" "gapped ps" using Cons.prems by (simp_all add: gapped_def)
  from Cons.IH [OF this] obtain cs where cs: "mapM (intersection E iv) ps = Ok cs" "list_all solid (kept cs)"
    "cover (kept cs) = instants iv \<inter> cover ps" "gapped (kept cs)"
    "\<forall>c\<in>set (kept cs). \<exists>p\<in>set ps. iv_lo p \<le> iv_lo c" by blast
  have pp: "proper p" using Cons.prems(1) by (simp add: solid_def)
  note i = intersection_proper [OF assms(1) pp, of E]
  show ?case
  proof (cases "instants iv \<inter> instants p = {}")
    case True
    with i have "mapM (intersection E iv) (p # ps) = Ok (None # cs)" using cs(1) by simp
    moreover have "cover (kept (None # cs)) = instants iv \<inter> cover (p # ps)"
      using cs(3) True by (simp add: Int_Un_distrib)
    ultimately show ?thesis using cs(2,4,5) by (intro exI [of _ "None # cs"]) auto
  next
    case False
    with i obtain c where c: "intersection E iv p = Ok (Some c)" "proper c"
      "instants c = instants iv \<inter> instants p" "iv_lo c = max (iv_lo iv) (iv_lo p)"
      "iv_hi c = min (iv_hi iv) (iv_hi p)" by auto
    have sc: "solid c" using c(2,3) False instants_empty [of c] by (simp add: solid_def)
    have "iv_hi c < iv_lo d" if "d \<in> set (kept cs)" for d
    proof -
      from cs(5) that obtain q where q: "q \<in> set ps" "iv_lo q \<le> iv_lo d" by blast
      then have "iv_hi p < iv_lo q" using Cons.prems(2) by (simp add: gapped_def)
      with c(5) q(2) show ?thesis by simp
    qed
    then have "gapped (kept (Some c # cs))" using cs(4) by (simp add: gapped_def)
    moreover have "mapM (intersection E iv) (p # ps) = Ok (Some c # cs)" using c(1) cs(1) by simp
    moreover have "\<forall>d\<in>set (kept (Some c # cs)). \<exists>q\<in>set (p # ps). iv_lo q \<le> iv_lo d"
      using cs(5) c(4) by auto
    moreover have "cover (kept (Some c # cs)) = instants iv \<inter> cover (p # ps)"
      using cs(3) c(3) by (simp add: Int_Un_distrib)
    ultimately show ?thesis using cs(2) sc by (intro exI [of _ "Some c # cs"]) simp
  qed
qed

lemma difference_solid:
  assumes "proper iv" "list_all proper others"
  shows "\<exists>ys. difference E iv others = Ok ys \<and> list_all solid ys \<and> gapped ys
    \<and> cover ys = instants iv - cover others"
proof -
  have "list_all proper (iv # others)" using assms by simp
  from xor_solid [OF this, of E] obtain ps where ps: "xor E (iv # others) = Ok ps" "list_all solid ps"
    "gapped ps" "cover ps = {t. depth_of (iv # others) t = 1}" by blast
  from cut_solid [OF assms(1) ps(2,3), of E] obtain cs where cs: "mapM (intersection E iv) ps = Ok cs"
    "list_all solid (kept cs)" "cover (kept cs) = instants iv \<inter> cover ps" "gapped (kept cs)" by blast
  have "filterM (\<lambda>i. case i of None \<Rightarrow> Ok False | Some p \<Rightarrow> rmap Not (isEmpty p)) cs
      = Ok (filter (\<lambda>c. c \<noteq> None) cs)"
  proof (rule filterM_filter)
    fix c
    assume c: "c \<in> set cs"
    show "(case c of None \<Rightarrow> Ok False | Some p \<Rightarrow> rmap Not (isEmpty p)) = Ok (c \<noteq> None)"
    proof (cases c)
      case (Some d)
      with c cs(2) have "solid d" by (simp add: list_all_iff set_kept)
      then show ?thesis by (simp add: Some isEmpty_lo_hi solid_def)
    qed simp
  qed
  then have "difference E iv others = Ok (kept cs)"
    using ps(1) cs(1) by (simp add: difference_def kept_def)
  moreover have "depth_of (iv # others) t = 1 \<longleftrightarrow> t \<notin> cover others" if "t \<in> instants iv" for t
    using that by (auto simp: depth_of_def filter_empty_conv cover_def)
  then have "instants iv \<inter> cover ps = instants iv - cover others" unfolding ps(4) by auto
  ultimately show ?thesis using cs by auto
qed

end
