(* ===== verification/SpanLaws.thy ===== *)
theory SpanLaws
  imports IntervalLaws ISOLaws
begin

text \<open>
  The lengths of intervals and their division: the difference of two points in time in hours and
  smaller units is exact, adding it to the earlier point gives the later one, and \<open>splitAt\<close>,
  \<open>splitBy\<close> and \<open>divideEqually\<close> cut an interval into adjacent parts.
\<close>

subsection \<open>Durations of clock units\<close>

definition clock_units :: "dunit set" where
  "clock_units = {Hours, Minutes, Seconds, Milliseconds}"

lemma clock_only_dval:
  assumes "keys v \<subseteq> clock_units"
  shows "dval v Years = 0" "dval v Quarters = 0" "dval v Months = 0" "dval v Weeks = 0" "dval v Days = 0"
  using assms by (auto simp: clock_units_def intro!: dval_absent)

lemma values_ms_clock:
  assumes "keys v \<subseteq> clock_units"
  shows "values_ms (d_matrix d) v = clock_ms v"
  by (simp add: values_ms_def tot_def dunit_orderedUnits_def clock_only_dval [OF assms] clock_ms_def
      unit_ms_def d_matrix_def casualMatrix_def accurateMatrix_def lowOrderMatrix_def)

lemma fits_clock: "us \<subseteq> clock_units \<Longrightarrow> fits (d_matrix d) us"
  by (rule fits_subset [of _ clock_units])
    (simp_all add: fits_def clock_units_def d_matrix_def casualMatrix_def accurateMatrix_def
      lowOrderMatrix_def unit_ms_def)

lemma adjust_cal_clock:
  assumes "keys v \<subseteq> clock_units" "valid_cal c"
  shows "adjust_cal c v = obj_of_cal c"
  using valid_calD(4) [OF assms(2)]
  by (auto simp: adjust_cal_def obj_of_cal_def js_trunc_def clock_only_dval [OF assms(1)])

context sane_zone
begin

lemma plus_clock:
  assumes "valid_cal c" "modern (c_year c)" "Duration_isValid dur" "keys (d_values dur) \<subseteq> clock_units"
    "clock_ms (d_values dur) = of_int k" "in_range off (cal_ms c + k)"
    and L: "Locale_fromObject E no_locale_opts = Ok l0"
  shows "plus E (dt_at z off l c) (DDuration dur) = Ok (dt_at z off l (cal_of_ms (cal_ms c + k)))"
proof -
  have "in_range off (cal_ms c)" using assms(1,2) small by (rule modern_in_range)
  moreover from this have "objToLocalTS (adjust_cal c (d_values dur)) = Some (cal_ms c)"
    using assms(1,2,4) by (simp add: adjust_cal_clock objToLocalTS_in_range modern_not_lost)
  ultimately show ?thesis
    using assms clock_only_dval [OF assms(4)]
    by (intro plus_const [OF _ _ _ refl _ _ _ _ _ _ _ _ _ L]) (simp_all add: fromDurationLike_def)
qed

end

subsection \<open>Differences in clock units\<close>

lemma low_units_clock: "set units \<subseteq> clock_units \<Longrightarrow> lowUnits units = units"
  by (auto simp: lowUnits_def clock_units_def filter_id_conv)

lemma highOrderDiffs_clock:
  assumes "set units \<subseteq> clock_units"
  shows "highOrderDiffs E a b units = Ok \<lparr>df_cursor = a, df_results = [], df_highWater = None,
    df_lowestOrder = ''undefined'', df_same = False\<rparr>"
  using assms unfolding highOrderDiffs_def highUnits_def
  by (auto simp: highOrder_step_def clock_units_def)

lemma diff_of_clock:
  assumes "good a" "good b" "units \<noteq> []" "set units \<subseteq> clock_units"
    and L: "Locale_fromObject E opts = Ok l"
  shows "\<exists>d. diff_of E a b units opts longterm = Ok d \<and> Duration_isValid d \<and>
    clock_ms (d_values d) = stamp b - stamp a \<and> keys (d_values d) = set units"
proof -
  let ?e = "\<lparr>d_values = [], d_loc = l, d_longterm = longterm, d_invalid = None\<rparr>"
  let ?m = "\<lparr>d_values = [(Milliseconds, stamp b - stamp a)], d_loc = l, d_longterm = longterm,
    d_invalid = None\<rparr>"
  let ?s = "shiftTo_units ?m units"
  have v: "Duration_isValid ?m" "Duration_isValid ?e" by (simp_all add: Duration_isValid_def)
  have f: "fits (d_matrix ?m) (keys (d_values ?m) \<union> set units)"
    using assms(4) by (intro fits_clock) (auto simp: clock_units_def)
  have k: "keys (d_values ?s) = set units"
    by (rule shiftTo_keys [OF v(1) assms(3)]) (rule fits_clock [OF assms(4)])
  have sv: "Duration_isValid ?s" using v(1) assms(3)
    by (simp add: shiftTo_units_def Duration_normalize_def)
  have m: "d_matrix ?s = d_matrix ?m" using v(1) assms(3)
    by (simp add: shiftTo_units_def Duration_normalize_def)
  have "Duration_fromMillis E (Some (stamp b - stamp a)) opts longterm = Ok ?m"
    by (simp add: Duration_fromMillis_def Duration_fromObject_def L uval_of_num_def
        normalizeObject_one [where normalizer = Duration_normalizeUnit, OF all_unit_names(9)])
  moreover have "Duration_fromObject E [] opts longterm = Ok ?e"
    by (simp add: Duration_fromObject_def normalizeObject_def L)
  moreover have "nsub (Some (stamp b)) (Some (stamp a)) = Some (stamp b - stamp a)" by (simp add: nsub_def)
  ultimately have "diff_of E a b units opts longterm
      = Ok (with_values ?s (plus_values (d_values ?s) []))"
    using assms(1-3) sv v(2)
    by (simp add: diff_of_def highOrderDiffs_clock [OF assms(4)] low_units_clock [OF assms(4)]
        Duration_plus_def fromDurationLike_def plus_duration_def)
  moreover have "clock_ms (plus_values (d_values ?s) []) = clock_ms (d_values ?s)"
    by (simp add: clock_ms_def)
  moreover have "clock_ms (d_values ?s) = d_ms ?s"
    using values_ms_clock [of "d_values ?s" ?s] k assms(4) by (simp add: d_ms_def)
  moreover have "d_ms ?s = d_ms ?m" by (rule d_ms_shiftTo [OF f])
  moreover have "d_ms ?m = stamp b - stamp a"
    using values_ms_clock [of "d_values ?m" ?m] by (simp add: d_ms_def clock_units_def clock_ms_def)
  ultimately show ?thesis using k by (auto simp: keys_plus)
qed

lemma diff_clock:
  assumes "good a" "good b" "names \<noteq> []" "mapM Duration_normalizeUnit names = Ok units"
    "set units \<subseteq> clock_units" "Locale_fromObject E (diff_opts a opts) = Ok l"
  shows "\<exists>d. DateTime_diff E a b names opts longterm = Ok d \<and> Duration_isValid d \<and>
    clock_ms (d_values d) = stamp a - stamp b \<and> keys (d_values d) = set units"
proof -
  have ne: "units \<noteq> []" using assms(3,4) by (auto simp: mapM_eq_Ok list_all2_Nil2)
  have valid: "isValid a" "isValid b" using assms(1,2) by (simp_all add: good_def)
  show ?thesis
  proof (cases "stamp a < stamp b")
    case True
    from diff_of_clock [OF assms(1,2) ne assms(5,6)] obtain d where
      d: "diff_of E a b units (diff_opts a opts) longterm = Ok d" "Duration_isValid d"
        "clock_ms (d_values d) = stamp b - stamp a" "keys (d_values d) = set units" by blast
    have "clock_ms (d_values (negate d)) = - clock_ms (d_values d)"
      using d(2) by (simp add: negate_def clock_ms_def)
    moreover have "DateTime_diff E a b names opts longterm = Ok (negate d)"
      using True d(1) valid assms(1,2,4) by (simp add: DateTime_diff_def)
    ultimately show ?thesis using d by (simp add: negate_def)
  next
    case False
    from diff_of_clock [OF assms(2,1) ne assms(5,6)] False valid assms(1,2,4) show ?thesis
      by (simp add: DateTime_diff_def)
  qed
qed

subsection \<open>Adjacent parts\<close>

text \<open>Proper intervals, each beginning where the one before ends, from \<open>a\<close> to \<open>b\<close>.\<close>

fun tiles :: "rat \<Rightarrow> rat \<Rightarrow> interval list \<Rightarrow> bool" where
  "tiles a b [] \<longleftrightarrow> a = b"
| "tiles a b (p # ps) \<longleftrightarrow> proper p \<and> iv_lo p = a \<and> tiles (iv_hi p) b ps"

lemma tiles_append: "tiles a b (ps @ qs) \<longleftrightarrow> (\<exists>m. tiles a m ps \<and> tiles m b qs)"
  by (induction ps arbitrary: a) auto

lemma tiles_le: "tiles a b ps \<Longrightarrow> a \<le> b"
proof (induction ps arbitrary: a)
  case (Cons p ps)
  then show ?case using proper_ms(3) [of p] by fastforce
qed simp

lemma tiles_cover: "tiles a b ps \<Longrightarrow> cover ps = {t. a \<le> t \<and> t < b}"
proof (induction ps arbitrary: a)
  case (Cons p ps)
  then have p: "proper p" "iv_lo p = a" "tiles (iv_hi p) b ps" by simp_all
  have "a \<le> iv_hi p" "iv_hi p \<le> b" using proper_ms(3) [OF p(1)] p(2) tiles_le [OF p(3)] by simp_all
  then have "{t. a \<le> t \<and> t < b} = {t. a \<le> t \<and> t < iv_hi p} \<union> {t. iv_hi p \<le> t \<and> t < b}"
    by (intro set_eqI) (simp, linarith)
  then show ?case by (simp add: Cons.IH [OF p(3)] instants_def p(2))
qed (simp add: not_less)

lemma tiles_disjoint: "tiles a b ps \<Longrightarrow> sorted_wrt (\<lambda>p q. iv_hi p \<le> iv_lo q) ps"
proof (induction ps arbitrary: a)
  case (Cons p ps)
  then have t: "tiles (iv_hi p) b ps" by simp
  have "iv_hi p \<le> iv_lo q" if q: "q \<in> set ps" for q
  proof -
    obtain xs ys where "ps = xs @ q # ys" using split_list [OF q] by blast
    with t have "tiles (iv_hi p) (iv_lo q) xs" by (auto simp: tiles_append)
    then show ?thesis by (rule tiles_le)
  qed
  with Cons.IH [OF t] show ?case by simp
qed simp

subsection \<open>Splitting at points\<close>

lemma split_from_tiles:
  assumes "good s" "good e" "stamp s \<le> stamp e" "\<forall>d\<in>set ds. good d \<and> stamp d < stamp e"
    "sorted (map stamp (s # ds))"
  shows "\<exists>ps. split_from E e s ds = Ok ps \<and> tiles (stamp s) (stamp e) ps"
  using assms
proof (induction ds arbitrary: s)
  case Nil
  then show ?case by (auto simp: not_less)
next
  case (Cons d ds)
  have d: "good d" "stamp d < stamp e" "stamp s \<le> stamp d" using Cons.prems(4,5) by simp_all
  have "\<exists>ps. split_from E e d ds = Ok ps \<and> tiles (stamp d) (stamp e) ps"
    using Cons.prems d by (intro Cons.IH) auto
  then obtain ps where "split_from E e d ds = Ok ps" "tiles (stamp d) (stamp e) ps" by blast
  then show ?case using Cons.prems(1,2) d by auto
qed

lemma splitAt_tiles:
  assumes "good s" "good e" "stamp s \<le> stamp e" "\<forall>d\<in>set ds. good d"
    "\<And>a b. a \<in> set ds \<Longrightarrow> b \<in> set ds \<Longrightarrow>
       js_string_less (date_text E a) (date_text E b) \<longleftrightarrow> stamp a < stamp b"
  shows "\<exists>ps. splitAt E (between s e) (map DtDateTime ds) = Ok ps \<and> tiles (stamp s) (stamp e) ps"
proof -
  let ?lt = "\<lambda>a b. js_string_less (date_text E a) (date_text E b)"
  define cs where "cs = filter (contains (between s e)) ds"
  have o: "keyed_order (\<lambda>d. d \<in> set ds) ?lt stamp" by (rule keyed_order.intro) (rule assms(5))
  have cs: "list_all (\<lambda>d. d \<in> set ds) cs" by (simp add: cs_def list_all_iff)
  define zs where "zs = js_sort ?lt cs"
  have z: "set zs = set cs" "sorted (map stamp zs)"
    unfolding zs_def by (rule keyed_order.set_js_sort [OF o cs], rule keyed_order.js_sort_sorted [OF o cs])
  have c: "good d \<and> stamp s \<le> stamp d \<and> stamp d < stamp e" if "d \<in> set cs" for d
    using that assms(1-4) contains_instants [of "between s e" d]
    by (auto simp: cs_def instants_def)
  have "mapM (friendlyDateTime E) (map DtDateTime ds) = Ok ds"
    by (induction ds) (simp_all add: friendlyDateTime_def)
  then have "splitAt E (between s e) (map DtDateTime ds) = split_from E e s zs"
    by (simp add: splitAt_def cs_def zs_def)
  moreover have "\<exists>ps. split_from E e s zs = Ok ps \<and> tiles (stamp s) (stamp e) ps"
    using assms(1-3) c z by (intro split_from_tiles) auto
  ultimately show ?thesis by simp
qed

subsection \<open>Splitting by a length\<close>

lemma mapUnits_scale:
  assumes "Duration_isValid d"
  shows "mapUnits (\<lambda>x u. VNum (x * of_int n)) d
    = Ok (with_values d (map (\<lambda>(k, v). (k, v * of_int n)) (d_values d)))"
proof -
  have "mapM (\<lambda>(k, v). rmap (Pair k) (asNumber (VNum (v * of_int n)))) vs
      = Ok (map (\<lambda>(k, v). (k, v * of_int n)) vs)" for vs :: dvals
    by (induction vs) (auto simp: asNumber_def)
  then show ?thesis using assms by (simp add: mapUnits_def)
qed

lemma dval_scale: "dval (map (\<lambda>(k, v). (k, v * c)) vs) u = dval vs u * c"
  by (induction vs) (auto simp: dval_def)

lemma keys_scale: "keys (map (\<lambda>(k, v). (k, v * c)) vs) = keys vs"
  by (induction vs) (auto simp: keys_def)

lemma clock_ms_scale: "clock_ms (map (\<lambda>(k, v). (k, v * c)) vs) = clock_ms vs * c"
  by (simp add: clock_ms_def dval_scale algebra_simps)

text \<open>The point \<open>t\<close> milliseconds of local time after 1 January 1970.\<close>

definition local_point :: "zone \<Rightarrow> int \<Rightarrow> locale_obj \<Rightarrow> int \<Rightarrow> datetime" where
  "local_point z off l t = dt_at z off l (cal_of_ms t)"

lemma local_point_simps [simp]:
  "good (local_point z off l t)" "stamp (local_point z off l t) = of_int (t - off * 60000)"
  "toMillis (local_point z off l t) = Some (of_int (t - off * 60000))" "isValid (local_point z off l t)"
  by (simp_all add: local_point_def good_def stamp_def)

lemma span_local_point:
  "a \<le> b \<Longrightarrow> span E (local_point z off l a) (local_point z off l b)
    = Ok (between (local_point z off l a) (local_point z off l b))"
  by (rule span_between) simp_all

lemma local_point_cal: "valid_cal c \<Longrightarrow> dt_at z off l c = local_point z off l (cal_ms c)"
  by (simp add: local_point_def)

text \<open>The ends of the parts of length \<open>k\<close> from \<open>a\<close> on, the last of them cut at \<open>b\<close>.\<close>

definition cut_point :: "int \<Rightarrow> int \<Rightarrow> int \<Rightarrow> nat \<Rightarrow> int" where
  "cut_point a b k i = min b (a + int i * k)"

definition part :: "zone \<Rightarrow> int \<Rightarrow> locale_obj \<Rightarrow> (nat \<Rightarrow> int) \<Rightarrow> nat \<Rightarrow> interval" where
  "part z off l q i = between (local_point z off l (q i)) (local_point z off l (q (Suc i)))"

context sane_zone
begin

lemma splitBy_step_at:
  assumes "valid_cal c" "modern (c_year c)" "Duration_isValid dur" "keys (d_values dur) \<subseteq> clock_units"
    "clock_ms (d_values dur) = of_int k" "0 < k" "0 \<le> j" "cal_ms c + j * k < b" "in_range off (b + k)"
    and L: "Locale_fromObject E no_locale_opts = Ok l0"
  shows "splitBy_step E (dt_at z off l c) (local_point z off l b) dur (local_point z off l (cal_ms c + j * k), j + 1, rs)
    = Ok (local_point z off l (min b (cal_ms c + (j + 1) * k)), j + 2,
        rs @ [between (local_point z off l (cal_ms c + j * k)) (local_point z off l (min b (cal_ms c + (j + 1) * k)))])"
proof -
  let ?d = "with_values dur (map (\<lambda>(u, v). (u, v * of_int (j + 1))) (d_values dur))"
  define n where "n = cal_ms c + (j + 1) * k"
  have "0 \<le> j * k" using assms(6,7) by simp
  then have n: "cal_ms c < n" "n < b + k" using assms(6,8) by (simp_all add: n_def algebra_simps)
  have r0: "in_range off (cal_ms c)" using assms(1,2) small by (rule modern_in_range)
  have r: "in_range off n"
    using n r0 assms(9) by (auto simp: in_range_def stamp_ok_def abs_le_iff)
  have ms: "clock_ms (d_values ?d) = of_int ((j + 1) * k)"
    unfolding with_values_simps clock_ms_scale assms(5) by simp
  have "plus E (dt_at z off l c) (DDuration ?d) = Ok (local_point z off l n)"
    using plus_clock [OF assms(1,2) _ _ ms r [unfolded n_def] L, of l, folded n_def] assms(4) by (simp add: keys_scale local_point_def)
  moreover have "mapUnits (\<lambda>x u. VNum (x * of_int (j + 1))) dur = Ok ?d"
    by (rule mapUnits_scale [OF assms(3)])
  moreover have "cal_ms c + j * k \<le> b" "cal_ms c + j * k \<le> n"
    using assms(6,8) by (simp_all add: n_def algebra_simps)
  ultimately show ?thesis unfolding n_def [symmetric]
    by (simp add: splitBy_step_def Let_def span_local_point)
qed

lemma splitBy_loop_parts:
  fixes l :: locale_obj and dur :: duration and n :: nat
  assumes c: "valid_cal c" "modern (c_year c)" and d: "Duration_isValid dur"
    "keys (d_values dur) \<subseteq> clock_units" "clock_ms (d_values dur) = of_int k"
    and k: "0 < k" "in_range off (b + k)" and b: "cal_ms c \<le> b" "b \<le> cal_ms c + int n * k"
    "cal_ms c + (int n - 1) * k < b"
    and L: "Locale_fromObject E no_locale_opts = Ok l0"
  defines "q \<equiv> cut_point (cal_ms c) b k"
  shows "splitBy_loop E (dt_at z off l c) (local_point z off l b) dur = Ok (map (part z off l q) [0..<n])"
proof -
  define P where "P = local_point z off l"
  define B where "B = (\<lambda>r :: (datetime \<times> int \<times> interval list) res.
    case r of Ok (s, _) \<Rightarrow> nless (toMillis s) (toMillis (P b)) | _ \<Rightarrow> False)"
  define S where "S = (\<lambda>r. rbind r (splitBy_step E (dt_at z off l c) (P b) dur))"
  have start: "dt_at z off l c = P (q 0)" using b(1) c(1)
    by (simp add: P_def q_def cut_point_def local_point_cal)
  have B: "B (Ok (P t, j, rs)) \<longleftrightarrow> t < b" for t j rs
    by (simp add: B_def P_def)
  have last: "q n = b" using b(2) by (simp add: q_def cut_point_def)
  have less: "q j < b \<and> q j = cal_ms c + int j * k" if "j < n" for j
  proof -
    have "int j * k \<le> (int n - 1) * k" using that k(1) by (intro mult_right_mono) auto
    then show ?thesis using b(3) by (simp add: q_def cut_point_def)
  qed
  have step: "S (Ok (P (q j), int j + 1, rs)) = Ok (P (q (Suc j)), int (Suc j) + 1, rs @ [part z off l q j])"
    if "j < n" for j rs
  proof -
    have "cal_ms c + int j * k < b" using less [OF that] by simp
    from splitBy_step_at [OF c d k(1) _ this k(2) L, of l rs] less [OF that] show ?thesis
      by (simp add: S_def P_def part_def q_def cut_point_def add.commute)
  qed
  have "while_option B S (Ok (P (q j), int j + 1, rs))
      = Some (Ok (P b, int n + 1, rs @ map (part z off l q) [j..<n]))" if "j \<le> n" for j rs
    using that
  proof (induction "n - j" arbitrary: j rs)
    case 0
    then show ?case using last by (simp add: while_option_unfold B)
  next
    case (Suc m)
    then have j: "j < n" by simp
    have "while_option B S (Ok (P (q (Suc j)), int (Suc j) + 1, rs @ [part z off l q j]))
        = Some (Ok (P b, int n + 1, (rs @ [part z off l q j]) @ map (part z off l q) [Suc j..<n]))"
      using Suc j by (intro Suc.hyps(1)) auto
    then show ?case using less [OF j] step [OF j, of rs] upt_conv_Cons [OF j]
      by (subst while_option_unfold) (simp add: B)
  qed
  from this [of 0 "[]"] have "while_option B S (Ok (dt_at z off l c, 1, []))
      = Some (Ok (P b, int n + 1, map (part z off l q) [0..<n]))"
    unfolding start by simp
  then show ?thesis unfolding splitBy_loop_def B_def S_def P_def by simp
qed

lemma splitBy_parts:
  fixes l :: locale_obj and n :: nat
  assumes dl: "fromDurationLike E dl = Ok dur"
    and c: "valid_cal c" "modern (c_year c)" and d: "Duration_isValid dur"
    "keys (d_values dur) \<subseteq> clock_units" "clock_ms (d_values dur) = of_int k"
    and k: "0 < k" "in_range off (b + k)" and b: "cal_ms c \<le> b" "b \<le> cal_ms c + int n * k"
    "cal_ms c + (int n - 1) * k < b"
    and L: "Locale_fromObject E no_locale_opts = Ok l0"
  shows "splitBy E (between (dt_at z off l c) (local_point z off l b)) dl
    = Ok (map (part z off l (cut_point (cal_ms c) b k)) [0..<n])"
proof -
  have "Duration_as dur ''milliseconds'' = Ok (Some (of_int k))"
    using Duration_toMillis_ms [OF d(1)] values_ms_clock [OF d(2), of dur] d(3)
    by (simp add: Duration_toMillis_def d_ms_def)
  then show ?thesis
    using splitBy_loop_parts [OF c d k b L, of l] d(1) k(1) by (simp add: splitBy_def dl)
qed

end

lemma parts_tiles:
  assumes "mono q"
  shows "tiles (of_int (q 0 - off * 60000)) (of_int (q n - off * 60000)) (map (part z off l q) [0..<n])"
proof (induction n)
  case (Suc n)
  have "q n \<le> q (Suc n)" by (rule incseq_SucD [OF assms])
  then have "tiles (of_int (q n - off * 60000)) (of_int (q (Suc n) - off * 60000)) [part z off l q n]"
    by (simp add: part_def)
  with Suc have "tiles (of_int (q 0 - off * 60000)) (of_int (q (Suc n) - off * 60000))
      (map (part z off l q) [0..<n] @ [part z off l q n])"
    unfolding tiles_append by blast
  then show ?case by simp
qed simp

lemma cut_point_mono: "0 \<le> k \<Longrightarrow> mono (cut_point a b k)"
proof (rule monoI)
  fix x y :: nat
  assume "0 \<le> k" "x \<le> y"
  then have "int x * k \<le> int y * k" by (intro mult_right_mono) auto
  then show "cut_point a b k x \<le> cut_point a b k y" by (simp add: cut_point_def min_def)
qed

lemma cut_point_ends:
  "a \<le> b \<Longrightarrow> cut_point a b k 0 = a" "b \<le> a + int n * k \<Longrightarrow> cut_point a b k n = b"
  by (simp_all add: cut_point_def)

subsection \<open>Lengths and equal parts\<close>

lemma toDuration_between:
  "toDuration E (between s e) unit opts longterm = DateTime_diff E e s unit opts longterm"
  by (simp add: toDuration_def)

lemma length_ms:
  assumes "good s" "good e" "Locale_fromObject E (diff_opts e no_locale_opts) = Ok l"
  shows "Interval_length E (between s e) ''milliseconds'' = Ok (Some (stamp e - stamp s))"
proof -
  have u: "mapM Duration_normalizeUnit [''milliseconds''] = Ok [Milliseconds]" by (simp add: all_unit_names)
  have "set [Milliseconds] \<subseteq> clock_units" by (simp add: clock_units_def)
  from diff_clock [OF assms(2,1) _ u this assms(3), of False] obtain d where
    d: "DateTime_diff E e s [''milliseconds''] no_locale_opts False = Ok d" "Duration_isValid d"
      "clock_ms (d_values d) = stamp e - stamp s" "keys (d_values d) = {Milliseconds}" by auto
  have "clock_ms (d_values d) = dval (d_values d) Milliseconds"
    using d(4) by (simp add: clock_ms_def dval_absent)
  with d show ?thesis
    by (simp add: Interval_length_def toDuration_between Duration_get_def all_unit_names dget_def)
qed

context sane_zone
begin

lemma divideEqually_parts:
  fixes l :: locale_obj and n :: nat
  assumes c: "valid_cal c" "modern (c_year c)" and k: "0 < k" "0 < n" "in_range off (cal_ms c + (int n + 1) * k)"
    and L: "Locale_fromObject E no_locale_opts = Ok l0"
    and D: "Locale_fromObject E (diff_opts (local_point z off l (cal_ms c + int n * k)) no_locale_opts) = Ok l1"
  shows "divideEqually E (between (dt_at z off l c) (local_point z off l (cal_ms c + int n * k))) (int n)
    = Ok (map (part z off l (cut_point (cal_ms c) (cal_ms c + int n * k) k)) [0..<n])"
proof -
  let ?b = "cal_ms c + int n * k" and ?dur = "\<lparr>d_values = [(Milliseconds, of_int k)], d_loc = l0,
    d_longterm = False, d_invalid = None\<rparr>"
  have start: "dt_at z off l c = local_point z off l (cal_ms c)" using c(1) by (rule local_point_cal)
  have good: "good (dt_at z off l c)" unfolding start by simp
  have "Interval_length E (between (dt_at z off l c) (local_point z off l ?b)) ''milliseconds''
      = Ok (Some (of_int (int n * k)))"
    using length_ms [OF good _ D] by (simp add: start)
  moreover have "ndiv (Some (of_int (int n * k))) (Some (of_int (int n))) = Some (of_int k)"
    using k(2) by (simp add: ndiv_def)
  moreover have "splitBy E (between (dt_at z off l c) (local_point z off l ?b)) (DNumber (Some (of_int k)))
      = Ok (map (part z off l (cut_point (cal_ms c) ?b k)) [0..<n])"
    using k by (intro splitBy_parts [OF Duration_of_number [OF L] c _ _ _ _ _ _ _ _ L])
      (simp_all add: Duration_isValid_def clock_units_def clock_ms_def algebra_simps)
  ultimately show ?thesis by (simp add: divideEqually_def slice_to_def)
qed

end

subsection \<open>The order of the texts\<close>

lemma js_string_less_irrefl [simp]: "\<not> js_string_less s s"
  by (induction s) auto

lemma js_string_less_same [simp]: "js_string_less (w @ x) (w @ y) \<longleftrightarrow> js_string_less x y"
  by (induction w) auto

lemma js_string_less_append:
  "length s = length t \<Longrightarrow>
   js_string_less (s @ x) (t @ y) \<longleftrightarrow> js_string_less s t \<or> s = t \<and> js_string_less x y"
  by (induction s t rule: list_induct2) auto

lemma digit_val_less:
  assumes "is_digit c" "is_digit d"
  shows "digit_val c < digit_val d \<longleftrightarrow> code c < code d" "digit_val c = digit_val d \<longleftrightarrow> c = d"
proof -
  have "48 \<le> code c" "48 \<le> code d" using assms by (auto simp: is_digit_def)
  then have "digit_val c = digit_val d \<longleftrightarrow> code c = code d" "digit_val c < digit_val d \<longleftrightarrow> code c < code d"
    unfolding digit_val_def by linarith+
  then show "digit_val c < digit_val d \<longleftrightarrow> code c < code d" "digit_val c = digit_val d \<longleftrightarrow> c = d" by simp_all
qed

lemma digits_val_split: "digits_val a s = a * 10 ^ length s + digits_val 0 s"
proof (induction s arbitrary: a)
  case (Cons c s)
  show ?case using Cons.IH [of "10 * a + digit_val c"] Cons.IH [of "digit_val c"]
    by (simp add: algebra_simps)
qed simp

lemma digits_val_bound: "\<forall>c\<in>set s. is_digit c \<Longrightarrow> digits_val 0 s < 10 ^ length s"
proof (induction s)
  case (Cons c s)
  have "code c \<le> 57" using Cons.prems by (simp add: is_digit_def)
  then have "digit_val c \<le> 9" unfolding digit_val_def by linarith
  then have "digit_val c * 10 ^ length s \<le> 9 * 10 ^ length s" by (rule mult_right_mono) simp
  moreover have "digits_val 0 s < 10 ^ length s" using Cons by simp
  ultimately have "digit_val c * 10 ^ length s + digits_val 0 s < 10 * 10 ^ length s" by linarith
  then show ?case using digits_val_split [of "digit_val c" s] by simp
qed simp

lemma digits_val_order:
  assumes "length s = length t" "\<forall>c\<in>set s. is_digit c" "\<forall>c\<in>set t. is_digit c"
  shows "(js_string_less s t \<longleftrightarrow> digits_val 0 s < digits_val 0 t) \<and> (s = t \<longleftrightarrow> digits_val 0 s = digits_val 0 t)"
  using assms
proof (induction s t rule: list_induct2)
  case (Cons c s d t)
  let ?p = "10 ^ length s :: nat"
  have v: "digits_val 0 (c # s) = digit_val c * ?p + digits_val 0 s"
    "digits_val 0 (d # t) = digit_val d * ?p + digits_val 0 t"
    using digits_val_split [of "digit_val c" s] digits_val_split [of "digit_val d" t] Cons.hyps by simp_all
  have b: "digits_val 0 s < ?p" "digits_val 0 t < ?p"
    using digits_val_bound [of s] digits_val_bound [of t] Cons.prems Cons.hyps by auto
  have less: "digits_val 0 (c # s) < digits_val 0 (d # t)" if "digit_val c < digit_val d"
  proof -
    have "(digit_val c + 1) * ?p \<le> digit_val d * ?p" using that by (intro mult_right_mono) auto
    then show ?thesis using b v by (simp add: algebra_simps)
  qed
  have gt: "digits_val 0 (d # t) < digits_val 0 (c # s)" if "digit_val d < digit_val c"
  proof -
    have "(digit_val d + 1) * ?p \<le> digit_val c * ?p" using that by (intro mult_right_mono) auto
    then show ?thesis using b v by (simp add: algebra_simps)
  qed
  have dg: "is_digit c" "is_digit d" using Cons.prems by auto
  note dv = digit_val_less [OF dg]
  consider "digit_val c < digit_val d" | "digit_val d < digit_val c" | "digit_val c = digit_val d" by linarith
  then show ?case
  proof cases
    case 1
    with less dv show ?thesis by auto
  next
    case 2
    with gt dv show ?thesis by auto
  next
    case 3
    then show ?thesis using Cons.IH Cons.prems dv v by auto
  qed
qed simp

lemma field_less:
  assumes "0 \<le> n" "n < 10 ^ k" "0 \<le> n'" "n' < 10 ^ k" "0 < k"
  shows "js_string_less (padStart n k @ x) (padStart n' k @ y) \<longleftrightarrow> n < n' \<or> n = n' \<and> js_string_less x y"
proof -
  have r: "length (padStart n k) = length (padStart n' k)" "\<forall>c\<in>set (padStart n k). is_digit c"
    "\<forall>c\<in>set (padStart n' k). is_digit c" "int (digits_val 0 (padStart n k)) = n"
    "int (digits_val 0 (padStart n' k)) = n'"
    using run_padStart [OF assms(1,2,5)] run_padStart [OF assms(3,4,5)] by (simp_all add: run_def)
  from digits_val_order [OF r(1-3)] r(4,5)
  have "js_string_less (padStart n k) (padStart n' k) \<longleftrightarrow> n < n'" "padStart n k = padStart n' k \<longleftrightarrow> n = n'"
    by linarith+
  then show ?thesis by (simp add: js_string_less_append [OF r(1)])
qed

definition cal_less :: "cal \<Rightarrow> cal \<Rightarrow> bool" where
  "cal_less a b \<longleftrightarrow> c_year a < c_year b \<or> c_year a = c_year b \<and> (c_month a < c_month b \<or>
     c_month a = c_month b \<and> (c_day a < c_day b \<or> c_day a = c_day b \<and> (c_hour a < c_hour b \<or>
     c_hour a = c_hour b \<and> (c_minute a < c_minute b \<or> c_minute a = c_minute b \<and>
     (c_second a < c_second b \<or> c_second a = c_second b \<and> c_millisecond a < c_millisecond b)))))"

lemma cal_less_ms:
  assumes "valid_cal a" "valid_cal b" "cal_less a b"
  shows "cal_ms a < cal_ms b"
proof (cases "c_year a = c_year b \<and> c_month a = c_month b \<and> c_day a = c_day b")
  case True
  moreover from True assms have "MakeTime (c_hour a) (c_minute a) (c_second a) (c_millisecond a)
      < MakeTime (c_hour b) (c_minute b) (c_second b) (c_millisecond b)"
    by (auto simp: cal_less_def MakeTime_def valid_cal_def valid_hms_def)
  ultimately show ?thesis by (intro cal_ms_less_time) auto
next
  case False
  with assms show ?thesis by (intro cal_ms_less_day) (auto simp: cal_less_def ymd_less_def)
qed

lemma lex_total:
  "P \<or> Q \<or> R \<Longrightarrow> (x < y \<or> x = y \<and> P) \<or> (y < x \<or> y = x \<and> Q) \<or> x = y \<and> R" for x y :: int
  by auto

lemma cal_less_iff:
  assumes "valid_cal a" "valid_cal b"
  shows "cal_less a b \<longleftrightarrow> cal_ms a < cal_ms b"
proof -
  have "cal_less a b \<or> cal_less b a \<or> c_year a = c_year b \<and> c_month a = c_month b \<and> c_day a = c_day b \<and>
      c_hour a = c_hour b \<and> c_minute a = c_minute b \<and> c_second a = c_second b \<and>
      c_millisecond a = c_millisecond b"
    unfolding cal_less_def by (intro lex_total) linarith
  then have "cal_less a b \<or> cal_less b a \<or> a = b" by (cases a; cases b) simp
  then show ?thesis using cal_less_ms [OF assms] cal_less_ms [OF assms(2,1)] by auto
qed

lemma date_text_fields:
  assumes "valid_cal c" "modern (c_year c)" "c_year c < 10000"
  shows "date_text E (dt_at z off l c) = padStart (c_year c) 4 @ ''-'' @ padStart (c_month c) 2 @ ''-'' @
      padStart (c_day c) 2 @ ''T'' @ padStart (c_hour c) 2 @ '':'' @ padStart (c_minute c) 2 @ '':'' @
      padStart (c_second c) 2 @ ''.'' @ padStart (c_millisecond c) 3 @
      toISO_offset (zone_isUniversal z) (of_int off) False"
  using assms by (simp add: date_text_def str_or_null_def DateTime_toString_def toISO_def toISODate_cal_def
      toISOTime_dt_def toISOTime_clock_def iso_defaults_def isOffsetFixed_def modern_def)

lemma date_text_less:
  assumes a: "valid_cal a" "modern (c_year a)" "c_year a < 10000"
    and b: "valid_cal b" "modern (c_year b)" "c_year b < 10000"
  shows "js_string_less (date_text E (dt_at z off l a)) (date_text E (dt_at z off l b))
    \<longleftrightarrow> cal_ms a < cal_ms b"
proof -
  have r: "0 \<le> c_year c \<and> c_year c < 10 ^ 4 \<and> 0 \<le> c_month c \<and> c_month c < 10\<^sup>2
      \<and> 0 \<le> c_day c \<and> c_day c < 10\<^sup>2 \<and> 0 \<le> c_hour c \<and> c_hour c < 10\<^sup>2
      \<and> 0 \<le> c_minute c \<and> c_minute c < 10\<^sup>2 \<and> 0 \<le> c_second c \<and> c_second c < 10\<^sup>2
      \<and> 0 \<le> c_millisecond c \<and> c_millisecond c < 10 ^ 3"
    if "valid_cal c" "modern (c_year c)" "c_year c < 10000" for c
  proof -
    have "c_day c \<le> 31"
      using valid_calD(4) [OF that(1)] daysInMonth_bounds(2) [of "c_year c" "c_month c"] by linarith
    with valid_calD [OF that(1)] that(2,3) show ?thesis by (simp add: modern_def)
  qed
  show ?thesis
    unfolding date_text_fields [OF a] date_text_fields [OF b] cal_less_iff [OF a(1) b(1), symmetric] cal_less_def
    using r [OF a] r [OF b] by (simp only: field_less js_string_less_same) simp
qed

lemma splitAt_local:
  assumes "good s" "good e" "stamp s \<le> stamp e"
    "\<forall>c\<in>set cs. valid_cal c \<and> modern (c_year c) \<and> c_year c < 10000"
  shows "\<exists>ps. splitAt E (between s e) (map (\<lambda>c. DtDateTime (dt_at z off l c)) cs) = Ok ps
    \<and> tiles (stamp s) (stamp e) ps"
proof -
  have "\<exists>ps. splitAt E (between s e) (map DtDateTime (map (dt_at z off l) cs)) = Ok ps
      \<and> tiles (stamp s) (stamp e) ps"
  proof (rule splitAt_tiles [OF assms(1-3)])
    show "\<forall>d\<in>set (map (dt_at z off l) cs). good d" by (auto simp: good_def)
    fix a b
    assume "a \<in> set (map (dt_at z off l) cs)" "b \<in> set (map (dt_at z off l) cs)"
    then obtain c d where c: "c \<in> set cs" "d \<in> set cs" "a = dt_at z off l c" "b = dt_at z off l d" by auto
    have "stamp a < stamp b \<longleftrightarrow> cal_ms c < cal_ms d"
      unfolding c stamp_def dt_at_simps option.sel of_int_less_iff by simp
    then show "js_string_less (date_text E a) (date_text E b) \<longleftrightarrow> stamp a < stamp b"
      using date_text_less assms(4) c by simp
  qed
  then show ?thesis by (simp add: o_def)
qed

end
