(* ===== verification/IntervalProperties.thy ===== *)
theory IntervalProperties
  imports SpanLaws Sample
begin

text \<open>
  The properties of intervals and of differences of points in time, each followed by a run on concrete
  intervals of the first of February 2024.
\<close>

definition o_clock :: "int \<Rightarrow> datetime" where
  "o_clock h = dt_at utc_zone 0 sample_locale (february\<lparr>c_hour := h\<rparr>)"

definition hours :: "int \<Rightarrow> int \<Rightarrow> interval" where
  "hours a b = between (o_clock a) (o_clock b)"

lemma stamp_o_clock [simp]: "stamp (o_clock h) = 1706745600000 + of_int h * 3600000"
proof -
  have "cal_ms (february\<lparr>c_hour := h\<rparr>) = cal_ms february + h * 3600000"
    by (simp add: cal_ms_def february_def MakeDate_def MakeTime_def)
  moreover have "cal_ms february = 1706745600000" by code_simp
  ultimately show ?thesis by (simp add: o_clock_def stamp_def)
qed

lemma good_o_clock [simp]: "good (o_clock h)"
  by (simp add: o_clock_def good_def)

lemma hours_simps [simp]:
  "iv_lo (hours a b) = 1706745600000 + of_int a * 3600000"
  "iv_hi (hours a b) = 1706745600000 + of_int b * 3600000"
  "proper (hours a b) \<longleftrightarrow> a \<le> b" "solid (hours a b) \<longleftrightarrow> a < b"
  by (auto simp: hours_def solid_def)

definition diff_locale :: locale_obj where
  "diff_locale = res_val (Locale_fromObject sample \<lparr>lo_locale = Some (l_locale sample_locale),
     lo_numberingSystem = l_numberingSystem sample_locale, lo_outputCalendar = None\<rparr>)"

lemma sample_diff_opts:
  "Locale_fromObject sample (diff_opts (dt_at z off sample_locale c) no_locale_opts) = Ok diff_locale"
proof -
  have "diff_opts (dt_at z off sample_locale c) no_locale_opts = \<lparr>lo_locale = Some (l_locale sample_locale),
      lo_numberingSystem = l_numberingSystem sample_locale, lo_outputCalendar = None\<rparr>"
    by (simp add: diff_opts_def no_locale_opts_def)
  moreover have "Locale_fromObject sample \<lparr>lo_locale = Some (l_locale sample_locale),
      lo_numberingSystem = l_numberingSystem sample_locale, lo_outputCalendar = None\<rparr> = Ok diff_locale"
    by code_simp
  ultimately show ?thesis by simp
qed

lemma sample_diff_points:
  "Locale_fromObject sample (diff_opts (o_clock h) no_locale_opts) = Ok diff_locale"
  "Locale_fromObject sample (diff_opts (local_point utc_zone 0 sample_locale t) no_locale_opts)
    = Ok diff_locale"
  by (simp_all add: o_clock_def local_point_def sample_diff_opts)

subsection \<open>Sets of instants\<close>





text \<open>An empty interval at the start of another keeps \<open>merge\<close> from joining it with a third that overlaps
  it: the three intervals come back as they are.\<close>

lemma merge_empty_interval:
  assumes "good s" "good m" "good e" "good f" "stamp s < stamp m" "stamp m < stamp e" "stamp e < stamp f"
  shows "merge E [between s e, between s s, between m f] = Ok [between s e, between s s, between m f]"
proof -
  have "list_all proper [between s e, between s s, between m f]" using assms by simp
  from by_start.js_sort_key [OF this] have
    "js_sort start_less [between s e, between s s, between m f] = [between s e, between s s, between m f]"
    using assms by simp
  then show ?thesis using assms by (simp add: merge_def merge_step_def overlaps_def abutsStart_def ms_of_def)
qed

text \<open>C12: \<open>Interval.xor\<close> returns the instants that lie in exactly one of the intervals, as sorted
  intervals with gaps between them. The sweep over the end points is right in whichever order the
  end points of the same time are met, and for empty intervals as well.
\<close>

theorem xor_exactly_one:
  assumes "list_all proper xs"
  shows "\<exists>ys. xor E xs = Ok ys \<and> list_all solid ys \<and> sorted_wrt (\<lambda>a b. iv_hi a < iv_lo b) ys \<and>
    cover ys = {t. length (filter (\<lambda>x. t \<in> instants x) xs) = 1}"
  using xor_solid [OF assms, of E] by (auto simp: gapped_def depth_of_def)

theorem xor_exactly_one_witness:
  "\<exists>ys. xor sample [hours 0 2, hours 1 3] = Ok ys \<and> cover ys = cover [hours 0 1, hours 2 3]"
proof -
  have "{t. length (filter (\<lambda>x. t \<in> instants x) [hours 0 2, hours 1 3]) = 1} = cover [hours 0 1, hours 2 3]"
    by (auto simp: instants_def)
  then show ?thesis using xor_exactly_one [of "[hours 0 2, hours 1 3]" sample] by auto
qed

text \<open>C9: \<open>difference\<close> is the set difference: the instants of the interval that lie in none of the
  others, as sorted intervals that are not empty and have gaps between them.
\<close>

theorem difference_subtracts:
  assumes "proper iv" "list_all proper others"
  shows "\<exists>ys. difference E iv others = Ok ys \<and> list_all solid ys \<and>
    sorted_wrt (\<lambda>a b. iv_hi a < iv_lo b) ys \<and> cover ys = instants iv - cover others"
  using difference_solid [OF assms, of E] by (auto simp: gapped_def)

theorem difference_subtracts_witness:
  "\<exists>ys. difference sample (hours 0 4) [hours 1 2, hours 3 6] = Ok ys \<and> cover ys = cover [hours 0 1, hours 2 3]"
proof -
  have "instants (hours 0 4) - cover [hours 1 2, hours 3 6] = cover [hours 0 1, hours 2 3]"
    by (auto simp: instants_def)
  then show ?thesis using difference_subtracts [of "hours 0 4" "[hours 1 2, hours 3 6]" sample] by (simp, blast)
qed

subsection \<open>Parts\<close>



text \<open>With points of two zones the texts are out of order: ten o'clock UTC comes before eleven o'clock
  at +02:00, which is the earlier point. The parts of the interval from 8 to 12 are then 8 to 10, an
  invalid one, and 9 to 12.\<close>

definition eleven_east :: datetime where
  "eleven_east = dt_at (FixedOffsetZone 120) 120 sample_locale (february\<lparr>c_hour := 11\<rparr>)"

lemma eleven_east_facts: "good eleven_east" "stamp eleven_east = stamp (o_clock 9)"
  "contains (hours 8 12) eleven_east" "contains (hours 8 12) (o_clock 10)"
proof -
  show g: "good eleven_east" by (simp add: good_def eleven_east_def)
  have "cal_ms (february\<lparr>c_hour := 11\<rparr>) = 1706785200000" by code_simp
  then show s: "stamp eleven_east = stamp (o_clock 9)" by (simp add: stamp_def eleven_east_def stamp_o_clock [unfolded stamp_def])
  have hours_proper: "proper (hours 8 12)" by simp
  show "contains (hours 8 12) eleven_east" "contains (hours 8 12) (o_clock 10)"
    unfolding contains_instants [OF hours_proper g] contains_instants [OF hours_proper good_o_clock] instants_def s
    by simp_all
qed

lemma eleven_east_text:
  "js_string_less (date_text sample (o_clock 10)) (date_text sample eleven_east)"
  "\<not> js_string_less (date_text sample eleven_east) (date_text sample (o_clock 10))"
proof -
  have c: "valid_cal (february\<lparr>c_hour := h\<rparr>)" "modern (c_year (february\<lparr>c_hour := h\<rparr>))"
    "c_year (february\<lparr>c_hour := h\<rparr>) < 10000" if "h \<in> {10, 11}" for h
    using that by (auto simp: february_def valid_cal_def valid_ymd_def valid_hms_def modern_def month_length_def)
  have t: "date_text sample (o_clock 10) = padStart 2024 4 @ ''-'' @ padStart 2 2 @ ''-'' @ padStart 1 2 @ ''T'' @
      padStart 10 2 @ '':'' @ padStart 0 2 @ '':'' @ padStart 0 2 @ ''.'' @ padStart 0 3 @
      toISO_offset (zone_isUniversal utc_zone) 0 False"
    "date_text sample eleven_east = padStart 2024 4 @ ''-'' @ padStart 2 2 @ ''-'' @ padStart 1 2 @ ''T'' @
      padStart 11 2 @ '':'' @ padStart 0 2 @ '':'' @ padStart 0 2 @ ''.'' @ padStart 0 3 @
      toISO_offset (zone_isUniversal (FixedOffsetZone 120)) 120 False"
    unfolding o_clock_def eleven_east_def
    by (subst date_text_fields [OF c]; simp add: february_def)+
  show "js_string_less (date_text sample (o_clock 10)) (date_text sample eleven_east)"
    "\<not> js_string_less (date_text sample eleven_east) (date_text sample (o_clock 10))"
    unfolding t js_string_less_same by (simp_all add: field_less)
qed

lemma splitAt_mixed_zones:
  "\<exists>bad. splitAt sample (hours 8 12) [DtDateTime (o_clock 10), DtDateTime eleven_east]
     = Ok [hours 8 10, bad, between eleven_east (o_clock 12)] \<and> \<not> iv_isValid bad"
proof -
  have "js_sort (\<lambda>a b. js_string_less (date_text sample a) (date_text sample b)) [o_clock 10, eleven_east]
      = [o_clock 10, eleven_east]"
    using eleven_east_text by (simp add: js_sort_def)
  moreover have "mapM (friendlyDateTime sample) [DtDateTime (o_clock 10), DtDateTime eleven_east]
      = Ok [o_clock 10, eleven_east]" by (simp add: friendlyDateTime_def)
  ultimately have "splitAt sample (hours 8 12) [DtDateTime (o_clock 10), DtDateTime eleven_east]
      = split_from sample (o_clock 12) (o_clock 8) [o_clock 10, eleven_east]"
    using eleven_east_facts(3,4) by (simp add: splitAt_def) (simp add: hours_def)
  moreover have "\<exists>bad. span sample (o_clock 10) eleven_east = Ok bad \<and> \<not> iv_isValid bad"
    using eleven_east_facts(1,2) good_valid [OF good_o_clock] good_valid [OF eleven_east_facts(1)]
    by (simp add: span_def validateStartEnd_def Interval_invalid_def sample_def iv_isValid_def)
  ultimately show ?thesis using eleven_east_facts(1,2) by (auto simp: hours_def)
qed

text \<open>C16: \<open>splitBy\<close> with a duration of hours and smaller units, of \<open>k > 0\<close> milliseconds in all, ends; it
  returns the rounded-up quotient of the lengths many parts, the \<open>i\<close>-th from \<open>i * k\<close> milliseconds
  after the start, the last one cut at the end of the interval, and together they are the interval.
\<close>

theorem splitBy_ends:
  assumes "sane_zone E z off" "Locale_fromObject E no_locale_opts = Ok l0"
    "fromDurationLike E dl = Ok dur" "Duration_isValid dur" "keys (d_values dur) \<subseteq> clock_units"
    "clock_ms (d_values dur) = of_int k" "0 < k"
    "valid_cal c" "modern (c_year c)" "in_range off (b + k)" "cal_ms c \<le> b"
    "b \<le> cal_ms c + int n * k" "cal_ms c + (int n - 1) * k < b"
  shows "\<exists>ps. splitBy E (between (dt_at z off l c) (local_point z off l b)) dl = Ok ps \<and>
    ps = map (part z off l (\<lambda>i. min b (cal_ms c + int i * k))) [0..<n] \<and>
    cover ps = instants (between (dt_at z off l c) (local_point z off l b))"
proof -
  let ?q = "cut_point (cal_ms c) b k" and ?ps = "map (part z off l (cut_point (cal_ms c) b k)) [0..<n]"
  have q: "?q = (\<lambda>i. min b (cal_ms c + int i * k))" by (simp add: cut_point_def fun_eq_iff)
  have "tiles (of_int (?q 0 - off * 60000)) (of_int (?q n - off * 60000)) ?ps"
    using assms(7) by (intro parts_tiles cut_point_mono) simp
  then have "cover ?ps = {t. of_int (cal_ms c - off * 60000) \<le> t \<and> t < of_int (b - off * 60000)}"
    unfolding cut_point_ends(1) [OF assms(11)] cut_point_ends(2) [OF assms(12)] by (rule tiles_cover)
  also have "\<dots> = instants (between (dt_at z off l c) (local_point z off l b))"
    unfolding local_point_cal [OF assms(8)] instants_def by simp
  finally have "cover ?ps = instants (between (dt_at z off l c) (local_point z off l b))" .
  moreover have "splitBy E (between (dt_at z off l c) (local_point z off l b)) dl = Ok ?ps"
    by (rule sane_zone.splitBy_parts [OF assms(1,3,8,9,4-7,10-13,2)])
  ultimately show ?thesis unfolding q [symmetric] by blast
qed

text \<open>Five hours by two.\<close>

definition two_hours :: durationLike where
  "two_hours = DObject [(''hours'', VNum 2)]"

theorem splitBy_ends_witness:
  "\<exists>ps. splitBy sample (between (o_clock 0) (local_point utc_zone 0 sample_locale 1706763600000)) two_hours
      = Ok ps \<and> length ps = 3 \<and>
    cover ps = instants (between (o_clock 0) (local_point utc_zone 0 sample_locale 1706763600000))"
proof -
  let ?d = "\<lparr>d_values = [(Hours, 2)], d_loc = sample_locale, d_longterm = False, d_invalid = None\<rparr>"
  have d: "fromDurationLike sample two_hours = Ok ?d"
    unfolding two_hours_def by (rule sane_zone.Duration_of_object [OF sample_zone(1) sample_locale all_unit_names(6)])
  have c: "valid_cal (february\<lparr>c_hour := 0\<rparr>)" "modern (c_year (february\<lparr>c_hour := 0\<rparr>))"
    "cal_ms (february\<lparr>c_hour := 0\<rparr>) = 1706745600000" "in_range 0 (1706763600000 + 7200000)"
    by code_simp+
  show ?thesis
    using splitBy_ends [OF sample_zone(1) sample_locale d _ _ _ _ c(1,2,4), of 3 sample_locale] c(3)
    by (auto simp: o_clock_def Duration_isValid_def clock_units_def clock_ms_def)
qed

text \<open>\<open>divideEqually\<close> of an interval whose length is a multiple of the number \<open>n\<close> returns exactly \<open>n\<close>
  parts of the same length, one after the other from the start to the end.
\<close>

theorem divideEqually_equal:
  assumes "sane_zone E z off" "Locale_fromObject E no_locale_opts = Ok l0" "valid_cal c" "modern (c_year c)"
    "0 < k" "0 < n" "in_range off (cal_ms c + (int n + 1) * k)"
    "Locale_fromObject E (diff_opts (local_point z off l (cal_ms c + int n * k)) no_locale_opts) = Ok l1"
  shows "\<exists>ps. divideEqually E (between (dt_at z off l c) (local_point z off l (cal_ms c + int n * k))) (int n)
      = Ok ps \<and> length ps = n \<and> (\<forall>i<n. ps ! i =
        between (local_point z off l (cal_ms c + int i * k)) (local_point z off l (cal_ms c + (int i + 1) * k)))"
proof -
  have "cut_point (cal_ms c) (cal_ms c + int n * k) k i = cal_ms c + int i * k" if "i \<le> n" for i
    using that assms(5) by (simp add: cut_point_def)
  then have "part z off l (cut_point (cal_ms c) (cal_ms c + int n * k) k) i = between
      (local_point z off l (cal_ms c + int i * k)) (local_point z off l (cal_ms c + (int i + 1) * k))"
    if "i < n" for i
    using that by (simp add: part_def add.commute)
  with sane_zone.divideEqually_parts [OF assms(1,3-7,2,8)] show ?thesis by simp
qed

theorem divideEqually_equal_witness:
  "\<exists>ps. divideEqually sample (between (o_clock 0) (local_point utc_zone 0 sample_locale 1706767200000)) 3 = Ok ps
    \<and> length ps = 3 \<and> ps ! 1 = between (local_point utc_zone 0 sample_locale 1706752800000)
        (local_point utc_zone 0 sample_locale 1706760000000)"
proof -
  have c: "valid_cal (february\<lparr>c_hour := 0\<rparr>)" "modern (c_year (february\<lparr>c_hour := 0\<rparr>))"
    "cal_ms (february\<lparr>c_hour := 0\<rparr>) = 1706745600000" "in_range 0 (1706745600000 + (int 3 + 1) * 7200000)"
    by code_simp+
  from divideEqually_equal [OF sample_zone(1) sample_locale c(1,2) _ _ _ sample_diff_points(2), of 7200000 3] c(3,4)
  show ?thesis by (auto simp: o_clock_def)
qed

subsection \<open>Differences\<close>





text \<open>The difference in quarters does not count the years: from the start of 2020 to the start of 2021 it
  begins with no quarter, and the whole year becomes a fraction of the first quarter of 2020.\<close>

lemma quarters_ignore_years:
  "differ sample Quarters (dt_at utc_zone 0 sample_locale (february\<lparr>c_year := 2020, c_month := 1\<rparr>))
      (dt_at utc_zone 0 sample_locale (february\<lparr>c_year := 2021, c_month := 1\<rparr>)) = Ok (Some 0)"
  by code_simp

end
