(* ===== verification/LuxonFormat.thy ===== *)
theory LuxonFormat
  imports LuxonISO
begin

text \<open>
  Output by format strings (\<open>Formatter\<close>, the formatters of \<open>Locale\<close> and the \<open>to...\<close> methods in
  \<open>ui/js/bundle.js\<close>): a format is cut into tokens, and a token is printed as a number, a name, an
  offset or a whole localized date.

  What the code takes from \<open>Intl\<close> beyond the record \<open>platform\<close> is the record \<open>intl\<close>, a parameter of
  the definitions. Numbers are printed with at most 15 digits after the point, exactly when they have
  no more, and without the exponent JavaScript writes from 1e21 on. The caches are left out
  (\<open>LuxonNameCache\<close> shows that they change no answer), and so are the options \<open>Intl\<close> ignores.
\<close>

subsection \<open>Intl\<close>

type_synonym dtf_opts = "(string \<times> string) list"

text \<open>The options of a number: digits to pad to, whether it is rounded down, and those of the caller.\<close>

record num_opts =
  no_padTo :: nat
  no_floor :: bool
  no_other :: dtf_opts

text \<open>\<open>in_format l o t\<close> and \<open>in_parts l o t\<close>: \<open>new Intl.DateTimeFormat(l, o)\<close> applied to the time \<open>t\<close>.
  \<open>in_locale l\<close> and \<open>in_numbering l\<close>: the locale and the numbering system it resolves \<open>l\<close> to.
  \<open>in_number l o n\<close>: \<open>new Intl.NumberFormat(l, o).format(n)\<close>. \<open>None\<close>: the constructor throws.
  \<open>in_relative l o\<close>: \<open>new Intl.RelativeTimeFormat(l, o).format\<close>, where there is one, on the sign of a
  count (which 0 has too), the count and a unit. \<open>in_list l o\<close>: \<open>new Intl.ListFormat(l, o).format\<close>.\<close>

record intl =
  in_format :: "string \<Rightarrow> dtf_opts \<Rightarrow> int \<Rightarrow> string option"
  in_parts :: "string \<Rightarrow> dtf_opts \<Rightarrow> int \<Rightarrow> (string \<times> string) list option"
  in_locale :: "string \<Rightarrow> string option"
  in_numbering :: "string \<Rightarrow> string option"
  in_number :: "string \<Rightarrow> num_opts \<Rightarrow> rat \<Rightarrow> string option"
  in_relative :: "(string \<Rightarrow> dtf_opts \<Rightarrow> bool \<Rightarrow> rat \<Rightarrow> string \<Rightarrow> string option) option"
  in_list :: "string \<Rightarrow> dtf_opts \<Rightarrow> string list \<Rightarrow> string option"

definition intl_call :: "'a option \<Rightarrow> 'a res" where
  [luxon_defs]: "intl_call r = (case r of Some v \<Rightarrow> Ok v
     | None \<Rightarrow> Throw (RangeError ''Incorrect locale information provided''))"

definition at_date :: "(int \<Rightarrow> 'a option) \<Rightarrow> int option \<Rightarrow> 'a res" where
  [luxon_defs]: "at_date f date = (case date of None \<Rightarrow> Throw (RangeError ''Invalid time value'')
     | Some t \<Rightarrow> intl_call (f t))"

definition startsWith :: "string \<Rightarrow> string \<Rightarrow> bool" where
  [js_defs]: "startsWith s pat \<longleftrightarrow> take (length pat) s = pat"

subsection \<open>Numbers as texts\<close>

fun frac_digits :: "nat \<Rightarrow> rat \<Rightarrow> string" where
  "frac_digits 0 f = []"
| "frac_digits (Suc n) f = (if f = 0 then [] else
     let d = \<lfloor>10 * f\<rfloor> in digit_char (nat d) # frac_digits n (10 * f - of_int d))"

text \<open>\<open>"" + x\<close> for a number that is not negative, and for any number.\<close>

definition show_dec :: "rat \<Rightarrow> string" where
  [js_defs]: "show_dec x = (let i = \<lfloor>x\<rfloor>; f = x - of_int i in
     show_int i @ (if f = 0 then [] else ''.'' @ frac_digits 15 f))"

definition show_rat :: "rat \<Rightarrow> string" where
  [js_defs]: "show_rat x = (if x < 0 then ''-'' @ show_dec (- x) else show_dec x)"

definition padStart_rat :: "rat \<Rightarrow> nat \<Rightarrow> string" where
  [luxon_defs]: "padStart_rat input n =
     (if input < 0 then ''-'' @ pad_start (show_dec (- input)) n (CHR ''0'')
      else pad_start (show_dec input) n (CHR ''0''))"

lemma show_dec_int [simp]: "show_dec (of_int i) = show_int i"
  by (simp add: show_dec_def)

lemma padStart_rat_int [simp]: "padStart_rat (of_int i) n = padStart i n"
  by (simp add: padStart_rat_def padStart_def flip: of_int_minus)

subsection \<open>Formats as lists of tokens\<close>

record token =
  tk_literal :: bool
  tk_val :: string

definition push_token :: "bool \<Rightarrow> string \<Rightarrow> token list \<Rightarrow> token list" where
  [luxon_defs]: "push_token lit full splits =
     (if full = [] then splits else splits @ [\<lparr>tk_literal = lit, tk_val = full\<rparr>])"

text \<open>The loop of \<open>parseFormat\<close> over the characters that are left.\<close>

fun parseFormat_from :: "char option \<Rightarrow> string \<Rightarrow> bool \<Rightarrow> token list \<Rightarrow> string \<Rightarrow> token list" where
  "parseFormat_from current full bracketed splits [] = push_token bracketed full splits"
| "parseFormat_from current full bracketed splits (c # cs) =
     (if c = CHR 0x27 then parseFormat_from None [] (\<not> bracketed) (push_token bracketed full splits) cs
      else if bracketed then parseFormat_from current (full @ [c]) bracketed splits cs
      else if current = Some c then parseFormat_from current (full @ [c]) bracketed splits cs
      else parseFormat_from (Some c) [c] bracketed (push_token False full splits) cs)"

definition parseFormat :: "string \<Rightarrow> token list" where
  [luxon_defs]: "parseFormat fmt = parseFormat_from None [] False [] fmt"

fun stringifyTokens :: "token list \<Rightarrow> (string \<Rightarrow> string res) \<Rightarrow> string res" where
  "stringifyTokens [] tokenToString = Ok []"
| "stringifyTokens (t # ts) tokenToString =
     rbind (if tk_literal t then Ok (tk_val t) else tokenToString (tk_val t))
       (\<lambda>s. rmap (append s) (stringifyTokens ts tokenToString))"

subsection \<open>Presets\<close>

definition DATE_SHORT :: dtf_opts where
  [luxon_defs]: "DATE_SHORT = [(''year'', ''numeric''), (''month'', ''numeric''), (''day'', ''numeric'')]"

definition DATE_MED :: dtf_opts where
  [luxon_defs]: "DATE_MED = [(''year'', ''numeric''), (''month'', ''short''), (''day'', ''numeric'')]"

definition DATE_MED_WITH_WEEKDAY :: dtf_opts where
  [luxon_defs]: "DATE_MED_WITH_WEEKDAY = [(''year'', ''numeric''), (''month'', ''short''), (''day'', ''numeric''),
     (''weekday'', ''short'')]"

definition DATE_FULL :: dtf_opts where
  [luxon_defs]: "DATE_FULL = [(''year'', ''numeric''), (''month'', ''long''), (''day'', ''numeric'')]"

definition DATE_HUGE :: dtf_opts where
  [luxon_defs]: "DATE_HUGE = [(''year'', ''numeric''), (''month'', ''long''), (''day'', ''numeric''),
     (''weekday'', ''long'')]"

definition TIME_SIMPLE :: dtf_opts where
  [luxon_defs]: "TIME_SIMPLE = [(''hour'', ''numeric''), (''minute'', ''numeric'')]"

definition TIME_WITH_SECONDS :: dtf_opts where
  [luxon_defs]: "TIME_WITH_SECONDS =
     [(''hour'', ''numeric''), (''minute'', ''numeric''), (''second'', ''numeric'')]"

definition TIME_WITH_SHORT_OFFSET :: dtf_opts where
  [luxon_defs]: "TIME_WITH_SHORT_OFFSET = [(''hour'', ''numeric''), (''minute'', ''numeric''),
     (''second'', ''numeric''), (''timeZoneName'', ''short'')]"

definition TIME_WITH_LONG_OFFSET :: dtf_opts where
  [luxon_defs]: "TIME_WITH_LONG_OFFSET = [(''hour'', ''numeric''), (''minute'', ''numeric''),
     (''second'', ''numeric''), (''timeZoneName'', ''long'')]"

definition TIME_24_SIMPLE :: dtf_opts where
  [luxon_defs]: "TIME_24_SIMPLE =
     [(''hour'', ''numeric''), (''minute'', ''numeric''), (''hourCycle'', ''h23'')]"

definition TIME_24_WITH_SECONDS :: dtf_opts where
  [luxon_defs]: "TIME_24_WITH_SECONDS = [(''hour'', ''numeric''), (''minute'', ''numeric''),
     (''second'', ''numeric''), (''hourCycle'', ''h23'')]"

definition TIME_24_WITH_SHORT_OFFSET :: dtf_opts where
  [luxon_defs]: "TIME_24_WITH_SHORT_OFFSET = [(''hour'', ''numeric''), (''minute'', ''numeric''),
     (''second'', ''numeric''), (''hourCycle'', ''h23''), (''timeZoneName'', ''short'')]"

definition TIME_24_WITH_LONG_OFFSET :: dtf_opts where
  [luxon_defs]: "TIME_24_WITH_LONG_OFFSET = [(''hour'', ''numeric''), (''minute'', ''numeric''),
     (''second'', ''numeric''), (''hourCycle'', ''h23''), (''timeZoneName'', ''long'')]"

definition DATETIME_SHORT :: dtf_opts where
  [luxon_defs]: "DATETIME_SHORT = [(''year'', ''numeric''), (''month'', ''numeric''),
     (''day'', ''numeric''), (''hour'', ''numeric''), (''minute'', ''numeric'')]"

definition DATETIME_SHORT_WITH_SECONDS :: dtf_opts where
  [luxon_defs]: "DATETIME_SHORT_WITH_SECONDS = [(''year'', ''numeric''), (''month'', ''numeric''),
     (''day'', ''numeric''), (''hour'', ''numeric''), (''minute'', ''numeric''), (''second'', ''numeric'')]"

definition DATETIME_MED :: dtf_opts where
  [luxon_defs]: "DATETIME_MED = [(''year'', ''numeric''), (''month'', ''short''),
     (''day'', ''numeric''), (''hour'', ''numeric''), (''minute'', ''numeric'')]"

definition DATETIME_MED_WITH_WEEKDAY :: dtf_opts where
  [luxon_defs]: "DATETIME_MED_WITH_WEEKDAY = [(''year'', ''numeric''), (''month'', ''short''),
     (''day'', ''numeric''), (''weekday'', ''short''), (''hour'', ''numeric''), (''minute'', ''numeric'')]"

definition DATETIME_MED_WITH_SECONDS :: dtf_opts where
  [luxon_defs]: "DATETIME_MED_WITH_SECONDS = [(''year'', ''numeric''), (''month'', ''short''),
     (''day'', ''numeric''), (''hour'', ''numeric''), (''minute'', ''numeric''), (''second'', ''numeric'')]"

definition DATETIME_FULL :: dtf_opts where
  [luxon_defs]: "DATETIME_FULL = [(''year'', ''numeric''), (''month'', ''long''), (''day'', ''numeric''),
     (''hour'', ''numeric''), (''minute'', ''numeric''), (''timeZoneName'', ''short'')]"

definition DATETIME_FULL_WITH_SECONDS :: dtf_opts where
  [luxon_defs]: "DATETIME_FULL_WITH_SECONDS = [(''year'', ''numeric''), (''month'', ''long''),
     (''day'', ''numeric''), (''hour'', ''numeric''), (''minute'', ''numeric''), (''second'', ''numeric''),
     (''timeZoneName'', ''short'')]"

definition DATETIME_HUGE :: dtf_opts where
  [luxon_defs]: "DATETIME_HUGE = [(''year'', ''numeric''), (''month'', ''long''), (''day'', ''numeric''),
     (''weekday'', ''long''), (''hour'', ''numeric''), (''minute'', ''numeric''), (''timeZoneName'', ''long'')]"

definition DATETIME_HUGE_WITH_SECONDS :: dtf_opts where
  [luxon_defs]: "DATETIME_HUGE_WITH_SECONDS = [(''year'', ''numeric''), (''month'', ''long''),
     (''day'', ''numeric''), (''weekday'', ''long''), (''hour'', ''numeric''), (''minute'', ''numeric''),
     (''second'', ''numeric''), (''timeZoneName'', ''long'')]"

definition macroTokenToFormatOpts :: "string \<Rightarrow> dtf_opts option" where
  [luxon_defs]: "macroTokenToFormatOpts tok = map_of
     [(''D'', DATE_SHORT), (''DD'', DATE_MED), (''DDD'', DATE_FULL), (''DDDD'', DATE_HUGE),
      (''t'', TIME_SIMPLE), (''tt'', TIME_WITH_SECONDS), (''ttt'', TIME_WITH_SHORT_OFFSET),
      (''tttt'', TIME_WITH_LONG_OFFSET), (''T'', TIME_24_SIMPLE), (''TT'', TIME_24_WITH_SECONDS),
      (''TTT'', TIME_24_WITH_SHORT_OFFSET), (''TTTT'', TIME_24_WITH_LONG_OFFSET),
      (''f'', DATETIME_SHORT), (''ff'', DATETIME_MED), (''fff'', DATETIME_FULL), (''ffff'', DATETIME_HUGE),
      (''F'', DATETIME_SHORT_WITH_SECONDS), (''FF'', DATETIME_MED_WITH_SECONDS),
      (''FFF'', DATETIME_FULL_WITH_SECONDS), (''FFFF'', DATETIME_HUGE_WITH_SECONDS)] tok"

subsection \<open>Dates through Intl\<close>

text \<open>\<open>PolyDateFormatter\<close>: the date it formats and the options with the time zone. \<open>Intl\<close> has no zones
  for most fixed offsets; their local time is then formatted as if it were universal time.\<close>

definition poly_date :: "settings \<Rightarrow> datetime \<Rightarrow> dtf_opts \<Rightarrow> (datetime \<times> dtf_opts) res" where
  [luxon_defs]: "poly_date E dt opts =
     (if zone_isUniversal (dt_zone dt) then
        let off = (case dt_offset dt of Some x \<Rightarrow> x | None \<Rightarrow> 0);
            gmtOffset = - (off / 60);
            offsetZ = (if 0 \<le> gmtOffset then ''Etc/GMT+'' else ''Etc/GMT'') @ show_rat gmtOffset
        in if off \<noteq> 0 \<and> zone_isValid (IANAZone_create E offsetZ)
           then Ok (dt, AList.update ''timeZone'' offsetZ opts)
           else rbind (if map_of opts ''timeZoneName'' \<noteq> None \<or> off = 0 then Ok dt
                  else fromMillis E (nadd (dt_ts dt) (Some (off * 60 * 1000))) ZUndefined no_locale_opts)
                (\<lambda>d. Ok (d, AList.update ''timeZone'' ''UTC'' opts))
      else if zone_type (dt_zone dt) = ''system'' then Ok (dt, opts)
      else Ok (dt, AList.update ''timeZone'' (zone_name E (dt_zone dt)) opts))"

definition dtf_format :: "settings \<Rightarrow> intl \<Rightarrow> locale_obj \<Rightarrow> datetime \<Rightarrow> dtf_opts \<Rightarrow> string res" where
  [luxon_defs]: "dtf_format E I loc dt opts = rbind (poly_date E dt opts)
     (\<lambda>(d, o'). at_date (in_format I (l_intl loc) o') (toJSDate d))"

definition dtf_parts ::
  "settings \<Rightarrow> intl \<Rightarrow> locale_obj \<Rightarrow> datetime \<Rightarrow> dtf_opts \<Rightarrow> (string \<times> string) list res" where
  [luxon_defs]: "dtf_parts E I loc dt opts = rbind (poly_date E dt opts)
     (\<lambda>(d, o'). at_date (in_parts I (l_intl loc) o') (toJSDate d))"

definition Locale_extract ::
  "settings \<Rightarrow> intl \<Rightarrow> locale_obj \<Rightarrow> datetime \<Rightarrow> dtf_opts \<Rightarrow> string \<Rightarrow> string option res" where
  [luxon_defs]: "Locale_extract E I loc dt intlOpts field =
     rmap (\<lambda>results. map_option snd (find (\<lambda>m. toLowerCase (fst m) = field) results))
       (dtf_parts E I loc dt intlOpts)"

subsection \<open>Lists of names\<close>

definition isEnglish :: "intl \<Rightarrow> locale_obj \<Rightarrow> bool res" where
  [luxon_defs]: "isEnglish I loc =
     (if l_locale loc = ''en'' \<or> toLowerCase (l_locale loc) = ''en-us'' then Ok True
      else rmap (\<lambda>l. startsWith l ''en-us'') (intl_call (in_locale I (l_intl loc))))"

text \<open>Whether the English names are used (\<open>"en"\<close>) or those of \<open>Intl\<close>.\<close>

definition listing_en :: "intl \<Rightarrow> locale_obj \<Rightarrow> bool res" where
  [luxon_defs]: "listing_en I loc = rmap (\<lambda>isActuallyEn. isActuallyEn \<and>
       (l_numberingSystem loc = None \<or> l_numberingSystem loc = Some ''latn'') \<and>
       (l_outputCalendar loc = None \<or> l_outputCalendar loc = Some ''gregory''))
     (isEnglish I loc)"

text \<open>A list of names, \<open>null\<close> when there is none of the length; a name may be \<open>null\<close> as well.\<close>

type_synonym names = "string option list option"

definition listStuff :: "intl \<Rightarrow> locale_obj \<Rightarrow> string list option \<Rightarrow> string option list res \<Rightarrow> names res" where
  [luxon_defs]: "listStuff I loc english intlList = rbind (listing_en I loc)
     (\<lambda>en. if en then Ok (map_option (map Some) english) else rmap Some intlList)"

definition utc_day :: "settings \<Rightarrow> int list \<Rightarrow> datetime res" where
  [luxon_defs]: "utc_day E args = DateTime_utc E (map Some args) no_locale_opts"

definition mapMonths :: "settings \<Rightarrow> (datetime \<Rightarrow> 'a res) \<Rightarrow> 'a list res" where
  [luxon_defs]: "mapMonths E f = mapM (\<lambda>i. rbind (utc_day E [2016, i, 1]) f) [1 .. 12]"

definition mapWeekdays :: "settings \<Rightarrow> (datetime \<Rightarrow> 'a res) \<Rightarrow> 'a list res" where
  [luxon_defs]: "mapWeekdays E f = mapM (\<lambda>i. rbind (utc_day E [2016, 11, 13 + i]) f) [1 .. 7]"

definition Locale_months :: "settings \<Rightarrow> intl \<Rightarrow> locale_obj \<Rightarrow> string \<Rightarrow> bool \<Rightarrow> names res" where
  [luxon_defs]: "Locale_months E I loc len format = listStuff I loc (months len)
     (mapMonths E (\<lambda>dt. Locale_extract E I loc dt
        (if format then [(''month'', len), (''day'', ''numeric'')] else [(''month'', len)]) ''month''))"

definition Locale_weekdays :: "settings \<Rightarrow> intl \<Rightarrow> locale_obj \<Rightarrow> string \<Rightarrow> bool \<Rightarrow> names res" where
  [luxon_defs]: "Locale_weekdays E I loc len format = listStuff I loc (weekdays len)
     (mapWeekdays E (\<lambda>dt. Locale_extract E I loc dt
        (if format then [(''weekday'', len), (''year'', ''numeric''), (''month'', ''long''),
           (''day'', ''numeric'')]
         else [(''weekday'', len)]) ''weekday''))"

definition Locale_meridiems :: "settings \<Rightarrow> intl \<Rightarrow> locale_obj \<Rightarrow> names res" where
  [luxon_defs]: "Locale_meridiems E I loc = listStuff I loc (Some meridiems)
     (mapM (\<lambda>args. rbind (utc_day E args) (\<lambda>dt. Locale_extract E I loc dt
        [(''hour'', ''numeric''), (''hourCycle'', ''h12'')] ''dayperiod''))
       [[2016, 11, 13, 9], [2016, 11, 13, 19]])"

definition Locale_eras :: "settings \<Rightarrow> intl \<Rightarrow> locale_obj \<Rightarrow> string \<Rightarrow> names res" where
  [luxon_defs]: "Locale_eras E I loc len = listStuff I loc (eras len)
     (mapM (\<lambda>args. rbind (utc_day E args) (\<lambda>dt. Locale_extract E I loc dt [(''era'', len)] ''era''))
       [[-40, 1, 1], [2017, 1, 1]])"

subsection \<open>Numbers\<close>

definition supportsFastNumbers :: "intl \<Rightarrow> locale_obj \<Rightarrow> bool res" where
  [luxon_defs]: "supportsFastNumbers I loc =
     (case l_numberingSystem loc of
        Some n \<Rightarrow> Ok (n = ''latn'')
      | None \<Rightarrow> if l_locale loc = [] \<or> startsWith (l_locale loc) ''en'' then Ok True
          else rmap (\<lambda>n. n = ''latn'') (intl_call (in_numbering I (l_intl loc))))"

text \<open>The options of a formatter: \<open>forceSimple\<close>, \<open>allowZ\<close> and \<open>floor\<close>, and those meant for
  \<open>Intl\<close>. \<open>None\<close> is a missing option.\<close>

record fmt_opts =
  fm_forceSimple :: bool
  fm_allowZ :: "bool option"
  fm_floor :: bool
  fm_other :: dtf_opts

definition no_fmt_opts :: fmt_opts where
  [luxon_defs]: "no_fmt_opts =
     \<lparr>fm_forceSimple = False, fm_allowZ = None, fm_floor = False, fm_other = []\<rparr>"

record formatter =
  fm_loc :: locale_obj
  fm_opts :: fmt_opts

definition PolyNumber_format :: "intl \<Rightarrow> locale_obj \<Rightarrow> bool \<Rightarrow> fmt_opts \<Rightarrow> nat \<Rightarrow> rat \<Rightarrow> string res" where
  [luxon_defs]: "PolyNumber_format I loc forceSimple opts padTo i =
     (if \<not> forceSimple \<or> fm_allowZ opts \<noteq> None \<or> fm_other opts \<noteq> []
      then intl_call (in_number I (l_intl loc)
        \<lparr>no_padTo = padTo, no_floor = fm_floor opts, no_other = fm_other opts\<rparr>
        (if fm_floor opts then of_int \<lfloor>i\<rfloor> else i))
      else Ok (padStart_rat (if fm_floor opts then of_int \<lfloor>i\<rfloor> else roundTo i 3 False) padTo))"

text \<open>\<open>Formatter.num\<close>; \<open>NaN\<close> is printed as such.\<close>

definition Formatter_num :: "intl \<Rightarrow> formatter \<Rightarrow> num \<Rightarrow> nat \<Rightarrow> string res" where
  [luxon_defs]: "Formatter_num I F n p = (case n of None \<Rightarrow> Ok ''NaN''
     | Some i \<Rightarrow>
       if fm_forceSimple (fm_opts F) then Ok (padStart_rat i p)
       else rbind (supportsFastNumbers I (fm_loc F))
         (\<lambda>fast. PolyNumber_format I (fm_loc F) fast (fm_opts F) p i))"

subsection \<open>Names and offsets of zones\<close>

definition parseZoneInfo :: "intl \<Rightarrow> num \<Rightarrow> string \<Rightarrow> string \<Rightarrow> string option \<Rightarrow> string option res" where
  [luxon_defs]: "parseZoneInfo I ts offsetFormat locale timeZone =
     (let modified = [(''timeZoneName'', offsetFormat), (''hourCycle'', ''h23''), (''year'', ''numeric''),
            (''month'', ''2-digit''), (''day'', ''2-digit''), (''hour'', ''2-digit''),
            (''minute'', ''2-digit'')] @
          (case timeZone of None \<Rightarrow> [] | Some z \<Rightarrow> [(''timeZone'', z)])
      in rmap (\<lambda>parts. map_option snd (find (\<lambda>m. toLowerCase (fst m) = ''timezonename'') parts))
           (at_date (in_parts I locale modified) (date_of ts)))"

definition zone_offsetName :: "settings \<Rightarrow> intl \<Rightarrow> zone \<Rightarrow> num \<Rightarrow> string \<Rightarrow> string \<Rightarrow> string option res" where
  [luxon_defs]: "zone_offsetName E I z ts format locale = (case z of
       SystemZone \<Rightarrow> parseZoneInfo I ts format locale None
     | IANAZone n _ \<Rightarrow> parseZoneInfo I ts format locale (Some n)
     | FixedOffsetZone _ \<Rightarrow> Ok (Some (zone_name E z))
     | InvalidZone _ \<Rightarrow> Ok None)"

text \<open>(A valid point in time has an offset; for \<open>NaN\<close> the code prints \<open>NaN\<close>.)\<close>

definition zone_formatOffset :: "settings \<Rightarrow> zone \<Rightarrow> num \<Rightarrow> string \<Rightarrow> string res" where
  [luxon_defs]: "zone_formatOffset E z ts format = (case z of InvalidZone _ \<Rightarrow> Ok []
     | _ \<Rightarrow> (case zone_offset E z ts of Some off \<Rightarrow> formatOffset off format | None \<Rightarrow> Ok ''NaN''))"

subsection \<open>The tokens of a date\<close>

definition millisecond :: "datetime \<Rightarrow> num" where
  [luxon_defs]: "millisecond dt = num_of (dt_get c_millisecond dt)"

definition hour12 :: "int \<Rightarrow> int" where
  [luxon_defs]: "hour12 h = (if js_rem h 12 = 0 then 12 else js_rem h 12)"

text \<open>\<open>n.toString().slice(-2)\<close> read as a number.\<close>

definition last_two :: "int \<Rightarrow> int" where
  [luxon_defs]: "last_two n = (if -10 < n \<and> n < 0 then n else \<bar>n\<bar> mod 100)"

definition floor_num :: "num \<Rightarrow> num" where
  [luxon_defs]: "floor_num n = map_option (\<lambda>x. of_int \<lfloor>x\<rfloor>) n"

text \<open>The tokens that are always numbers, each with the digits to pad to.\<close>

definition token_number :: "datetime \<Rightarrow> string \<Rightarrow> (num \<times> nat) option" where
  [luxon_defs]: "token_number dt tok = map_of
     [(''S'', (millisecond dt, 0)), (''u'', (millisecond dt, 3)), (''SSS'', (millisecond dt, 3)),
      (''s'', (num_of (second dt), 0)), (''ss'', (num_of (second dt), 2)),
      (''uu'', (floor_num (map_option (\<lambda>x. x / 10) (millisecond dt)), 2)),
      (''uuu'', (floor_num (map_option (\<lambda>x. x / 100) (millisecond dt)), 0)),
      (''m'', (num_of (minute dt), 0)), (''mm'', (num_of (minute dt), 2)),
      (''h'', (num_of (map_option hour12 (hour dt)), 0)), (''hh'', (num_of (map_option hour12 (hour dt)), 2)),
      (''H'', (num_of (hour dt), 0)), (''HH'', (num_of (hour dt), 2)),
      (''c'', (num_of (weekday dt), 0)), (''E'', (num_of (weekday dt), 0)),
      (''kk'', (num_of (map_option last_two (weekYear dt)), 2)), (''kkkk'', (num_of (weekYear dt), 4)),
      (''W'', (num_of (weekNumber dt), 0)), (''WW'', (num_of (weekNumber dt), 2)),
      (''o'', (num_of (dt_ordinal dt), 0)), (''ooo'', (num_of (dt_ordinal dt), 3)),
      (''q'', (num_of (quarter dt), 0)), (''qq'', (num_of (quarter dt), 2)),
      (''X'', (floor_num (map_option (\<lambda>t. t / 1000) (dt_ts dt)), 0)), (''x'', (dt_ts dt, 0))] tok"

text \<open>The tokens that are numbers in the Gregorian calendar, and taken from \<open>Intl\<close> with the given
  options when another calendar is asked for.\<close>

definition token_calendar :: "datetime \<Rightarrow> string \<Rightarrow> (num \<times> nat \<times> dtf_opts \<times> string) option" where
  [luxon_defs]: "token_calendar dt tok =
     (let d = num_of (day dt); m = num_of (month dt); y = num_of (year dt) in map_of
     [(''d'', (d, 0, [(''day'', ''numeric'')], ''day'')),
      (''dd'', (d, 2, [(''day'', ''2-digit'')], ''day'')),
      (''L'', (m, 0, [(''month'', ''numeric''), (''day'', ''numeric'')], ''month'')),
      (''LL'', (m, 2, [(''month'', ''2-digit''), (''day'', ''numeric'')], ''month'')),
      (''M'', (m, 0, [(''month'', ''numeric'')], ''month'')),
      (''MM'', (m, 2, [(''month'', ''2-digit'')], ''month'')),
      (''y'', (y, 0, [(''year'', ''numeric'')], ''year'')),
      (''yy'', (num_of (map_option last_two (year dt)), 2, [(''year'', ''2-digit'')], ''year'')),
      (''yyyy'', (y, 4, [(''year'', ''numeric'')], ''year'')),
      (''yyyyyy'', (y, 6, [(''year'', ''numeric'')], ''year''))] tok)"

text \<open>The tokens that are names: the English name, and what to ask \<open>Intl\<close> for otherwise.\<close>

definition token_name :: "datetime \<Rightarrow> string \<Rightarrow> (string option \<times> dtf_opts \<times> string) option" where
  [luxon_defs]: "token_name dt tok =
     (let M = (\<lambda>len standalone. (monthForDateTime dt len,
            if standalone then [(''month'', len)] else [(''month'', len), (''day'', ''numeric'')], ''month''));
          W = (\<lambda>len standalone. (weekdayForDateTime dt len,
            if standalone then [(''weekday'', len)]
            else [(''weekday'', len), (''month'', ''long''), (''day'', ''numeric'')], ''weekday''));
          G = (\<lambda>len. (eraForDateTime dt len, [(''era'', len)], ''era''))
      in map_of
     [(''a'', (Some (meridiemForDateTime dt), [(''hour'', ''numeric''), (''hourCycle'', ''h12'')],
         ''dayperiod'')),
      (''ccc'', W ''short'' True), (''cccc'', W ''long'' True), (''ccccc'', W ''narrow'' True),
      (''EEE'', W ''short'' False), (''EEEE'', W ''long'' False), (''EEEEE'', W ''narrow'' False),
      (''LLL'', M ''short'' True), (''LLLL'', M ''long'' True), (''LLLLL'', M ''narrow'' True),
      (''MMM'', M ''short'' False), (''MMMM'', M ''long'' False), (''MMMMM'', M ''narrow'' False),
      (''G'', G ''short''), (''GG'', G ''long''), (''GGGGG'', G ''narrow'')] tok)"

text \<open>The tokens of offsets and zones.\<close>

definition token_offset :: "settings \<Rightarrow> formatter \<Rightarrow> datetime \<Rightarrow> string \<Rightarrow> string res" where
  [luxon_defs]: "token_offset E F dt format =
     (if isOffsetFixed dt \<and> dt_offset dt = Some 0 \<and> fm_allowZ (fm_opts F) = Some True then Ok ''Z''
      else if isValid dt then zone_formatOffset E (dt_zone dt) (dt_ts dt) format else Ok [])"

definition token_zone :: "settings \<Rightarrow> intl \<Rightarrow> formatter \<Rightarrow> datetime \<Rightarrow> string \<Rightarrow> string res option" where
  [luxon_defs]: "token_zone E I F dt tok =
     (let name = (\<lambda>format. rmap str_or_null
            (zone_offsetName E I (dt_zone dt) (dt_ts dt) format (l_locale (fm_loc F))))
      in map_of
     [(''Z'', token_offset E F dt ''narrow''), (''ZZ'', token_offset E F dt ''short''),
      (''ZZZ'', token_offset E F dt ''techie''), (''ZZZZ'', name ''short''), (''ZZZZZ'', name ''long''),
      (''z'', Ok (if isValid dt then zone_name E (dt_zone dt) else ''null''))] tok)"

definition redefaultToSystem :: "settings \<Rightarrow> locale_obj \<Rightarrow> locale_obj res" where
  [luxon_defs]: "redefaultToSystem E loc = Locale_clone E loc (Some no_locale_opts) False"

definition maybeMacro :: "settings \<Rightarrow> intl \<Rightarrow> formatter \<Rightarrow> datetime \<Rightarrow> string \<Rightarrow> string res" where
  [luxon_defs]: "maybeMacro E I F dt tok = (case macroTokenToFormatOpts tok of
       None \<Rightarrow> Ok tok
     | Some formatOpts \<Rightarrow> rbind (redefaultToSystem E (fm_loc F)) (\<lambda>systemLoc.
         dtf_format E I systemLoc dt
           (fold (\<lambda>(k, v) o'. AList.update k v o') formatOpts (fm_other (fm_opts F)))))"

definition tokenToString ::
  "settings \<Rightarrow> intl \<Rightarrow> formatter \<Rightarrow> bool \<Rightarrow> datetime \<Rightarrow> string \<Rightarrow> string res" where
  [luxon_defs]: "tokenToString E I F knownEnglish dt tok =
     (let useDateTimeFormatter = (l_outputCalendar (fm_loc F) \<notin> {None, Some ''gregory''});
          text = (\<lambda>opts field. rmap str_or_null (Locale_extract E I (fm_loc F) dt opts field))
      in case token_number dt tok of Some (n, p) \<Rightarrow> Formatter_num I F n p
      | None \<Rightarrow> (case token_calendar dt tok of
          Some (n, p, opts, field) \<Rightarrow>
            if useDateTimeFormatter then text opts field else Formatter_num I F n p
      | None \<Rightarrow> (case token_name dt tok of
          Some (english, opts, field) \<Rightarrow>
            if knownEnglish then Ok (case english of Some n \<Rightarrow> n | None \<Rightarrow> ''undefined'') else text opts field
      | None \<Rightarrow> (case token_zone E I F dt tok of Some r \<Rightarrow> r
      | None \<Rightarrow> maybeMacro E I F dt tok))))"

definition formatDateTimeFromString ::
  "settings \<Rightarrow> intl \<Rightarrow> formatter \<Rightarrow> datetime \<Rightarrow> string \<Rightarrow> string res" where
  [luxon_defs]: "formatDateTimeFromString E I F dt fmt =
     rbind (listing_en I (fm_loc F)) (\<lambda>knownEnglish.
       stringifyTokens (parseFormat fmt) (tokenToString E I F knownEnglish dt))"

subsection \<open>Texts of a date\<close>

definition toFormat :: "settings \<Rightarrow> intl \<Rightarrow> datetime \<Rightarrow> string \<Rightarrow> locale_opts \<Rightarrow> string res" where
  [luxon_defs]: "toFormat E I dt fmt opts =
     (if isValid dt
      then rbind (Locale_clone E (dt_loc dt) (Some opts) True) (\<lambda>loc.
        formatDateTimeFromString E I \<lparr>fm_loc = loc, fm_opts = no_fmt_opts\<rparr> dt fmt)
      else Ok ''Invalid DateTime'')"

text \<open>\<open>None\<close> is \<open>null\<close>.\<close>

definition toTechFormat :: "settings \<Rightarrow> intl \<Rightarrow> datetime \<Rightarrow> string \<Rightarrow> bool \<Rightarrow> string option res" where
  [luxon_defs]: "toTechFormat E I dt format allowZ =
     (if isValid dt
      then rbind (Locale_create E (Some ''en-US'') None None False) (\<lambda>loc. rmap Some
        (formatDateTimeFromString E I
          \<lparr>fm_loc = loc, fm_opts = no_fmt_opts\<lparr>fm_allowZ := Some allowZ, fm_forceSimple := True\<rparr>\<rparr> dt format))
      else Ok None)"

definition toISOWeekDate :: "settings \<Rightarrow> intl \<Rightarrow> datetime \<Rightarrow> string option res" where
  [luxon_defs]: "toISOWeekDate E I dt = toTechFormat E I dt (''kkkk-'' @ [CHR 0x27] @ ''W'' @ [CHR 0x27] @ ''WW-c'') True"

definition toRFC2822 :: "settings \<Rightarrow> intl \<Rightarrow> datetime \<Rightarrow> string option res" where
  [luxon_defs]: "toRFC2822 E I dt = toTechFormat E I dt ''EEE, dd LLL yyyy HH:mm:ss ZZZ'' False"

definition toHTTP :: "settings \<Rightarrow> intl \<Rightarrow> datetime \<Rightarrow> string option res" where
  [luxon_defs]: "toHTTP E I dt = rbind (toUTC E dt 0 False) (\<lambda>u. toTechFormat E I u
     (''EEE, dd LLL yyyy HH:mm:ss '' @ [CHR 0x27] @ ''GMT'' @ [CHR 0x27]) True)"

record sql_opts =
  so_includeOffset :: bool
  so_includeZone :: bool
  so_includeOffsetSpace :: bool

definition sql_defaults :: sql_opts where
  [luxon_defs]: "sql_defaults =
     \<lparr>so_includeOffset = True, so_includeZone = False, so_includeOffsetSpace = True\<rparr>"

definition toSQLTime :: "settings \<Rightarrow> intl \<Rightarrow> datetime \<Rightarrow> sql_opts \<Rightarrow> string option res" where
  [luxon_defs]: "toSQLTime E I dt op = toTechFormat E I dt (''HH:mm:ss.SSS'' @
     (if so_includeZone op \<or> so_includeOffset op
      then (if so_includeOffsetSpace op then '' '' else []) @ (if so_includeZone op then ''z'' else ''ZZ'')
      else [])) True"

definition toSQL :: "settings \<Rightarrow> intl \<Rightarrow> datetime \<Rightarrow> sql_opts \<Rightarrow> string option res" where
  [luxon_defs]: "toSQL E I dt op =
     (if \<not> isValid dt then Ok None
      else rmap (\<lambda>t. Some (str_or_null (toSQLDate dt) @ '' '' @ str_or_null t)) (toSQLTime E I dt op))"

definition toLocaleString ::
  "settings \<Rightarrow> intl \<Rightarrow> datetime \<Rightarrow> dtf_opts \<Rightarrow> locale_opts option \<Rightarrow> string res" where
  [luxon_defs]: "toLocaleString E I dt formatOpts opts =
     (if isValid dt
      then rbind (Locale_clone E (dt_loc dt) opts False) (\<lambda>loc. dtf_format E I loc dt formatOpts)
      else Ok ''Invalid DateTime'')"

definition toLocaleParts ::
  "settings \<Rightarrow> intl \<Rightarrow> datetime \<Rightarrow> dtf_opts \<Rightarrow> locale_opts option \<Rightarrow> (string \<times> string) list res" where
  [luxon_defs]: "toLocaleParts E I dt formatOpts opts =
     (if isValid dt
      then rbind (Locale_clone E (dt_loc dt) opts False) (\<lambda>loc. dtf_parts E I loc dt formatOpts)
      else Ok [])"

subsection \<open>Texts of a duration\<close>

definition tokenToField :: "string \<Rightarrow> string option" where
  [luxon_defs]: "tokenToField tok = (case tok of [] \<Rightarrow> None
     | c # _ \<Rightarrow> map_of [(CHR ''S'', ''millisecond''), (CHR ''s'', ''second''), (CHR ''m'', ''minute''),
         (CHR ''h'', ''hour''), (CHR ''d'', ''day''), (CHR ''w'', ''week''), (CHR ''M'', ''month''),
         (CHR ''y'', ''year'')] c)"

definition formatDurationFromString :: "intl \<Rightarrow> formatter \<Rightarrow> duration \<Rightarrow> string \<Rightarrow> string res" where
  [luxon_defs]: "formatDurationFromString I F dur fmt =
     (let tokens = parseFormat fmt;
          realTokens = map tk_val (filter (\<lambda>t. \<not> tk_literal t) tokens)
      in rbind (shiftTo dur (List.map_filter tokenToField realTokens)) (\<lambda>collapsed.
         stringifyTokens tokens (\<lambda>tok. case tokenToField tok of
            None \<Rightarrow> Ok tok
          | Some mapped \<Rightarrow> rbind (Duration_get collapsed mapped)
              (\<lambda>n. Formatter_num I F n (length tok)))))"

definition Duration_toFormat :: "intl \<Rightarrow> duration \<Rightarrow> string \<Rightarrow> dtf_opts \<Rightarrow> bool \<Rightarrow> string res" where
  [luxon_defs]: "Duration_toFormat I d fmt other roundDown =
     (if Duration_isValid d
      then formatDurationFromString I
        \<lparr>fm_loc = d_loc d, fm_opts = no_fmt_opts\<lparr>fm_floor := roundDown, fm_other := other\<rparr>\<rparr> d fmt
      else Ok ''Invalid Duration'')"

definition Duration_toISO :: "duration \<Rightarrow> string option" where
  [luxon_defs]: "Duration_toISO d =
     (if \<not> Duration_isValid d then None
      else let v = dval (d_values d);
        part = (\<lambda>b x u. if b then show_rat x @ u else []);
        s = part (v Years \<noteq> 0) (v Years) ''Y'' @
            part (v Months \<noteq> 0 \<or> v Quarters \<noteq> 0) (v Months + v Quarters * 3) ''M'' @
            part (v Weeks \<noteq> 0) (v Weeks) ''W'' @ part (v Days \<noteq> 0) (v Days) ''D'' @
            (if v Hours \<noteq> 0 \<or> v Minutes \<noteq> 0 \<or> v Seconds \<noteq> 0 \<or> v Milliseconds \<noteq> 0 then ''T'' else []) @
            part (v Hours \<noteq> 0) (v Hours) ''H'' @ part (v Minutes \<noteq> 0) (v Minutes) ''M'' @
            part (v Seconds \<noteq> 0 \<or> v Milliseconds \<noteq> 0)
              (roundTo (v Seconds + v Milliseconds / 1000) 3 False) ''S''
      in Some (''P'' @ (if s = [] then ''T0S'' else s)))"

record iso_time_opts =
  it_suppressMilliseconds :: bool
  it_suppressSeconds :: bool
  it_includePrefix :: bool
  it_basic :: bool

definition Duration_toISOTime :: "intl \<Rightarrow> duration \<Rightarrow> iso_time_opts \<Rightarrow> string option res" where
  [luxon_defs]: "Duration_toISOTime I d op =
     (if \<not> Duration_isValid d then Ok None
      else rbind (Duration_toMillis d) (\<lambda>millis.
        if nless millis (Some 0) \<or> nle (Some 86400000) millis then Ok None
        else rbind (shiftTo d [''hours'', ''minutes'', ''seconds'', ''milliseconds'']) (\<lambda>value.
          let v = dval (d_values value);
              fmt = (if it_basic op then ''hhmm'' else ''hh:mm'') @
                (if \<not> it_suppressSeconds op \<or> v Seconds \<noteq> 0 \<or> v Milliseconds \<noteq> 0
                 then (if it_basic op then ''ss'' else '':ss'') @
                   (if \<not> it_suppressMilliseconds op \<or> v Milliseconds \<noteq> 0 then ''.SSS'' else [])
                 else [])
          in rmap (\<lambda>str. Some ((if it_includePrefix op then ''T'' else []) @ str))
               (Duration_toFormat I value fmt [] True))))"

end
