(* ===== verification/LuxonRelative.thy ===== *)
theory LuxonRelative
  imports LuxonFormat LuxonInterval
begin

text \<open>
  Relative times, durations and intervals in words, and the class \<open>Info\<close> (in \<open>ui/js/bundle.js\<close>). The
  default separator of \<open>Interval.toFormat\<close> is a dash with a code above 255: the separator is an
  argument here.
\<close>

subsection \<open>Relative times\<close>

text \<open>A unit in words: for one, for more, and the short form for more where it is another one.\<close>

definition relative_units :: "(string \<times> string \<times> string \<times> string option) list" where
  [luxon_defs]: "relative_units =
     [(''years'', (''year'', ''yr.'', None)), (''quarters'', (''quarter'', ''qtr.'', None)),
      (''months'', (''month'', ''mo.'', None)), (''weeks'', (''week'', ''wk.'', None)),
      (''days'', (''day'', ''day'', Some ''days'')), (''hours'', (''hour'', ''hr.'', None)),
      (''minutes'', (''minute'', ''min.'', None)), (''seconds'', (''second'', ''sec.'', None))]"

definition missing_unit :: "'a res" where
  [luxon_defs]: "missing_unit = Throw (TypeError ''Cannot read properties of undefined'')"

text \<open>\<open>past\<close> is the sign of the count, which JavaScript has for 0 as well.\<close>

definition formatRelativeTime :: "string \<Rightarrow> bool \<Rightarrow> num \<Rightarrow> string \<Rightarrow> bool \<Rightarrow> string res" where
  [luxon_defs]: "formatRelativeTime unit past count numeric narrow =
     (let lilUnits = map_of relative_units unit;
          lastable = (unit \<notin> {''hours'', ''minutes'', ''seconds''});
          isDay = (unit = ''days'');
          near = (\<lambda>day other. if isDay then Ok day
            else case lilUnits of None \<Rightarrow> missing_unit | Some (one, _) \<Rightarrow> Ok (other @ one));
          fmtValue = (case count of None \<Rightarrow> ''NaN'' | Some c \<Rightarrow> show_rat \<bar>c\<bar>);
          singular = (map_option abs count = Some 1);
          fmtUnit = (if narrow then (case lilUnits of None \<Rightarrow> missing_unit
              | Some (_, short, shorts) \<Rightarrow>
                  Ok (if singular then short else case shorts of Some w \<Rightarrow> w | None \<Rightarrow> short))
            else if singular then (case lilUnits of None \<Rightarrow> missing_unit | Some (one, _) \<Rightarrow> Ok one)
            else Ok unit)
      in if numeric = ''auto'' \<and> lastable \<and> count = Some 1 then near ''tomorrow'' ''next ''
         else if numeric = ''auto'' \<and> lastable \<and> count = Some (-1) then near ''yesterday'' ''last ''
         else if numeric = ''auto'' \<and> lastable \<and> count = Some 0 then near ''today'' ''this ''
         else rmap (\<lambda>u. if past then fmtValue @ '' '' @ u @ '' ago'' else ''in '' @ fmtValue @ '' '' @ u) fmtUnit)"

text \<open>The options, where an array of units replaces the default ones; \<open>None\<close> is a missing option.\<close>

datatype rel_unit = AnyUnit | OneUnit string | Units "string list"

record rel_opts =
  ro_base :: "datetime option"
  ro_style :: "string option"
  ro_unit :: rel_unit
  ro_round :: bool
  ro_padding :: rat
  ro_locale :: locale_opts

definition no_rel_opts :: rel_opts where
  [luxon_defs]: "no_rel_opts = \<lparr>ro_base = None, ro_style = None, ro_unit = AnyUnit, ro_round = True,
     ro_padding = 0, ro_locale = no_locale_opts\<rparr>"

text \<open>\<open>PolyRelFormatter\<close>.\<close>

definition PolyRel_format ::
  "intl \<Rightarrow> locale_obj \<Rightarrow> rel_opts \<Rightarrow> string \<Rightarrow> bool \<Rightarrow> num \<Rightarrow> string \<Rightarrow> string res" where
  [luxon_defs]: "PolyRel_format I loc opts numeric past count unit =
     rbind (isEnglish I loc) (\<lambda>en.
       case (if en then None else in_relative I) of
         Some rtf \<Rightarrow> (case count of
             None \<Rightarrow> Throw (RangeError ''Value need to be finite number for Intl.RelativeTimeFormat.prototype.format()'')
           | Some c \<Rightarrow> intl_call (rtf (l_intl loc)
               ((''numeric'', numeric) # (case ro_style opts of None \<Rightarrow> [] | Some st \<Rightarrow> [(''style'', st)]))
               past c unit))
       | None \<Rightarrow> formatRelativeTime unit past count numeric (ro_style opts \<notin> {None, Some ''long''}))"

definition rel_differ :: "settings \<Rightarrow> datetime \<Rightarrow> datetime \<Rightarrow> bool \<Rightarrow> string \<Rightarrow> num res" where
  [luxon_defs]: "rel_differ E start end_dt calendary unit =
     (if calendary then
        rbind (hasSame E end_dt start unit) (\<lambda>same.
          if same then Ok (Some 0)
          else rbind (startOf E end_dt unit) (\<lambda>e. rbind (startOf E start unit) (\<lambda>s.
            rbind (DateTime_diff E e s [unit] no_locale_opts False) (\<lambda>d. Duration_get d unit))))
      else rbind (DateTime_diff E end_dt start [unit] no_locale_opts False) (\<lambda>d. Duration_get d unit))"

text \<open>The count is cut towards 0, which keeps its sign.\<close>

definition rel_format :: "settings \<Rightarrow> intl \<Rightarrow> datetime \<Rightarrow> rel_opts \<Rightarrow> string \<Rightarrow> bool \<Rightarrow> bool \<Rightarrow>
  num \<Rightarrow> string \<Rightarrow> string res" where
  [luxon_defs]: "rel_format E I end_dt opts numeric calendary past c unit =
     rbind (Locale_clone E (dt_loc end_dt) (Some (ro_locale opts)) False) (\<lambda>loc.
       PolyRel_format I loc opts numeric past
         (map_option (\<lambda>x. roundTo x (if ro_round opts \<or> calendary then 0 else 2) True) c) unit)"

text \<open>The first unit the difference reaches.\<close>

fun rel_pick :: "(string \<Rightarrow> num res) \<Rightarrow> string list \<Rightarrow> (string \<times> num) option res" where
  "rel_pick f [] = Ok None"
| "rel_pick f (u # us) = rbind (f u) (\<lambda>count.
     if nle (Some 1) (map_option abs count) then Ok (Some (u, count)) else rel_pick f us)"

definition negative_count :: "num \<Rightarrow> bool" where
  [luxon_defs]: "negative_count c = nless c (Some 0)"

definition diffRelative :: "settings \<Rightarrow> intl \<Rightarrow> datetime \<Rightarrow> datetime \<Rightarrow> rel_opts \<Rightarrow> string \<Rightarrow> bool \<Rightarrow>
  string list \<Rightarrow> string res" where
  [luxon_defs]: "diffRelative E I start end_dt opts numeric calendary units =
     (let format = rel_format E I end_dt opts numeric calendary;
          differ = rel_differ E start end_dt calendary
      in case ro_unit opts of
           OneUnit unit \<Rightarrow> rbind (differ unit) (\<lambda>c. format (negative_count c) c unit)
         | _ \<Rightarrow> rbind (rel_pick differ units) (\<lambda>r. case r of
               Some (unit, count) \<Rightarrow> format (negative_count count) count unit
             | None \<Rightarrow> format (nless (toMillis end_dt) (toMillis start)) (Some 0)
                 (if units = [] then ''undefined'' else last units)))"

definition rel_base :: "settings \<Rightarrow> datetime \<Rightarrow> rel_opts \<Rightarrow> datetime res" where
  [luxon_defs]: "rel_base E dt opts = (case ro_base opts of Some b \<Rightarrow> Ok b
     | None \<Rightarrow> fromObject E [] (no_from_opts\<lparr>fo_zone := ZZone (dt_zone dt)\<rparr>))"

text \<open>\<open>None\<close> is \<open>null\<close>.\<close>

definition toRelative :: "settings \<Rightarrow> intl \<Rightarrow> datetime \<Rightarrow> rel_opts \<Rightarrow> string option res" where
  [luxon_defs]: "toRelative E I dt opts =
     (if \<not> isValid dt then Ok None
      else rbind (rel_base E dt opts) (\<lambda>base.
        let padding = (if ro_padding opts = 0 then 0
              else if nless (toMillis dt) (toMillis base) then - ro_padding opts else ro_padding opts);
            units = (case ro_unit opts of Units us \<Rightarrow> us
              | _ \<Rightarrow> [''years'', ''months'', ''days'', ''hours'', ''minutes'', ''seconds''])
        in rbind (plus E dt (DNumber (Some padding))) (\<lambda>d.
           rmap Some (diffRelative E I base d opts ''always'' False units))))"

definition toRelativeCalendar :: "settings \<Rightarrow> intl \<Rightarrow> datetime \<Rightarrow> rel_opts \<Rightarrow> string option res" where
  [luxon_defs]: "toRelativeCalendar E I dt opts =
     (if \<not> isValid dt then Ok None
      else rbind (rel_base E dt opts) (\<lambda>base.
        rmap Some (diffRelative E I base dt opts ''auto'' True [''years'', ''months'', ''days''])))"

subsection \<open>Durations and intervals\<close>

text \<open>\<open>Duration.toHuman\<close> with the options of the caller and its \<open>listStyle\<close>.\<close>

definition opts_extend :: "dtf_opts \<Rightarrow> dtf_opts \<Rightarrow> dtf_opts" where
  [luxon_defs]: "opts_extend a b = fold (\<lambda>(k, v) r. AList.update k v r) b a"

definition Duration_toHuman :: "intl \<Rightarrow> duration \<Rightarrow> dtf_opts \<Rightarrow> string res" where
  [luxon_defs]: "Duration_toHuman I d opts =
     rbind (mapM (\<lambda>u. case map_of (d_values d) u of
         None \<Rightarrow> Ok None
       | Some v \<Rightarrow> rbind (supportsFastNumbers I (d_loc d)) (\<lambda>fast. rmap Some
           (PolyNumber_format I (d_loc d) fast
             (no_fmt_opts\<lparr>fm_other := AList.update ''unit'' (butlast (dunit_name u))
               (opts_extend [(''style'', ''unit''), (''unitDisplay'', ''long'')] opts)\<rparr>) 0 v)))
       dunit_orderedUnits) (\<lambda>l.
     intl_call (in_list I (l_intl (d_loc d))
       (opts_extend [(''type'', ''conjunction''), (''style'', case js_or (map_of opts ''listStyle'') None of
          Some st \<Rightarrow> st | None \<Rightarrow> ''narrow'')] opts)
       (filter (\<lambda>w. w \<noteq> []) (map the (filter (\<lambda>w. w \<noteq> None) l)))))"

definition Interval_toFormat :: "settings \<Rightarrow> intl \<Rightarrow> interval \<Rightarrow> string \<Rightarrow> string \<Rightarrow> string res" where
  [luxon_defs]: "Interval_toFormat E I iv dateFormat separator = (case (iv_isValid iv, iv_s iv, iv_e iv) of
       (True, Some s, Some e) \<Rightarrow> rbind (toFormat E I s dateFormat no_locale_opts) (\<lambda>a.
         rmap (\<lambda>b. a @ separator @ b) (toFormat E I e dateFormat no_locale_opts))
     | _ \<Rightarrow> Ok ''Invalid Interval'')"

subsection \<open>Info\<close>

text \<open>A text as zone has no property \<open>isUniversal\<close>; \<open>null\<close> has no properties.\<close>

definition Info_hasDST :: "settings \<Rightarrow> zone_input \<Rightarrow> bool res" where
  [luxon_defs]: "Info_hasDST E zi =
     (let z = (case zi of ZUndefined \<Rightarrow> ZZone (defaultZone E) | _ \<Rightarrow> zi) in
      rbind (DateTime_now E) (\<lambda>now. rbind (setZone E now z False) (\<lambda>d.
      rbind (DateTime_set E d [(''month'', VNum 12)]) (\<lambda>proto.
        let differs = rmap (\<lambda>p. \<not> neq (dt_offset proto) (dt_offset p))
              (DateTime_set E proto [(''month'', VNum 6)])
        in case z of ZNull \<Rightarrow> Throw (TypeError ''Cannot read properties of null'')
           | ZZone z' \<Rightarrow> if zone_isUniversal z' then Ok False else differs
           | _ \<Rightarrow> differs))))"

definition Info_isValidIANAZone :: "settings \<Rightarrow> string \<Rightarrow> bool" where
  [luxon_defs]: "Info_isValidIANAZone E z = isValidZone E z"

definition Info_normalizeZone :: "settings \<Rightarrow> zone_input \<Rightarrow> zone" where
  [luxon_defs]: "Info_normalizeZone E zi = normalizeZone E zi (defaultZone E)"

text \<open>The locale of the options: an existing one, or one of a name, a numbering system and a calendar.\<close>

definition Info_locale :: "settings \<Rightarrow> locale_obj option \<Rightarrow> locale_opts \<Rightarrow> locale_obj res" where
  [luxon_defs]: "Info_locale E locObj lo = (case locObj of Some l \<Rightarrow> Ok l
     | None \<Rightarrow> Locale_create E (lo_locale lo) (lo_numberingSystem lo) (lo_outputCalendar lo) False)"

definition gregory :: "locale_opts \<Rightarrow> locale_opts" where
  [luxon_defs]: "gregory lo = lo\<lparr>lo_outputCalendar :=
     (case lo_outputCalendar lo of None \<Rightarrow> Some ''gregory'' | c \<Rightarrow> c)\<rparr>"

definition Info_months :: "settings \<Rightarrow> intl \<Rightarrow> string \<Rightarrow> locale_obj option \<Rightarrow> locale_opts \<Rightarrow> names res" where
  [luxon_defs]: "Info_months E I len locObj lo =
     rbind (Info_locale E locObj (gregory lo)) (\<lambda>l. Locale_months E I l len False)"

definition Info_monthsFormat :: "settings \<Rightarrow> intl \<Rightarrow> string \<Rightarrow> locale_obj option \<Rightarrow> locale_opts \<Rightarrow> names res" where
  [luxon_defs]: "Info_monthsFormat E I len locObj lo =
     rbind (Info_locale E locObj (gregory lo)) (\<lambda>l. Locale_months E I l len True)"

definition Info_weekdays :: "settings \<Rightarrow> intl \<Rightarrow> string \<Rightarrow> locale_obj option \<Rightarrow> locale_opts \<Rightarrow> names res" where
  [luxon_defs]: "Info_weekdays E I len locObj lo =
     rbind (Info_locale E locObj (lo\<lparr>lo_outputCalendar := None\<rparr>)) (\<lambda>l. Locale_weekdays E I l len False)"

definition Info_weekdaysFormat :: "settings \<Rightarrow> intl \<Rightarrow> string \<Rightarrow> locale_obj option \<Rightarrow> locale_opts \<Rightarrow> names res" where
  [luxon_defs]: "Info_weekdaysFormat E I len locObj lo =
     rbind (Info_locale E locObj (lo\<lparr>lo_outputCalendar := None\<rparr>)) (\<lambda>l. Locale_weekdays E I l len True)"

definition Info_meridiems :: "settings \<Rightarrow> intl \<Rightarrow> string option \<Rightarrow> names res" where
  [luxon_defs]: "Info_meridiems E I locale =
     rbind (Locale_create E locale None None False) (Locale_meridiems E I)"

definition Info_eras :: "settings \<Rightarrow> intl \<Rightarrow> string \<Rightarrow> string option \<Rightarrow> names res" where
  [luxon_defs]: "Info_eras E I len locale =
     rbind (Locale_create E locale None (Some ''gregory'') False) (\<lambda>l. Locale_eras E I l len)"

definition Info_features :: "intl \<Rightarrow> bool" where
  [luxon_defs]: "Info_features I = (in_relative I \<noteq> None)"

subsection \<open>Names of a date\<close>

definition name_at :: "int option \<Rightarrow> names res \<Rightarrow> string option res" where
  [luxon_defs]: "name_at i r = rbind r (\<lambda>ns. case (ns, i) of
       (Some ws, Some n) \<Rightarrow> Ok (if 1 \<le> n \<and> n \<le> int (length ws) then ws ! nat (n - 1) else None)
     | (None, _) \<Rightarrow> Throw (TypeError ''Cannot read properties of null'')
     | _ \<Rightarrow> Ok None)"

definition monthName :: "settings \<Rightarrow> intl \<Rightarrow> datetime \<Rightarrow> string \<Rightarrow> string option res" where
  [luxon_defs]: "monthName E I dt len = (if isValid dt
     then name_at (month dt) (Info_months E I len (Some (dt_loc dt)) no_locale_opts) else Ok None)"

definition weekdayName :: "settings \<Rightarrow> intl \<Rightarrow> datetime \<Rightarrow> string \<Rightarrow> string option res" where
  [luxon_defs]: "weekdayName E I dt len = (if isValid dt
     then name_at (weekday dt) (Info_weekdays E I len (Some (dt_loc dt)) no_locale_opts) else Ok None)"

definition offsetName :: "settings \<Rightarrow> intl \<Rightarrow> datetime \<Rightarrow> string \<Rightarrow> string option res" where
  [luxon_defs]: "offsetName E I dt format = (if isValid dt
     then zone_offsetName E I (dt_zone dt) (dt_ts dt) format (l_locale (dt_loc dt)) else Ok None)"

end
