(* ===== verification/LuxonTokens.thy ===== *)
theory LuxonTokens
  imports LuxonFormat
begin

text \<open>
  Reading by format strings (the token parser and \<open>DateTime.fromFormat\<close> in \<open>ui/js/bundle.js\<close>): a
  format is cut into tokens, the tokens of a localized format are expanded, each token becomes a unit
  with an expression and a reader, the expressions are matched together, and what the units read is
  put together to an object of units.

  Names that come from \<open>Intl\<close> are taken literally: those with special characters of regular
  expressions other than the point are outside the model.
\<close>

subsection \<open>Digits\<close>

text \<open>The digits of the other numbering systems have codes above 255. The class of \<open>hanidec\<close> also holds
  the bars that are written between its digits.\<close>

definition numberingSystems :: "string list" where
  [luxon_defs]: "numberingSystems = [''arab'', ''arabext'', ''bali'', ''beng'', ''deva'', ''fullwide'', ''gujr'',
     ''hanidec'', ''khmr'', ''knda'', ''laoo'', ''limb'', ''mlym'', ''mong'', ''mymr'', ''orya'', ''tamldec'',
     ''telu'', ''thai'', ''tibt'', ''latn'']"

definition same_char :: "char \<Rightarrow> rx" where
  [luxon_defs]: "same_char c = Cls (\<lambda>x. lower_char x = lower_char c) 1 1"

text \<open>The expressions are matched with the flag \<open>i\<close>.\<close>

definition text_rx :: "string \<Rightarrow> rx" where
  [luxon_defs]: "text_rx w = seq (map same_char w)"

text \<open>The class of the digits, \<open>mn\<close> to \<open>mx\<close> times. A numbering system the table does not have gives
  the expression \<open>undefined\<close>, whose last character is repeated.\<close>

definition digitRegex :: "locale_obj \<Rightarrow> nat \<Rightarrow> nat \<Rightarrow> rx" where
  [luxon_defs]: "digitRegex loc mn mx =
     (let n = (case l_numberingSystem loc of None \<Rightarrow> ''latn'' | Some n \<Rightarrow> n) in
      if n = ''latn'' then digits mn mx
      else if n = ''hanidec'' then Cls (\<lambda>c. c = CHR ''|'') mn mx
      else if n \<in> set numberingSystems then Cls (\<lambda>_. False) mn mx
      else Cat (text_rx ''undefine'') (Cls (\<lambda>x. lower_char x = CHR ''d'') mn mx))"

definition parseDigits :: "string \<Rightarrow> int uval" where
  [luxon_defs]: "parseDigits str = (case parseInt str of
       Some n \<Rightarrow> VNum n
     | None \<Rightarrow> (case parseInt (concat (map (\<lambda>c. if c = CHR ''|'' then ''-1'' else []) str)) of
         Some n \<Rightarrow> VNum n | None \<Rightarrow> VNaN))"

subsection \<open>Units\<close>

text \<open>What a unit reads: a number or a text.\<close>

datatype matched = MVal "int uval" | MStr string

text \<open>The expression takes the number of the first group it binds; the reader takes the text of the
  whole unit and of its groups.\<close>

record token_unit =
  un_regex :: "nat \<Rightarrow> rx"
  un_deser :: "string option list \<Rightarrow> matched"
  un_groups :: nat
  un_literal :: bool
  un_token :: token

definition whole_text :: "string option list \<Rightarrow> string" where
  [luxon_defs]: "whole_text ms = (case ms of Some s # _ \<Rightarrow> s | _ \<Rightarrow> [])"

definition uval_map :: "('n \<Rightarrow> 'n) \<Rightarrow> 'n uval \<Rightarrow> 'n uval" where
  [luxon_defs]: "uval_map f v = (case v of VNum n \<Rightarrow> VNum (f n) | _ \<Rightarrow> v)"

definition intUnit :: "token \<Rightarrow> rx \<Rightarrow> (int \<Rightarrow> int) \<Rightarrow> token_unit" where
  [luxon_defs]: "intUnit t regex post = \<lparr>un_regex = (\<lambda>_. regex),
     un_deser = (\<lambda>ms. MVal (uval_map post (parseDigits (whole_text ms)))),
     un_groups = 0, un_literal = False, un_token = t\<rparr>"

definition space_or_nbsp :: "char \<Rightarrow> bool" where
  [luxon_defs]: "space_or_nbsp c \<longleftrightarrow> c = CHR '' '' \<or> c = CHR 0xA0"

definition fixListRegex :: "string \<Rightarrow> rx" where
  [luxon_defs]: "fixListRegex s = seq (map (\<lambda>c. if c = CHR ''.'' then Opt (Lit ''.'')
     else if space_or_nbsp c then Cls space_or_nbsp 1 1 else same_char c) s)"

definition stripInsensitivities :: "string \<Rightarrow> string" where
  [luxon_defs]: "stripInsensitivities s = toLowerCase
     (map (\<lambda>c. if space_or_nbsp c then CHR '' '' else c) (filter (\<lambda>c. c \<noteq> CHR ''.'') s))"

fun alternatives :: "rx list \<Rightarrow> rx" where
  "alternatives [] = Lit []"
| "alternatives [r] = r"
| "alternatives (r # rs) = Alt r (alternatives rs)"

text \<open>A name that is \<open>null\<close> makes the constructor fail, a missing list makes the unit invalid.\<close>

definition oneOf :: "token \<Rightarrow> names \<Rightarrow> int \<Rightarrow> token_unit option res" where
  [luxon_defs]: "oneOf t strings startIndex = (case strings of None \<Rightarrow> Ok None
     | Some ss \<Rightarrow> if None \<in> set ss
         then Throw (TypeError ''Cannot read properties of null'')
         else Ok (Some \<lparr>un_regex = (\<lambda>_. alternatives (map (fixListRegex \<circ> the) ss)),
           un_deser = (\<lambda>ms. MVal (VNum (findIndex
              (\<lambda>i. stripInsensitivities (whole_text ms) = stripInsensitivities (the i)) ss 0 + startIndex))),
           un_groups = 0, un_literal = False, un_token = t\<rparr>))"

definition offset_unit :: "token \<Rightarrow> (nat \<Rightarrow> rx) \<Rightarrow> nat \<Rightarrow> token_unit" where
  [luxon_defs]: "offset_unit t regex groups = \<lparr>un_regex = regex,
     un_deser = (\<lambda>ms. MVal (VNum (signedOffset (ms ! 1) (ms ! 2)))),
     un_groups = groups, un_literal = False, un_token = t\<rparr>"

definition simple_unit :: "token \<Rightarrow> rx \<Rightarrow> token_unit" where
  [luxon_defs]: "simple_unit t regex = \<lparr>un_regex = (\<lambda>_. regex), un_deser = (\<lambda>ms. MStr (whole_text ms)),
     un_groups = 0, un_literal = False, un_token = t\<rparr>"

definition literal_unit :: "token \<Rightarrow> token_unit" where
  [luxon_defs]: "literal_unit t = \<lparr>un_regex = (\<lambda>_. text_rx (tk_val t)), un_deser = (\<lambda>ms. MStr (whole_text ms)),
     un_groups = 0, un_literal = True, un_token = t\<rparr>"

text \<open>The tokens that are read as numbers: the least and the greatest number of digits.\<close>

definition number_tokens :: "(string \<times> nat \<times> nat) list" where
  [luxon_defs]: "number_tokens =
     [(''y'', (1, 6)), (''yy'', (2, 4)), (''yyyy'', (4, 4)), (''yyyyy'', (4, 6)), (''yyyyyy'', (6, 6)),
      (''M'', (1, 2)), (''MM'', (2, 2)), (''L'', (1, 2)), (''LL'', (2, 2)), (''d'', (1, 2)), (''dd'', (2, 2)),
      (''o'', (1, 3)), (''ooo'', (3, 3)), (''HH'', (2, 2)), (''H'', (1, 2)), (''hh'', (2, 2)), (''h'', (1, 2)),
      (''mm'', (2, 2)), (''m'', (1, 2)), (''q'', (1, 2)), (''qq'', (2, 2)), (''s'', (1, 2)), (''ss'', (2, 2)),
      (''S'', (1, 3)), (''SSS'', (3, 3)), (''uuu'', (1, 1)), (''kkkk'', (4, 4)), (''kk'', (2, 4)),
      (''W'', (1, 2)), (''WW'', (2, 2)), (''E'', (1, 1)), (''c'', (1, 1))]"

text \<open>The tokens that are read as one of a list of names: the list and the number of its first entry.\<close>

definition name_token :: "settings \<Rightarrow> intl \<Rightarrow> locale_obj \<Rightarrow> string \<Rightarrow> (names res \<times> int) option" where
  [luxon_defs]: "name_token E I loc tok = map_of
     [(''G'', (Locale_eras E I loc ''short'', 0)), (''GG'', (Locale_eras E I loc ''long'', 0)),
      (''MMM'', (Locale_months E I loc ''short'' True, 1)), (''MMMM'', (Locale_months E I loc ''long'' True, 1)),
      (''LLL'', (Locale_months E I loc ''short'' False, 1)),
      (''LLLL'', (Locale_months E I loc ''long'' False, 1)),
      (''a'', (Locale_meridiems E I loc, 0)),
      (''EEE'', (Locale_weekdays E I loc ''short'' False, 1)),
      (''EEEE'', (Locale_weekdays E I loc ''long'' False, 1)),
      (''ccc'', (Locale_weekdays E I loc ''short'' True, 1)),
      (''cccc'', (Locale_weekdays E I loc ''long'' True, 1))] tok"

definition zone_char :: "char \<Rightarrow> bool" where
  [luxon_defs]: "zone_char c \<longleftrightarrow> 65 \<le> code c \<and> code c \<le> 90 \<or> 97 \<le> code c \<and> code c \<le> 122 \<or>
     c = CHR ''_'' \<or> 43 \<le> code c \<and> code c \<le> 47"

text \<open>An offset of hours and minutes; \<open>ZZZ\<close> writes it without the colon.\<close>

definition offset_rx :: "locale_obj \<Rightarrow> bool \<Rightarrow> nat \<Rightarrow> rx" where
  [luxon_defs]: "offset_rx loc colon n = Cat (Grp n (Cat sign_class (digitRegex loc 1 2)))
     (Opt (let m = Grp (n + 1) (digitRegex loc 2 2) in if colon then Cat (Lit '':'') m else m))"

text \<open>The unit of a token, \<open>None\<close> for an invalid one.\<close>

definition unitForToken :: "settings \<Rightarrow> intl \<Rightarrow> locale_obj \<Rightarrow> token \<Rightarrow> token_unit option res" where
  [luxon_defs]: "unitForToken E I loc t =
     (let v = tk_val t in
      if tk_literal t then Ok (Some (literal_unit t))
      else case map_of number_tokens v of
        Some (mn, mx) \<Rightarrow> Ok (Some (intUnit t (digitRegex loc mn mx)
          (if v = ''yy'' \<or> v = ''kk'' then untruncateYear else (\<lambda>i. i))))
      | None \<Rightarrow> (case name_token E I loc v of
          Some (names, startIndex) \<Rightarrow> rbind names (\<lambda>ss. oneOf t ss startIndex)
      | None \<Rightarrow>
          if v = ''Z'' \<or> v = ''ZZ'' then Ok (Some (offset_unit t (offset_rx loc True) 2))
          else if v = ''ZZZ'' then Ok (Some (offset_unit t (offset_rx loc False) 2))
          else if v = ''u'' then Ok (Some (simple_unit t (digitRegex loc 1 9)))
          else if v = ''uu'' then Ok (Some (simple_unit t (digitRegex loc 1 2)))
          else if v = ''z'' then Ok (Some (simple_unit t (ClsLazy zone_char 1 256)))
          else Ok (Some (literal_unit t))))"

subsection \<open>Tokens of localized formats\<close>

text \<open>The token of a part \<open>Intl\<close> formats, by the type of the part and the style that was asked for.\<close>

definition partTypeStyleToTokenVal :: "string \<Rightarrow> string option \<Rightarrow> string option" where
  [luxon_defs]: "partTypeStyleToTokenVal type style =
     (if type = ''dayperiod'' \<or> type = ''dayPeriod'' then Some ''a''
      else Option.bind (map_of
        [(''year'', [(''2-digit'', ''yy''), (''numeric'', ''yyyyy'')]),
         (''month'', [(''numeric'', ''M''), (''2-digit'', ''MM''), (''short'', ''MMM''), (''long'', ''MMMM'')]),
         (''day'', [(''numeric'', ''d''), (''2-digit'', ''dd'')]),
         (''weekday'', [(''short'', ''EEE''), (''long'', ''EEEE'')]),
         (''hour'', [(''numeric'', ''h''), (''2-digit'', ''hh'')]),
         (''minute'', [(''numeric'', ''m''), (''2-digit'', ''mm'')]),
         (''second'', [(''numeric'', ''s''), (''2-digit'', ''ss'')])] type)
        (\<lambda>styles. Option.bind style (map_of styles)))"

definition tokenForPart :: "dtf_opts \<Rightarrow> string \<times> string \<Rightarrow> token option" where
  [luxon_defs]: "tokenForPart formatOpts part =
     (if fst part = ''literal'' then Some \<lparr>tk_literal = True, tk_val = snd part\<rparr>
      else map_option (\<lambda>v. \<lparr>tk_literal = False, tk_val = v\<rparr>)
        (partTypeStyleToTokenVal (fst part) (map_of formatOpts (fst part))))"

definition getDummyDateTime :: "settings \<Rightarrow> datetime res" where
  [luxon_defs]: "getDummyDateTime E = fromMillis E (Some 1555555555555) ZUndefined no_locale_opts"

definition maybeExpandMacroToken :: "settings \<Rightarrow> intl \<Rightarrow> locale_obj \<Rightarrow> token \<Rightarrow> token list res" where
  [luxon_defs]: "maybeExpandMacroToken E I loc t =
     (if tk_literal t then Ok [t]
      else case macroTokenToFormatOpts (tk_val t) of
        None \<Rightarrow> Ok [t]
      | Some formatOpts \<Rightarrow> rbind (getDummyDateTime E) (\<lambda>dummy.
          rmap (\<lambda>parts. let tokens = map (tokenForPart formatOpts) parts in
              if None \<in> set tokens then [t] else map the tokens)
            (dtf_parts E I loc dummy formatOpts)))"

definition expandMacroTokens :: "settings \<Rightarrow> intl \<Rightarrow> locale_obj \<Rightarrow> token list \<Rightarrow> token list res" where
  [luxon_defs]: "expandMacroTokens E I loc tokens = rmap concat (mapM (maybeExpandMacroToken E I loc) tokens)"

subsection \<open>Matching\<close>

fun unit_rxs :: "nat \<Rightarrow> token_unit list \<Rightarrow> rx list" where
  "unit_rxs n [] = []"
| "unit_rxs n (u # us) = Grp n (un_regex u (n + 1)) # unit_rxs (n + 1 + un_groups u) us"

definition buildRegex :: "token_unit list \<Rightarrow> rx" where
  [luxon_defs]: "buildRegex units = seq (unit_rxs 1 units)"

text \<open>What the units read, by the first character of the token; a later unit replaces an earlier one
  of the same character.\<close>

type_synonym matches = "(char \<times> matched) list"

fun collect :: "groups \<Rightarrow> nat \<Rightarrow> token_unit list \<Rightarrow> matches \<Rightarrow> matches" where
  "collect g n [] all = all"
| "collect g n (u # us) all =
     collect g (n + 1 + un_groups u) us
       (if un_literal u then all
        else AList.update (hd (tk_val (un_token u)))
          (un_deser u (map g [n..<n + 1 + un_groups u])) all)"

text \<open>\<open>match\<close>: the groups, and what the units read, which is nothing without a match.\<close>

definition match_units :: "string \<Rightarrow> token_unit list \<Rightarrow> groups option \<times> matches" where
  [luxon_defs]: "match_units input units = (case exec_full (buildRegex units) input of
       Some g \<Rightarrow> (Some g, collect g 1 units [])
     | None \<Rightarrow> (None, []))"

definition toField :: "char \<Rightarrow> string option" where
  [luxon_defs]: "toField tok = map_of
     [(CHR ''S'', ''millisecond''), (CHR ''s'', ''second''), (CHR ''m'', ''minute''), (CHR ''h'', ''hour''),
      (CHR ''H'', ''hour''), (CHR ''d'', ''day''), (CHR ''o'', ''ordinal''), (CHR ''L'', ''month''),
      (CHR ''M'', ''month''), (CHR ''y'', ''year''), (CHR ''E'', ''weekday''), (CHR ''c'', ''weekday''),
      (CHR ''W'', ''weekNumber''), (CHR ''k'', ''weekYear''), (CHR ''q'', ''quarter'')] tok"

text \<open>The steps of \<open>dateTimeFromMatches\<close> that change the matches: the quarter sets the month, the
  half of the day the hour, the era the sign of the year, the fraction the millisecond (\<open>NaN\<close> is the
  fraction \<open>"0.NaN"\<close>, which is read as 0).\<close>

definition with_quarter :: "matches \<Rightarrow> matches" where
  [luxon_defs]: "with_quarter ms = (case map_of ms (CHR ''q'') of
       Some (MVal q) \<Rightarrow> AList.update (CHR ''M'') (MVal (uval_map (\<lambda>n. (n - 1) * 3 + 1) q)) ms
     | _ \<Rightarrow> ms)"

definition with_meridiem :: "matches \<Rightarrow> matches" where
  [luxon_defs]: "with_meridiem ms = (case (map_of ms (CHR ''h''), map_of ms (CHR ''a'')) of
       (Some (MVal (VNum h)), Some (MVal (VNum a))) \<Rightarrow>
         if h < 12 \<and> a = 1 then AList.update (CHR ''h'') (MVal (VNum (h + 12))) ms
         else if h = 12 \<and> a = 0 then AList.update (CHR ''h'') (MVal (VNum 0)) ms
         else ms
     | _ \<Rightarrow> ms)"

definition with_era :: "matches \<Rightarrow> matches" where
  [luxon_defs]: "with_era ms = (case (map_of ms (CHR ''G''), map_of ms (CHR ''y'')) of
       (Some (MVal (VNum G)), Some (MVal (VNum y))) \<Rightarrow>
         if G = 0 \<and> y \<noteq> 0 then AList.update (CHR ''y'') (MVal (VNum (- y))) ms else ms
     | _ \<Rightarrow> ms)"

definition with_fraction_digits :: "matches \<Rightarrow> matches" where
  [luxon_defs]: "with_fraction_digits ms = (case map_of ms (CHR ''u'') of
       Some (MStr u) \<Rightarrow> AList.update (CHR ''S'') (MVal (parseMillis (Some u))) ms
     | Some (MVal (VNum n)) \<Rightarrow> AList.update (CHR ''S'') (MVal (parseMillis (Some (show_int n)))) ms
     | Some (MVal v) \<Rightarrow> AList.update (CHR ''S'') (MVal (VNum 0)) ms
     | None \<Rightarrow> ms)"

definition matched_fields :: "matches \<Rightarrow> int fields" where
  [luxon_defs]: "matched_fields ms = fold (\<lambda>(k, m) r. case (toField k, m) of
       (Some f, MVal v) \<Rightarrow> AList.update f v r | _ \<Rightarrow> r) ms []"

text \<open>The fields, the zone the text names and the offset it gives.\<close>

definition dateTimeFromMatches :: "settings \<Rightarrow> matches \<Rightarrow> int fields \<times> zone option \<times> rat option" where
  [luxon_defs]: "dateTimeFromMatches E ms =
     (let named = (case map_of ms (CHR ''z'') of Some (MStr z) \<Rightarrow> Some (IANAZone_create E z) | _ \<Rightarrow> None);
          off = (case map_of ms (CHR ''Z'') of Some (MVal (VNum n)) \<Rightarrow> Some (of_int n :: rat) | _ \<Rightarrow> None);
          zone = (case named of Some z \<Rightarrow> Some z | None \<Rightarrow> map_option FixedOffsetZone off)
      in (matched_fields (with_fraction_digits (with_era (with_meridiem (with_quarter ms)))), zone, off))"

subsection \<open>Reading a date\<close>

text \<open>A unit that is invalid ends the explanation early.\<close>

datatype explanation =
    Invalid_tokens string "token list" string
  | Explained (ex_input: string) (ex_tokens: "token list") (ex_regex: rx) (ex_rawMatches: "groups option")
      (ex_matches: matches) (ex_result: "int fields") (ex_zone: "zone option") (ex_offset: "rat option")

definition MISSING_FTP :: string where
  [luxon_defs]: "MISSING_FTP = ''missing Intl.DateTimeFormat.formatToParts support''"

definition explainFromTokens :: "settings \<Rightarrow> intl \<Rightarrow> locale_obj \<Rightarrow> string \<Rightarrow> string \<Rightarrow> explanation res" where
  [luxon_defs]: "explainFromTokens E I loc input format =
     rbind (expandMacroTokens E I loc (parseFormat format)) (\<lambda>tokens.
     rbind (mapM (unitForToken E I loc) tokens) (\<lambda>units.
       if list_ex Option.is_none units then Ok (Invalid_tokens input tokens MISSING_FTP)
       else let us = map the units;
              (rawMatches, matches) = match_units input us;
              (result, zone, specificOffset) = dateTimeFromMatches E matches
            in if CHR ''a'' \<in> fst ` set matches \<and> CHR ''H'' \<in> fst ` set matches
               then Throw (ConflictingSpecificationError
                 ''Can't include meridiem when specifying 24-hour format'')
               else Ok (Explained input tokens (buildRegex us) rawMatches matches result zone
                 specificOffset)))"

definition fromFormatExplain :: "settings \<Rightarrow> intl \<Rightarrow> string \<Rightarrow> string \<Rightarrow> locale_opts \<Rightarrow> explanation res" where
  [luxon_defs]: "fromFormatExplain E I txt fmt opts =
     rbind (Locale_create E (lo_locale opts) (lo_numberingSystem opts) None True)
       (\<lambda>loc. explainFromTokens E I loc txt fmt)"

definition fromFormat :: "settings \<Rightarrow> intl \<Rightarrow> string \<Rightarrow> string \<Rightarrow> from_opts \<Rightarrow> datetime res" where
  [luxon_defs]: "fromFormat E I txt fmt opts =
     rbind (fromFormatExplain E I txt fmt (fo_locale opts)) (\<lambda>e. case e of
         Invalid_tokens _ _ invalidReason \<Rightarrow> DateTime_invalid E (Invalid invalidReason None)
       | Explained _ _ _ _ _ vals parsedZone specificOffset \<Rightarrow>
           parseDataToDateTime E (Some vals) parsedZone opts (''format '' @ fmt) txt specificOffset)"

end
