(* ===== verification/TokenLaws.thy ===== *)
theory TokenLaws
  imports LuxonTokens ISOLaws WeekLaws
begin

text \<open>
  Output by a format reads back by the same format: the tokens for which this is shown and the text each
  of them has, the match of the expressions on the texts, the object of units the reader builds, and
  the date \<open>DateTime.fromObject\<close> makes of it in a zone of constant offset.
\<close>

subsection \<open>Formats\<close>

text \<open>The tokens of a format are its characters, the quotes left out; a quoted part is one token, and so
  is each run of one character outside the quotes.\<close>

definition unquoted :: "string \<Rightarrow> string" where
  "unquoted fmt = filter (\<lambda>c. c \<noteq> CHR 0x27) fmt"

definition run_token :: "token \<Rightarrow> bool" where
  "run_token t \<longleftrightarrow> tk_val t \<noteq> [] \<and> (tk_literal t \<or> (\<forall>c\<in>set (tk_val t). c = hd (tk_val t)))"

lemma push_token_text [simp]: "concat (map tk_val (push_token b full splits)) = concat (map tk_val splits) @ full"
  by (simp add: push_token_def)

lemma parseFormat_from_text:
  "concat (map tk_val (parseFormat_from cur full br splits cs))
    = concat (map tk_val splits) @ full @ unquoted cs"
proof (induction cs arbitrary: cur full br splits)
  case (Cons c cs)
  show ?case unfolding parseFormat_from.simps by (simp only: Cons.IH split: if_split) (simp add: unquoted_def)
qed (simp add: unquoted_def)

lemma push_token_runs:
  assumes "\<forall>t\<in>set splits. run_token t" "br \<or> (\<forall>c\<in>set full. Some c = cur)"
  shows "\<forall>t\<in>set (push_token br full splits). run_token t"
proof (cases full)
  case (Cons d ds)
  then have "run_token \<lparr>tk_literal = br, tk_val = full\<rparr>"
    using assms(2) by (cases cur) (auto simp: run_token_def)
  with assms(1) Cons show ?thesis by (simp add: push_token_def)
qed (use assms in \<open>simp add: push_token_def\<close>)

lemma parseFormat_from_runs:
  "(\<forall>t\<in>set splits. run_token t) \<Longrightarrow> (br \<or> (\<forall>c\<in>set full. Some c = cur)) \<Longrightarrow>
   (\<forall>t\<in>set (parseFormat_from cur full br splits cs). run_token t)"
proof (induction cs arbitrary: cur full br splits)
  case Nil
  then show ?case using push_token_runs by (simp only: parseFormat_from.simps)
next
  case (Cons c cs)
  note push = push_token_runs [OF Cons.prems]
  consider "c = CHR 0x27" | "c \<noteq> CHR 0x27" "br" | "c \<noteq> CHR 0x27" "\<not> br" "cur = Some c"
    | "c \<noteq> CHR 0x27" "\<not> br" "cur \<noteq> Some c" by blast
  then show ?case
  proof cases
    case 1 then show ?thesis using Cons.IH [OF push, of "\<not> br" "[]" None] by simp
  next
    case 2 then show ?thesis using Cons.IH [OF Cons.prems(1), of True "full @ [c]" cur] by simp
  next
    case 3 then show ?thesis using Cons.prems Cons.IH [OF Cons.prems(1), of False "full @ [c]" "Some c"] by simp
  next
    case 4 then show ?thesis using push Cons.IH [of "push_token False full splits" False "[c]" "Some c"] by simp
  qed
qed

lemma parseFormat_tokens: "t \<in> set (parseFormat fmt) \<Longrightarrow> run_token t"
  using parseFormat_from_runs [of "[]" False "[]" None fmt] by (auto simp: parseFormat_def)

lemma parseFormat_text: "concat (map tk_val (parseFormat fmt)) = unquoted fmt"
  by (simp add: parseFormat_def parseFormat_from_text)

subsection \<open>Tokens and their texts\<close>

text \<open>The value a token of a first character stands for.\<close>

definition char_value :: "cal \<Rightarrow> char \<Rightarrow> int" where
  "char_value c k =
     (if k = CHR ''y'' then c_year c else if k \<in> {CHR ''M'', CHR ''L''} then c_month c
      else if k = CHR ''d'' then c_day c else if k = CHR ''H'' then c_hour c
      else if k = CHR ''m'' then c_minute c else if k = CHR ''s'' then c_second c
      else if k = CHR ''S'' then c_millisecond c else iso_day (day_no c))"

definition padded :: "(string \<times> nat) list" where
  "padded = [(''yyyy'', 4), (''MM'', 2), (''LL'', 2), (''dd'', 2), (''HH'', 2), (''mm'', 2), (''ss'', 2), (''SSS'', 3)]"

text \<open>The tokens that are not padded, with the most digits they have.\<close>

definition bare :: "(string \<times> nat) list" where
  "bare = [(''M'', 2), (''L'', 2), (''d'', 2), (''H'', 2), (''m'', 2), (''s'', 2), (''S'', 3), (''E'', 1), (''c'', 1)]"

definition named :: "(string \<times> string list) list" where
  "named = [(''MMM'', monthsShort), (''LLL'', monthsShort), (''MMMM'', monthsLong), (''LLLL'', monthsLong),
     (''EEE'', weekdaysShort), (''ccc'', weekdaysShort), (''EEEE'', weekdaysLong), (''cccc'', weekdaysLong)]"

definition letter :: "char \<Rightarrow> bool" where
  "letter c \<longleftrightarrow> 65 \<le> code c \<and> code c \<le> 90 \<or> 97 \<le> code c \<and> code c \<le> 122"

text \<open>A quoted text, or one without letters, stands for itself.\<close>

definition verbatim :: "token \<Rightarrow> bool" where
  "verbatim t \<longleftrightarrow> tk_literal t \<or> tk_val t \<noteq> [] \<and> \<not> letter (hd (tk_val t))"

definition plain_token :: "token \<Rightarrow> bool" where
  "plain_token t \<longleftrightarrow> verbatim t \<or> tk_val t \<in> fst ` set padded \<or> tk_val t \<in> fst ` set bare \<or>
     tk_val t \<in> fst ` set named"

definition token_text :: "cal \<Rightarrow> token \<Rightarrow> string" where
  "token_text c t = (let v = tk_val t; n = char_value c (hd v) in
     if verbatim t then v
     else case map_of padded v of Some k \<Rightarrow> padStart n k
     | None \<Rightarrow> (case map_of named v of Some ws \<Rightarrow> ws ! nat (n - 1) | None \<Rightarrow> show_int n))"

text \<open>A token that is not padded is followed by something that is no digit.\<close>

definition starts_apart :: "token \<Rightarrow> bool" where
  "starts_apart t \<longleftrightarrow> verbatim t \<and> tk_val t \<noteq> [] \<and> \<not> is_digit (hd (tk_val t)) \<or>
     \<not> verbatim t \<and> tk_val t \<in> fst ` set named"

fun separated :: "token list \<Rightarrow> bool" where
  "separated [] = True"
| "separated (t # ts) =
     ((\<not> verbatim t \<and> tk_val t \<in> fst ` set bare \<longrightarrow> (case ts of [] \<Rightarrow> True | u # _ \<Rightarrow> starts_apart u))
      \<and> separated ts)"

text \<open>The first characters of the tokens that are read as a value.\<close>

definition token_keys :: "token list \<Rightarrow> char set" where
  "token_keys ts = set (map (\<lambda>t. hd (tk_val t)) (filter (\<lambda>t. \<not> verbatim t) ts))"

definition complete_keys :: "char set \<Rightarrow> bool" where
  "complete_keys K \<longleftrightarrow> set ''ydHmsS'' \<subseteq> K \<and> (CHR ''M'' \<in> K \<or> CHR ''L'' \<in> K)"

text \<open>A format that determines a point in time.\<close>

definition complete_format :: "string \<Rightarrow> bool" where
  "complete_format fmt \<longleftrightarrow> (let ts = parseFormat fmt in
     list_all plain_token ts \<and> separated ts \<and> complete_keys (token_keys ts))"

text \<open>The locale with the English names and the Latin digits.\<close>

definition english :: "locale_obj \<Rightarrow> bool" where
  "english loc \<longleftrightarrow> l_locale loc = ''en-US'' \<and> l_numberingSystem loc = None \<and> l_outputCalendar loc = None"

subsection \<open>The text of a date\<close>

lemma Formatter_num_int:
  assumes "english (fm_loc F)" "fm_opts F = no_fmt_opts"
  shows "Formatter_num I F (Some (of_int n)) p = Ok (padStart n p)"
proof -
  have "roundTo (of_int n) 3 False = of_int n"
  proof -
    have "(of_int n * 10 ^ 3 + 1 / 2 :: rat) = of_int (n * 1000) + 1 / 2" by simp
    moreover have "\<lfloor>of_int (n * 1000) + 1 / 2 :: rat\<rfloor> = n * 1000" by linarith
    ultimately have "\<lfloor>of_int n * 10 ^ 3 + 1 / 2 :: rat\<rfloor> = n * 1000" by (simp only:)
    then show ?thesis by (simp add: roundTo_def Let_def)
  qed
  with assms show ?thesis
    by (simp add: Formatter_num_def english_def no_fmt_opts_def supportsFastNumbers_def startsWith_def
        PolyNumber_format_def)
qed

lemma padStart_0: "0 \<le> n \<Longrightarrow> padStart n 0 = show_int n"
  by (simp add: padStart_def pad_start_def)

lemma map_of_no_letter:
  "\<not> letter (hd v) \<Longrightarrow> list_all (\<lambda>(k, _). letter (hd k)) xs \<Longrightarrow> map_of xs v = None"
  by (auto simp: map_of_eq_None_iff list_all_iff)

text \<open>The values are numbers that are not negative, with at most the digits of their tokens.\<close>

lemma char_value_bounds:
  assumes "valid_cal c" "0 \<le> c_year c" "c_year c < 10000"
  shows "0 \<le> char_value c k" "list_all (\<lambda>(v, n). char_value c (hd v) < 10 ^ n) padded"
    "list_all (\<lambda>(v, n). char_value c (hd v) < 10 ^ n) bare"
    "list_all (\<lambda>(v, ws). 1 \<le> char_value c (hd v) \<and> char_value c (hd v) \<le> int (length ws)) named"
proof -
  note v = assms(2,3) valid_calD(1-3,5-12) [OF assms(1)]
    order_trans [OF valid_calD(4) [OF assms(1)] daysInMonth_bounds(2)] iso_day_bounds [of "day_no c"]
  show "0 \<le> char_value c k" unfolding char_value_def using v by simp
  show "list_all (\<lambda>(v, n). char_value c (hd v) < 10 ^ n) padded"
    unfolding padded_def using v by (simp add: char_value_def)
  show "list_all (\<lambda>(v, n). char_value c (hd v) < 10 ^ n) bare"
    unfolding bare_def using v by (simp add: char_value_def)
  show "list_all (\<lambda>(v, ws). 1 \<le> char_value c (hd v) \<and> char_value c (hd v) \<le> int (length ws)) named"
    unfolding named_def monthsShort_def monthsLong_def weekdaysShort_def weekdaysLong_def
    using v by (simp add: char_value_def)
qed

lemma weekday_dt_at:
  assumes "valid_cal c" "modern (c_year c)"
  shows "weekday (dt_at z off l c) = Some (iso_day (day_no c))"
  using weekday_at [OF assms] by (simp add: iso_day_WeekDay)

lemma no_letter_lookups:
  assumes "\<not> letter (hd v)"
  shows "token_number dt v = None" "token_calendar dt v = None" "token_name dt v = None"
    "token_zone E I F dt v = None" "macroTokenToFormatOpts v = None" "map_of number_tokens v = None"
    "name_token E I loc v = None"
  unfolding token_number_def token_calendar_def token_name_def token_zone_def macroTokenToFormatOpts_def
    number_tokens_def name_token_def Let_def
  by (rule map_of_no_letter [OF assms]; simp add: letter_def)+

text \<open>The number a token prints in the Gregorian calendar, and its width.\<close>

definition printed :: "datetime \<Rightarrow> string \<Rightarrow> (num \<times> nat) option" where
  "printed dt v = (case token_number dt v of Some p \<Rightarrow> Some p
     | None \<Rightarrow> map_option (\<lambda>(n, p, _). (n, p)) (token_calendar dt v))"

lemma printed_at:
  "printed dt ''yyyy'' = Some (num_of (year dt), 4)"
    "printed dt ''MM'' = Some (num_of (month dt), 2)"
    "printed dt ''LL'' = Some (num_of (month dt), 2)"
    "printed dt ''dd'' = Some (num_of (day dt), 2)"
    "printed dt ''HH'' = Some (num_of (hour dt), 2)"
    "printed dt ''mm'' = Some (num_of (minute dt), 2)"
    "printed dt ''ss'' = Some (num_of (second dt), 2)"
    "printed dt ''SSS'' = Some (millisecond dt, 3)"
    "printed dt ''M'' = Some (num_of (month dt), 0)"
    "printed dt ''L'' = Some (num_of (month dt), 0)"
    "printed dt ''d'' = Some (num_of (day dt), 0)"
    "printed dt ''H'' = Some (num_of (hour dt), 0)"
    "printed dt ''m'' = Some (num_of (minute dt), 0)"
    "printed dt ''s'' = Some (num_of (second dt), 0)"
    "printed dt ''S'' = Some (millisecond dt, 0)"
    "printed dt ''E'' = Some (num_of (weekday dt), 0)"
    "printed dt ''c'' = Some (num_of (weekday dt), 0)"
  by (simp_all add: printed_def token_number_def token_calendar_def)

lemma tokenToString_number:
  assumes "printed dt v = Some (n, p)" "l_outputCalendar (fm_loc F) = None"
  shows "tokenToString E I F ke dt v = Formatter_num I F n p"
  using assms by (auto simp: printed_def tokenToString_def split: option.splits)

lemma token_tables:
  "list_all (\<lambda>(v, k). v \<noteq> [] \<and> letter (hd v) \<and> map_of padded v = Some k) padded"
  "list_all (\<lambda>(v, k). v \<noteq> [] \<and> letter (hd v) \<and> map_of padded v = None \<and> map_of named v = None \<and>
     map_of bare v = Some k) bare"
  "list_all (\<lambda>(v, ws). v \<noteq> [] \<and> letter (hd v) \<and> map_of padded v = None \<and> map_of named v = Some ws) named"
  by (simp_all add: padded_def bare_def named_def letter_def)

lemma list_allD: "list_all P xs \<Longrightarrow> x \<in> set xs \<Longrightarrow> P x"
  by (simp add: list_all_iff)

text \<open>A plain token is verbatim, padded, bare or a name.\<close>

lemma plain_cases:
  assumes "plain_token t"
  obtains (verbatim) "verbatim t" "token_text c t = tk_val t"
  | (padded) k where "(tk_val t, k) \<in> set padded" "\<not> verbatim t" "\<not> tk_literal t"
      "token_text c t = padStart (char_value c (hd (tk_val t))) k"
  | (bare) k where "(tk_val t, k) \<in> set bare" "\<not> verbatim t" "\<not> tk_literal t"
      "token_text c t = show_int (char_value c (hd (tk_val t)))"
  | (named) ws where "(tk_val t, ws) \<in> set named" "\<not> verbatim t" "\<not> tk_literal t"
      "token_text c t = ws ! nat (char_value c (hd (tk_val t)) - 1)"
proof (cases "verbatim t")
  case True
  then show ?thesis using verbatim by (simp add: token_text_def)
next
  case False
  then have lit: "\<not> tk_literal t" by (simp add: verbatim_def)
  from False assms consider k where "(tk_val t, k) \<in> set TokenLaws.padded" | k where "(tk_val t, k) \<in> set TokenLaws.bare"
    | ws where "(tk_val t, ws) \<in> set TokenLaws.named"
    by (auto simp: plain_token_def)
  then show ?thesis
  proof cases
    case 1
    then show ?thesis
      using padded [OF 1 False lit] token_tables(1) False by (auto simp: token_text_def list_all_iff Let_def)
  next
    case 2
    then show ?thesis
      using bare [OF 2 False lit] token_tables(2) False by (auto simp: token_text_def list_all_iff Let_def)
  next
    case 3
    then show ?thesis
      using named [OF 3 False lit] token_tables(3) False by (auto simp: token_text_def list_all_iff Let_def)
  qed
qed

text \<open>The English name a token prints.\<close>

lemma tokenToString_name:
  "tokenToString E I F True dt ''MMM'' = Ok (case monthForDateTime dt ''short'' of Some n \<Rightarrow> n | None \<Rightarrow> ''undefined'')"
  "tokenToString E I F True dt ''LLL'' = Ok (case monthForDateTime dt ''short'' of Some n \<Rightarrow> n | None \<Rightarrow> ''undefined'')"
  "tokenToString E I F True dt ''MMMM'' = Ok (case monthForDateTime dt ''long'' of Some n \<Rightarrow> n | None \<Rightarrow> ''undefined'')"
  "tokenToString E I F True dt ''LLLL'' = Ok (case monthForDateTime dt ''long'' of Some n \<Rightarrow> n | None \<Rightarrow> ''undefined'')"
  "tokenToString E I F True dt ''EEE'' = Ok (case weekdayForDateTime dt ''short'' of Some n \<Rightarrow> n | None \<Rightarrow> ''undefined'')"
  "tokenToString E I F True dt ''ccc'' = Ok (case weekdayForDateTime dt ''short'' of Some n \<Rightarrow> n | None \<Rightarrow> ''undefined'')"
  "tokenToString E I F True dt ''EEEE'' = Ok (case weekdayForDateTime dt ''long'' of Some n \<Rightarrow> n | None \<Rightarrow> ''undefined'')"
  "tokenToString E I F True dt ''cccc'' = Ok (case weekdayForDateTime dt ''long'' of Some n \<Rightarrow> n | None \<Rightarrow> ''undefined'')"
  by (simp_all add: tokenToString_def token_number_def token_calendar_def token_name_def)

lemma printed_numbers:
  assumes c: "valid_cal c" "modern (c_year c)" "c_year c < 10000"
  shows "list_all (\<lambda>(v, p). printed (dt_at z off l c) v = Some (Some (of_int (char_value c (hd v))), p))
     (padded @ map (\<lambda>(v, _). (v, 0)) bare)"
  unfolding padded_def bare_def
  by (simp add: printed_at dt_get_def millisecond_def weekday_dt_at [OF c(1,2)] char_value_def)

lemma named_string:
  assumes c: "valid_cal c" "modern (c_year c)"
  shows "list_all (\<lambda>(v, ws). tokenToString E I F True (dt_at z off l c) v
      = Ok (ws ! nat (char_value c (hd v) - 1))) named"
  using valid_calD(1,2) [OF c(1)] iso_day_bounds [of "day_no c"]
  unfolding named_def
  by (simp add: tokenToString_name monthForDateTime_def weekdayForDateTime_def months_def weekdays_def js_nth_def
      dt_get_def weekday_dt_at [OF c(1,2)] char_value_def monthsShort_def monthsLong_def weekdaysShort_def
      weekdaysLong_def)

lemma token_string:
  assumes eng: "english (fm_loc F)" and opts: "fm_opts F = no_fmt_opts"
    and c: "valid_cal c" "modern (c_year c)" "c_year c < 10000" and t: "plain_token t" "\<not> tk_literal t"
  shows "tokenToString E I F True (dt_at z off l c) (tk_val t) = Ok (token_text c t)"
  using t(1)
proof (cases rule: plain_cases [where c = c])
  case verbatim
  then have "\<not> letter (hd (tk_val t))" using t(2) by (simp add: verbatim_def)
  then show ?thesis using verbatim(2) by (simp add: tokenToString_def no_letter_lookups maybeMacro_def Let_def)
next
  case (padded k)
  then have "printed (dt_at z off l c) (tk_val t) = Some (Some (of_int (char_value c (hd (tk_val t)))), k)"
    using printed_numbers [OF c, where z = z and off = off and l = l] by (auto simp: list_all_iff)
  then show ?thesis
    using padded eng by (simp add: tokenToString_number english_def Formatter_num_int [OF eng opts])
next
  case (bare k)
  then have "printed (dt_at z off l c) (tk_val t) = Some (Some (of_int (char_value c (hd (tk_val t)))), 0)"
    using printed_numbers [OF c, where z = z and off = off and l = l] by (fastforce simp: list_all_iff)
  moreover have "0 \<le> char_value c (hd (tk_val t))"
    using c by (intro char_value_bounds(1)) (simp_all add: modern_def)
  ultimately show ?thesis
    using bare eng by (simp add: tokenToString_number english_def Formatter_num_int [OF eng opts] padStart_0)
next
  case (named ws)
  then show ?thesis using named_string [OF c(1,2), where E = E and I = I and F = F and z = z and off = off and l = l] by (auto simp: list_all_iff)
qed

lemma tokens_string:
  assumes "english (fm_loc F)" "fm_opts F = no_fmt_opts" "valid_cal c" "modern (c_year c)" "c_year c < 10000"
  shows "list_all plain_token ts \<Longrightarrow>
    stringifyTokens ts (tokenToString E I F True (dt_at z off l c)) = Ok (concat (map (token_text c) ts))"
  by (induction ts) (auto simp: token_string [OF assms] token_text_def verbatim_def)

lemma english_listing:
  assumes "english loc"
  shows "listing_en I loc = Ok True"
proof -
  have "toLowerCase ''en-US'' = ''en-us''" by code_simp
  with assms show ?thesis by (simp add: listing_en_def isEnglish_def english_def)
qed

lemma toFormat_text:
  assumes "Locale_clone E l (Some lo) True = Ok loc" "english loc"
    and "valid_cal c" "modern (c_year c)" "c_year c < 10000" "list_all plain_token (parseFormat fmt)"
  shows "toFormat E I (dt_at z off l c) fmt lo = Ok (concat (map (token_text c) (parseFormat fmt)))"
proof -
  show ?thesis
    using assms by (simp add: toFormat_def formatDateTimeFromString_def english_listing tokens_string)
qed

subsection \<open>The units of a format\<close>

definition name_unit :: "token \<Rightarrow> string list \<Rightarrow> token_unit" where
  "name_unit t ws = \<lparr>un_regex = (\<lambda>_. alternatives (map fixListRegex ws)),
     un_deser = (\<lambda>ms. MVal (VNum (findIndex
       (\<lambda>w. stripInsensitivities (whole_text ms) = stripInsensitivities w) ws 0 + 1))),
     un_groups = 0, un_literal = False, un_token = t\<rparr>"

definition unit_of :: "token \<Rightarrow> token_unit" where
  "unit_of t = (if verbatim t then literal_unit t
     else case map_of padded (tk_val t) of Some k \<Rightarrow> intUnit t (digits k k) (\<lambda>i. i)
     | None \<Rightarrow> (case map_of bare (tk_val t) of Some k \<Rightarrow> intUnit t (digits 1 k) (\<lambda>i. i)
     | None \<Rightarrow> (case map_of named (tk_val t) of Some ws \<Rightarrow> name_unit t ws | None \<Rightarrow> literal_unit t)))"

lemma findIndex_map: "findIndex P (map f xs) i = findIndex (\<lambda>x. P (f x)) xs i"
  by (induction xs arbitrary: i) auto

lemma oneOf_names: "oneOf t (Some (map Some ws)) 1 = Ok (Some (name_unit t ws))"
  by (auto simp: oneOf_def name_unit_def findIndex_map o_def)

lemma number_tables:
  "list_all (\<lambda>(v, k). map_of number_tokens v = Some (k, k) \<and> v \<noteq> ''yy'' \<and> v \<noteq> ''kk'') padded"
  "list_all (\<lambda>(v, k). map_of number_tokens v = Some (1, k) \<and> v \<noteq> ''yy'' \<and> v \<noteq> ''kk'') bare"
  "list_all (\<lambda>(v, ws). map_of number_tokens v = None) named"
  by (simp_all add: padded_def bare_def named_def number_tokens_def)

lemma name_tables:
  assumes "english loc"
  shows "list_all (\<lambda>(v, ws). name_token E I loc v = Some (Ok (Some (map Some ws)), 1)) named"
proof -
  have l: "Locale_months E I loc ''short'' fmt = Ok (Some (map Some monthsShort))"
    "Locale_months E I loc ''long'' fmt = Ok (Some (map Some monthsLong))"
    "Locale_weekdays E I loc ''short'' fmt = Ok (Some (map Some weekdaysShort))"
    "Locale_weekdays E I loc ''long'' fmt = Ok (Some (map Some weekdaysLong))" for fmt
    by (simp_all add: Locale_months_def Locale_weekdays_def listStuff_def english_listing [OF assms] months_def
        weekdays_def)
  show ?thesis unfolding named_def by (simp add: name_token_def l)
qed

lemma unitForToken_plain:
  assumes "english loc" "plain_token t"
  shows "unitForToken E I loc t = Ok (Some (unit_of t))"
  using assms(2)
proof (cases rule: plain_cases [where c = undefined])
  case verbatim
  show ?thesis
  proof (cases "tk_literal t")
    case False
    with verbatim have v: "\<not> letter (hd (tk_val t))" by (simp add: verbatim_def)
    then have "tk_val t \<notin> {''Z'', ''ZZ'', ''ZZZ'', ''u'', ''uu'', ''z''}" by (auto simp: letter_def)
    with False verbatim(1) v show ?thesis by (simp add: unitForToken_def unit_of_def no_letter_lookups Let_def)
  qed (use verbatim in \<open>simp add: unitForToken_def unit_of_def\<close>)
next
  case (padded k)
  then show ?thesis
    using list_allD [OF token_tables(1) padded(1)] list_allD [OF number_tables(1) padded(1)] assms(1)
    by (simp add: unitForToken_def unit_of_def Let_def digitRegex_def english_def)
next
  case (bare k)
  then show ?thesis
    using list_allD [OF token_tables(2) bare(1)] list_allD [OF number_tables(2) bare(1)] assms(1)
    by (simp add: unitForToken_def unit_of_def Let_def digitRegex_def english_def)
next
  case (named ws)
  have "map_of TokenLaws.bare (tk_val t) = None"
    using named(1) by (auto simp: TokenLaws.named_def TokenLaws.bare_def)
  then show ?thesis
    using named(2,3) list_allD [OF token_tables(3) named(1)] list_allD [OF number_tables(3) named(1)]
      list_allD [OF name_tables [OF assms(1), of E I] named(1)]
    by (simp add: unitForToken_def unit_of_def Let_def oneOf_names)
qed

lemma units_plain:
  "english loc \<Longrightarrow> list_all plain_token ts \<Longrightarrow>
    mapM (unitForToken E I loc) ts = Ok (map (\<lambda>t. Some (unit_of t)) ts)"
  by (induction ts) (simp_all add: unitForToken_plain)

subsection \<open>Matching the texts\<close>

lemma rmatch_seq_Cons: "rmatch (seq (r # rs)) s g k = rmatch r s g (\<lambda>s' g'. rmatch (seq rs) s' g' k)"
  by (cases rs) simp_all

text \<open>An expression takes a text off a rest, whatever follows accepts.\<close>

definition takes :: "rx \<Rightarrow> string \<Rightarrow> string \<Rightarrow> bool" where
  "takes R w rest \<longleftrightarrow> (\<forall>g (k :: string \<Rightarrow> groups \<Rightarrow> groups option) v. k rest g = Some v \<longrightarrow>
     rmatch R (w @ rest) g k = Some v)"

lemma takesD: "takes R w rest \<Longrightarrow> k rest g = Some v \<Longrightarrow> rmatch R (w @ rest) g k = Some v"
  for k :: "string \<Rightarrow> groups \<Rightarrow> groups option"
  by (simp add: takes_def)

lemma match_text_rx: "rmatch (text_rx w) (w @ rest) g k = k rest g"
  unfolding text_rx_def
  by (induction w arbitrary: g) (simp_all add: rmatch_seq_Cons same_char_def match_one del: seq.simps(3) rmatch.simps(1))

lemma takes_text: "takes (text_rx w) w rest"
  by (simp add: takes_def match_text_rx)

lemma takes_run: "run n w v \<Longrightarrow> takes (digits n n) w rest"
  by (simp add: takes_def match_run)

lemma takes_digits:
  assumes "\<forall>c\<in>set w. is_digit c" "w \<noteq> []" "length w \<le> k" "rest = [] \<or> \<not> is_digit (hd rest)"
  shows "takes (digits 1 k) w rest"
proof -
  have "takeWhile is_digit (take k (w @ rest)) = w"
  proof -
    have "take k (w @ rest) = w @ take (k - length w) rest" using assms(3) by simp
    moreover have "takeWhile is_digit (take (k - length w) rest) = []"
      using assms(4) by (cases rest; cases "k - length w") auto
    ultimately show ?thesis using assms(1) by simp
  qed
  with assms(2) show ?thesis
    by (cases w) (auto simp: takes_def digits_def try_down.simps [of _ _ _ "Suc 0" "Suc n" for n])
qed

text \<open>Two texts that differ in a character before either ends.\<close>

fun differs :: "string \<Rightarrow> string \<Rightarrow> bool" where
  "differs (a # as) (b # bs) = (a \<noteq> b \<or> differs as bs)"
| "differs as bs = False"

lemma differs_neq: "differs as bs \<Longrightarrow> as \<noteq> bs"
  by (induction as bs rule: differs.induct) auto

abbreviation apart :: "string \<Rightarrow> string \<Rightarrow> bool" where
  "apart a b \<equiv> differs (toLowerCase a) (toLowerCase b)"

lemma match_text_apart: "apart a w \<Longrightarrow> rmatch (text_rx a) (w @ rest) g k = None"
  unfolding text_rx_def toLowerCase_def
proof (induction a arbitrary: w g)
  case (Cons x a)
  then obtain y w' where "w = y # w'" by (cases w) auto
  with Cons show ?case
    by (auto simp: rmatch_seq_Cons same_char_def match_one simp del: seq.simps(3) rmatch.simps(1))
qed simp

text \<open>A list of names none of which hides a later one.\<close>

definition plain_name :: "string \<Rightarrow> bool" where
  "plain_name w \<longleftrightarrow> w \<noteq> [] \<and> list_all letter w"

definition plain_names :: "string list \<Rightarrow> bool" where
  "plain_names ws \<longleftrightarrow> list_all plain_name ws \<and> sorted_wrt apart ws"

lemma lower_names:
  "map toLowerCase monthsShort = [''jan'', ''feb'', ''mar'', ''apr'', ''may'', ''jun'', ''jul'', ''aug'',
     ''sep'', ''oct'', ''nov'', ''dec'']"
  "map toLowerCase monthsLong = [''january'', ''february'', ''march'', ''april'', ''may'', ''june'', ''july'',
     ''august'', ''september'', ''october'', ''november'', ''december'']"
  "map toLowerCase weekdaysShort = [''mon'', ''tue'', ''wed'', ''thu'', ''fri'', ''sat'', ''sun'']"
  "map toLowerCase weekdaysLong = [''monday'', ''tuesday'', ''wednesday'', ''thursday'', ''friday'',
     ''saturday'', ''sunday'']"
  by code_simp+

lemma plain_names_lists:
  "plain_names monthsShort" "plain_names monthsLong" "plain_names weekdaysShort" "plain_names weekdaysLong"
proof -
  have "sorted_wrt apart ws = sorted_wrt differs (map toLowerCase ws)" for ws by (simp add: sorted_wrt_map)
  then show "plain_names monthsShort" "plain_names monthsLong" "plain_names weekdaysShort" "plain_names weekdaysLong"
    unfolding plain_names_def by (simp_all add: lower_names)
      (simp_all add: monthsShort_def monthsLong_def weekdaysShort_def weekdaysLong_def plain_name_def letter_def)
qed

lemma plain_names: "list_all (\<lambda>(v, ws). plain_names ws) named"
  by (simp add: named_def plain_names_lists)

lemma plain_namesD:
  assumes "plain_names ws" "i < length ws"
  shows "plain_name (ws ! i)" "j < i \<Longrightarrow> apart (ws ! j) (ws ! i)"
  using assms sorted_wrt_nth_less [of apart ws j i] by (auto simp: plain_names_def list_all_length)

lemma letter_plain: "letter c \<Longrightarrow> c \<noteq> CHR ''.'' \<and> \<not> space_or_nbsp c \<and> \<not> is_digit c"
  by (auto simp: letter_def space_or_nbsp_def is_digit_def)

lemma strip_plain: "plain_name w \<Longrightarrow> stripInsensitivities w = toLowerCase w"
proof -
  assume "plain_name w"
  then have l: "\<forall>c\<in>set w. letter c" by (simp add: plain_name_def list_all_iff)
  then have "filter (\<lambda>c. c \<noteq> CHR ''.'') w = w" using letter_plain by (simp add: filter_id_conv)
  moreover have "map (\<lambda>c. if space_or_nbsp c then CHR '' '' else c) w = w"
    using l letter_plain by (intro map_idI) auto
  ultimately show ?thesis by (simp add: stripInsensitivities_def)
qed

lemma findIndex_first:
  "i < length ws \<Longrightarrow> P (ws ! i) \<Longrightarrow> (\<And>j. j < i \<Longrightarrow> \<not> P (ws ! j)) \<Longrightarrow> findIndex P ws n = n + int i"
proof (induction ws arbitrary: i n)
  case (Cons w ws)
  show ?case
  proof (cases i)
    case (Suc m)
    have "findIndex P ws (n + 1) = n + 1 + int m"
      using Cons.prems Suc by (intro Cons.IH) fastforce+
    then show ?thesis using Cons.prems(3) [of 0] Suc by simp
  qed (use Cons.prems in simp)
qed simp

lemma findIndex_name:
  assumes "plain_names ws" "i < length ws"
  shows "findIndex (\<lambda>w. stripInsensitivities (ws ! i) = stripInsensitivities w) ws 0 = int i"
proof -
  have "stripInsensitivities (ws ! i) \<noteq> stripInsensitivities (ws ! j)" if "j < i" for j
  proof -
    have j: "j < length ws" using that assms(2) by simp
    show ?thesis
      using differs_neq [OF plain_namesD(2) [OF assms that]]
      by (simp add: strip_plain plain_namesD(1) [OF assms] plain_namesD(1) [OF assms(1) j])
  qed
  then show ?thesis using findIndex_first [OF assms(2)] by simp
qed

lemma rmatch_alternatives_Cons:
  "rmatch (alternatives (r # rs)) s g k = (case rmatch r s g k of Some v \<Rightarrow> Some v
     | None \<Rightarrow> if rs = [] then None else rmatch (alternatives rs) s g k)"
  by (cases rs) (auto split: option.split)

lemma takes_alternative:
  assumes "i < length ws" "\<And>j. j < i \<Longrightarrow> apart (ws ! j) (ws ! i)"
  shows "takes (alternatives (map text_rx ws)) (ws ! i) rest"
  unfolding takes_def
proof (intro allI impI)
  fix g v and k :: "string \<Rightarrow> groups \<Rightarrow> groups option"
  assume k: "k rest g = Some v"
  show "rmatch (alternatives (map text_rx ws)) (ws ! i @ rest) g k = Some v"
    using assms
  proof (induction ws arbitrary: i)
    case (Cons w ws)
    show ?case
    proof (cases i)
      case 0
      then show ?thesis by (simp add: rmatch_alternatives_Cons match_text_rx k del: alternatives.simps)
    next
      case (Suc m)
      then have "apart w (ws ! m)" using Cons.prems(2) [of 0] by simp
      moreover have "rmatch (alternatives (map text_rx ws)) (ws ! m @ rest) g k = Some v"
        using Cons.prems(1) Cons.prems(2) [of "Suc j" for j] Suc by (intro Cons.IH) auto
      ultimately show ?thesis using Cons.prems(1) Suc
        by (auto simp: rmatch_alternatives_Cons match_text_apart simp del: alternatives.simps)
    qed
  qed simp
qed

lemma takes_name:
  assumes "plain_names ws" "i < length ws"
  shows "takes (alternatives (map fixListRegex ws)) (ws ! i) rest"
proof -
  have "fixListRegex w = text_rx w" if w: "w \<in> set ws" for w
  proof -
    from w obtain j where "j < length ws" "w = ws ! j" by (auto simp: in_set_conv_nth)
    then have "\<forall>c\<in>set w. letter c"
      using plain_namesD(1) [OF assms(1)] by (simp add: plain_name_def list_all_iff)
    then have "map (\<lambda>c. if c = CHR ''.'' then Opt (Lit ''.'')
        else if space_or_nbsp c then Cls space_or_nbsp 1 1 else same_char c) w = map same_char w"
      using letter_plain by (intro map_cong) auto
    then show ?thesis by (simp only: fixListRegex_def text_rx_def)
  qed
  then have eq: "map fixListRegex ws = map text_rx ws" by simp
  show ?thesis unfolding eq by (rule takes_alternative [OF assms(2) plain_namesD(2) [OF assms]])
qed

text \<open>The groups after texts from a number on, and the match a token adds.\<close>

fun put :: "groups \<Rightarrow> nat \<Rightarrow> string list \<Rightarrow> groups" where
  "put g n [] = g"
| "put g n (w # ws) = put (g(n := Some w)) (Suc n) ws"

definition read_token :: "cal \<Rightarrow> token \<Rightarrow> matches \<Rightarrow> matches" where
  "read_token c t ms = (if verbatim t then ms
     else AList.update (hd (tk_val t)) (MVal (VNum (char_value c (hd (tk_val t))))) ms)"

text \<open>The unit of a token takes the text of the token and reads the value.\<close>

lemma parseDigits_run: "run k w n \<Longrightarrow> 0 < k \<Longrightarrow> parseDigits w = VNum n"
  using parseInt_digits [of w] runD(3) [of k w n] by (auto simp: run_def parseDigits_def)

lemma parseDigits_show [simp]: "parseDigits (show_int n) = VNum n"
  by (simp add: parseDigits_def)

lemma unit_takes:
  assumes c: "valid_cal c" "0 \<le> c_year c" "c_year c < 10000" and t: "plain_token t"
    and sep: "\<not> verbatim t \<and> tk_val t \<in> fst ` set bare \<Longrightarrow> rest = [] \<or> \<not> is_digit (hd rest)"
  shows "takes (un_regex (unit_of t) n) (token_text c t) rest" "un_groups (unit_of t) = 0"
    "un_literal (unit_of t) = verbatim t" "un_token (unit_of t) = t"
    "\<not> verbatim t \<Longrightarrow> un_deser (unit_of t) [Some (token_text c t)] = MVal (VNum (char_value c (hd (tk_val t))))"
proof -
  let ?v = "char_value c (hd (tk_val t))"
  have "takes (un_regex (unit_of t) n) (token_text c t) rest \<and> un_groups (unit_of t) = 0 \<and>
    un_literal (unit_of t) = verbatim t \<and> un_token (unit_of t) = t \<and>
    (\<not> verbatim t \<longrightarrow> un_deser (unit_of t) [Some (token_text c t)] = MVal (VNum ?v))"
    using t
  proof (cases rule: plain_cases [where c = c])
    case verbatim
    then show ?thesis by (simp add: unit_of_def literal_unit_def takes_text)
  next
    case (padded k)
    have k: "0 < k" using padded(1) by (auto simp: TokenLaws.padded_def)
    have "?v < 10 ^ k" using list_allD [OF char_value_bounds(2) [OF c] padded(1)] by simp
    then have "run k (token_text c t) ?v" unfolding padded(4) by (rule run_padStart [OF char_value_bounds(1) [OF c] _ k])
    then show ?thesis
      using padded(2,3) list_allD [OF token_tables(1) padded(1)] parseDigits_run [OF _ k]
      by (simp add: unit_of_def intUnit_def takes_run whole_text_def uval_map_def)
  next
    case (bare k)
    have k: "0 < k" using bare(1) by (auto simp: TokenLaws.bare_def)
    have v: "0 \<le> ?v" "?v < 10 ^ k" using list_allD [OF char_value_bounds(3) [OF c] bare(1)] char_value_bounds(1) [OF c] by simp_all
    then have "length (show_int ?v) \<le> k"
      using show_nat_length_bound [of "nat ?v" k] k by (simp add: show_int_def nat_less_iff)
    then have "takes (digits 1 k) (show_int ?v) rest"
      using v(1) bare(1,2) sep by (intro takes_digits) (force simp: show_int_sign_digits)+
    then show ?thesis
      using bare(2-4) list_allD [OF token_tables(2) bare(1)]
      by (simp add: unit_of_def intUnit_def whole_text_def uval_map_def)
  next
    case (named ws)
    let ?i = "nat (?v - 1)"
    have v: "1 \<le> ?v" "?i < length ws" using list_allD [OF char_value_bounds(4) [OF c] named(1)] by auto
    have ws: "plain_names ws" using list_allD [OF plain_names named(1)] by simp
    have "map_of TokenLaws.bare (tk_val t) = None"
      using named(1) by (auto simp: TokenLaws.named_def TokenLaws.bare_def)
    then have "unit_of t = name_unit t ws"
      using named(2) list_allD [OF token_tables(3) named(1)] by (simp add: unit_of_def)
    then show ?thesis
      using named(2,4) v takes_name [OF ws v(2)] findIndex_name [OF ws v(2)]
      by (simp add: name_unit_def whole_text_def)
  qed
  then show "takes (un_regex (unit_of t) n) (token_text c t) rest" "un_groups (unit_of t) = 0"
    "un_literal (unit_of t) = verbatim t" "un_token (unit_of t) = t"
    "\<not> verbatim t \<Longrightarrow> un_deser (unit_of t) [Some (token_text c t)] = MVal (VNum ?v)" by blast+
qed

text \<open>A text that starts apart.\<close>

lemma starts_apart_text:
  assumes c: "valid_cal c" "0 \<le> c_year c" "c_year c < 10000" and t: "starts_apart t" "plain_token t"
  shows "token_text c t \<noteq> [] \<and> \<not> is_digit (hd (token_text c t))"
  using t(2)
proof (cases rule: plain_cases [where c = c])
  case (named ws)
  let ?i = "nat (char_value c (hd (tk_val t)) - 1)"
  have "?i < length ws" using list_allD [OF char_value_bounds(4) [OF c] named(1)] by auto
  then have "plain_name (ws ! ?i)" using list_allD [OF plain_names named(1)] plain_namesD(1) by simp
  then show ?thesis unfolding named(4) by (cases "ws ! ?i") (auto simp: plain_name_def letter_plain)
next
  case (padded k)
  then have "tk_val t \<notin> fst ` set TokenLaws.named"
    using list_allD [OF token_tables(1) padded(1)] list_allD [OF token_tables(3)] by force
  with padded t(1) show ?thesis by (simp add: starts_apart_def)
next
  case (bare k)
  then have "tk_val t \<notin> fst ` set TokenLaws.named"
    using list_allD [OF token_tables(2) bare(1)] by (auto simp: map_of_eq_None_iff)
  with bare t(1) show ?thesis by (simp add: starts_apart_def)
qed (use t(1) in \<open>auto simp: starts_apart_def\<close>)

lemma exec_units:
  assumes c: "valid_cal c" "0 \<le> c_year c" "c_year c < 10000"
    and ts: "list_all plain_token ts" "separated ts" "k [] (put g n (map (token_text c) ts)) = Some v"
  shows "rmatch (seq (unit_rxs n (map unit_of ts))) (concat (map (token_text c) ts)) g
    (k :: string \<Rightarrow> groups \<Rightarrow> groups option) = Some v"
  using ts
proof (induction ts arbitrary: g n)
  case (Cons t ts)
  let ?w = "token_text c t" and ?rest = "concat (map (token_text c) ts)"
  have plain: "plain_token t" using Cons.prems(1) by simp
  have rest: "?rest = [] \<or> \<not> is_digit (hd ?rest)" if "\<not> verbatim t \<and> tk_val t \<in> fst ` set bare"
  proof (cases ts)
    case (Cons u us)
    then have "starts_apart u" "plain_token u" using that Cons.prems(1,2) \<open>list_all plain_token (t # ts)\<close> \<open>separated (t # ts)\<close> by auto
    then show ?thesis using starts_apart_text [OF c, of u] Cons by (simp add: hd_append)
  qed simp
  have groups: "un_groups (unit_of t) = 0" using unit_takes(2) [OF c plain, where rest = "[]"] by simp
  have takes: "takes (un_regex (unit_of t) (n + 1)) ?w ?rest"
    by (rule unit_takes(1) [OF c plain]) (rule rest)
  let ?k = "\<lambda>s' g'. rmatch (seq (unit_rxs (n + 1) (map unit_of ts))) s'
      (g'(n := Some (take (length (?w @ ?rest) - length s') (?w @ ?rest)))) k"
  have "rmatch (seq (unit_rxs (n + 1) (map unit_of ts))) ?rest (g(n := Some ?w)) k = Some v"
    by (rule Cons.IH) (use Cons.prems in \<open>simp_all add: fun_upd_def\<close>)
  then have "?k ?rest g = Some v" by simp
  then have "rmatch (un_regex (unit_of t) (n + 1)) (?w @ ?rest) g ?k = Some v"
    by (rule takesD [OF takes, where k = ?k])
  then show ?case by (simp add: groups rmatch_seq_Cons del: seq.simps(3))
qed simp

lemma collect_units:
  assumes c: "valid_cal c" "0 \<le> c_year c" "c_year c < 10000"
    and ts: "list_all plain_token ts" "\<And>i. i < length ts \<Longrightarrow> G (n + i) = Some (token_text c (ts ! i))"
  shows "collect G n (map unit_of ts) ms = fold (read_token c) ts ms"
  using ts
proof (induction ts arbitrary: n ms)
  case (Cons t ts)
  have plain: "plain_token t" using Cons.prems(1) by simp
  note u = unit_takes [OF c plain, where rest = "[]", simplified]
  have "G n = Some (token_text c t)" using Cons.prems(2) [of 0] by simp
  moreover have "G (Suc n + i) = Some (token_text c (ts ! i))" if "i < length ts" for i
    using Cons.prems(2) [of "Suc i"] that by simp
  ultimately show ?case
    using Cons.IH [of "Suc n"] Cons.prems(1) u by (simp add: read_token_def)
qed simp

lemma put_nth: "i < n \<Longrightarrow> put g n ws i = g i" "i < length ws \<Longrightarrow> put g n ws (n + i) = Some (ws ! i)"
proof (induction ws arbitrary: g n i)
  case (Cons w ws)
  { case 1 then show ?case using Cons.IH(1) by simp }
  { case 2
    then show ?case using Cons.IH(1) [of n "Suc n"] Cons.IH(2) [of "i - 1" _ "Suc n"] by (cases i) auto }
qed simp_all

text \<open>Reading the text of a date gives the values of its tokens.\<close>

lemma match_units_text:
  assumes "valid_cal c" "0 \<le> c_year c" "c_year c < 10000" "list_all plain_token ts" "separated ts"
  shows "\<exists>G. match_units (concat (map (token_text c) ts)) (map unit_of ts) = (Some G, fold (read_token c) ts [])"
proof -
  let ?txt = "concat (map (token_text c) ts)"
  let ?G = "put [0 \<mapsto> ?txt] 1 (map (token_text c) ts)"
  have "exec_full (buildRegex (map unit_of ts)) ?txt = Some ?G"
    unfolding exec_full_def buildRegex_def by (rule exec_units [OF assms]) simp
  moreover have "collect ?G 1 (map unit_of ts) [] = fold (read_token c) ts []"
    using put_nth(2) [of _ "map (token_text c) ts" "[0 \<mapsto> ?txt]" 1]
    by (intro collect_units [OF assms(1-4)]) simp
  ultimately show ?thesis by (simp add: match_units_def)
qed

subsection \<open>From the matches to the date\<close>

lemma token_keys_simps [simp]:
  "token_keys [] = {}"
  "token_keys (t # ts) = (if verbatim t then token_keys ts else insert (hd (tk_val t)) (token_keys ts))"
  by (auto simp: token_keys_def)

lemma read_tokens:
  "map_of (fold (read_token c) ts ms) k
    = (if k \<in> token_keys ts then Some (MVal (VNum (char_value c k))) else map_of ms k)"
  by (induction ts arbitrary: ms) (auto simp: read_token_def update_conv')

lemma read_tokens_distinct: "distinct (map fst ms) \<Longrightarrow> distinct (map fst (fold (read_token c) ts ms))"
  by (induction ts arbitrary: ms) (simp_all add: read_token_def distinct_update)

definition token_chars :: "char set" where
  "token_chars = set ''yMLdHmsSEc''"

lemma token_keys_plain:
  assumes "list_all plain_token ts" "k \<in> token_keys ts"
  shows "k \<in> token_chars"
proof -
  obtain t where t: "plain_token t" "\<not> verbatim t" "k = hd (tk_val t)"
    using assms by (auto simp: token_keys_def list_all_iff)
  have "list_all (\<lambda>v. hd v \<in> token_chars) (map fst padded @ map fst bare @ map fst named)"
    by (simp add: padded_def bare_def named_def token_chars_def)
  with t show ?thesis by (fastforce simp: plain_token_def list_all_iff)
qed

text \<open>The field a first character stands for, its unit, and the value of a unit.\<close>

definition unit_value :: "cal \<Rightarrow> dtunit \<Rightarrow> int" where
  "unit_value c u = (if u = UWeekday then iso_day (day_no c) else the (obj_of_cal c u))"

lemma key_fields:
  assumes "k \<in> token_chars"
  shows "\<exists>f u. toField k = Some f \<and> normalizeUnit f = Ok u \<and> unit_value c u = char_value c k"
  using assms unit_names_dt
  by (auto simp: token_chars_def toField_def unit_value_def obj_of_cal_def char_value_def)

text \<open>The fields of matches: each is that of a first character, and none is lost.\<close>

definition add_field :: "char \<times> matched \<Rightarrow> int fields \<Rightarrow> int fields" where
  "add_field e r = (case (toField (fst e), snd e) of (Some f, MVal v) \<Rightarrow> AList.update f v r | _ \<Rightarrow> r)"

lemma matched_fields_fold: "matched_fields ms = fold add_field ms []"
  by (auto simp: matched_fields_def add_field_def intro!: fold_cong split: prod.split)

definition field_value :: "cal \<Rightarrow> string \<Rightarrow> int" where
  "field_value c f = unit_value c (res_val (normalizeUnit f))"

lemma key_field:
  assumes "k \<in> token_chars"
  obtains f where "toField k = Some f" "char_value c k = field_value c f"
    "\<exists>u. normalizeUnit f = Ok u"
proof -
  obtain f u where f: "toField k = Some f" "normalizeUnit f = Ok u" "unit_value c u = char_value c k"
    using key_fields [OF assms, of c] by blast
  show thesis by (rule that [OF f(1)]) (simp_all add: field_value_def f(2,3))
qed

lemma add_fields:
  assumes "\<And>k m. (k, m) \<in> set ms \<Longrightarrow> k \<in> token_chars \<and> m = MVal (VNum (char_value c k))"
  shows "map_of (fold add_field ms r) f
    = (if \<exists>k\<in>fst ` set ms. toField k = Some f then Some (VNum (field_value c f)) else map_of r f)"
  using assms
proof (induction ms arbitrary: r)
  case (Cons e ms)
  obtain k m where e: "e = (k, m)" by fastforce
  then have k: "k \<in> token_chars" "m = MVal (VNum (char_value c k))" using Cons.prems by auto
  obtain f' where f': "toField k = Some f'" "char_value c k = field_value c f'" by (rule key_field [OF k(1)])
  have "add_field e r = AList.update f' (VNum (field_value c f')) r"
    by (simp add: add_field_def e k(2) f')
  moreover have "map_of (fold add_field ms r') f
      = (if \<exists>k\<in>fst ` set ms. toField k = Some f then Some (VNum (field_value c f)) else map_of r' f)" for r'
    using Cons.prems by (intro Cons.IH) auto
  ultimately show ?case by (auto simp: e f'(1) update_conv')
qed simp

lemma add_fields_distinct: "distinct (map fst r) \<Longrightarrow> distinct (map fst (fold add_field ms r))"
  by (induction ms arbitrary: r) (simp_all add: add_field_def distinct_update split: option.split matched.split)

text \<open>The units an object of such fields becomes.\<close>

lemma normalize_fields:
  assumes "\<And>f v. (f, v) \<in> set fs \<Longrightarrow> v = VNum (field_value c f) \<and> (\<exists>u. normalizeUnit f = Ok u)"
  shows "\<exists>n. normalizeObject fs normalizeUnit = Ok n \<and>
    map_of n = (\<lambda>u. if \<exists>f\<in>fst ` set fs. normalizeUnit f = Ok u then Some (unit_value c u) else None)"
proof -
  let ?u = "\<lambda>f. res_val (normalizeUnit f)"
  let ?g = "\<lambda>(f, v) s. AList.update (?u f) (unit_value c (?u f)) s"
  have "normalizeObject fs normalizeUnit = Ok (fold ?g fs [])"
    unfolding normalizeObject_def
  proof (rule foldM_Ok_fold)
    fix x s
    assume "x \<in> set fs"
    then obtain u where v: "snd x = VNum (field_value c (fst x))" "normalizeUnit (fst x) = Ok u"
      using assms [of "fst x" "snd x"] by auto
    show "(case x of (u, v) \<Rightarrow> \<lambda>normalized. if v = VUndefined \<or> v = VNull then Ok normalized
        else rbind (normalizeUnit u) (\<lambda>key. rbind (asNumber v) (\<lambda>n. Ok (AList.update key n normalized)))) s = Ok (?g x s)"
      using v by (cases x) (simp add: asNumber_def field_value_def)
  qed
  moreover have "map_of (fold ?g fs s) u = (if \<exists>f\<in>fst ` set fs. ?u f = u then Some (unit_value c u) else map_of s u)" for s u
    by (induction fs arbitrary: s) (auto simp: update_conv' split: prod.split)
  moreover have "(\<exists>f\<in>fst ` set fs. ?u f = u) \<longleftrightarrow> (\<exists>f\<in>fst ` set fs. normalizeUnit f = Ok u)" for u
  proof (intro bex_cong refl)
    fix f
    assume "f \<in> fst ` set fs"
    then obtain u' where "normalizeUnit f = Ok u'" using assms by force
    then show "?u f = u \<longleftrightarrow> normalizeUnit f = Ok u" by simp
  qed
  ultimately show ?thesis by (simp add: fun_eq_iff)
qed

definition key_unit :: "char \<Rightarrow> dtunit" where
  "key_unit k = (if k = CHR ''y'' then UYear else if k \<in> {CHR ''M'', CHR ''L''} then UMonth
     else if k = CHR ''d'' then UDay else if k = CHR ''H'' then UHour else if k = CHR ''m'' then UMinute
     else if k = CHR ''s'' then USecond else if k = CHR ''S'' then UMillisecond else UWeekday)"

lemma key_table:
  "list_all (\<lambda>k. case toField k of None \<Rightarrow> False
     | Some f \<Rightarrow> normalizeUnit f = Ok (key_unit k) \<and> (key_unit k = UWeekday \<longleftrightarrow> f = ''weekday'')) ''yMLdHmsSEc''"
  by code_simp

lemma key_unit:
  assumes "k \<in> token_chars"
  shows "\<exists>f. toField k = Some f \<and> normalizeUnit f = Ok (key_unit k)"
    "toField k = Some f \<Longrightarrow> key_unit k = UWeekday \<longleftrightarrow> f = ''weekday''"
  using list_allD [OF key_table assms [unfolded token_chars_def]] by (auto split: option.splits)

text \<open>The object of units of a complete format, which may have a weekday.\<close>

definition with_weekday :: "cal \<Rightarrow> bool \<Rightarrow> obj" where
  "with_weekday c b = (obj_of_cal c)(UWeekday := if b then Some (iso_day (day_no c)) else None)"

lemma complete_obj:
  assumes "complete_keys K" "K \<subseteq> token_chars"
  shows "(\<lambda>u. if u \<in> key_unit ` K then Some (unit_value c u) else None)
    = with_weekday c (UWeekday \<in> key_unit ` K)"
proof
  fix u
  have K: "UYear \<in> key_unit ` K" "UMonth \<in> key_unit ` K" "UDay \<in> key_unit ` K" "UHour \<in> key_unit ` K"
    "UMinute \<in> key_unit ` K" "USecond \<in> key_unit ` K" "UMillisecond \<in> key_unit ` K"
  proof -
    have mem: "k \<in> K \<Longrightarrow> key_unit k = v \<Longrightarrow> v \<in> key_unit ` K" for k v by blast
    have k: "CHR ''y'' \<in> K" "CHR ''d'' \<in> K" "CHR ''H'' \<in> K" "CHR ''m'' \<in> K" "CHR ''s'' \<in> K" "CHR ''S'' \<in> K"
      "CHR ''M'' \<in> K \<or> CHR ''L'' \<in> K"
      using assms(1) by (simp_all add: complete_keys_def)
    show "UMonth \<in> key_unit ` K"
      using k(7) mem [of "CHR ''M''" UMonth] mem [of "CHR ''L''" UMonth] by (auto simp: key_unit_def)
    show "UYear \<in> key_unit ` K" "UDay \<in> key_unit ` K" "UHour \<in> key_unit ` K" "UMinute \<in> key_unit ` K"
      "USecond \<in> key_unit ` K" "UMillisecond \<in> key_unit ` K"
      by (rule mem [OF k(1)] mem [OF k(2)] mem [OF k(3)] mem [OF k(4)] mem [OF k(5)] mem [OF k(6)],
          simp add: key_unit_def)+
  qed
  have none: "UQuarter \<notin> key_unit ` K" "UOrdinal \<notin> key_unit ` K" "UWeekYear \<notin> key_unit ` K"
    "UWeekNumber \<notin> key_unit ` K"
    by (auto simp: key_unit_def)
  show "(if u \<in> key_unit ` K then Some (unit_value c u) else None) = with_weekday c (UWeekday \<in> key_unit ` K) u"
    by (cases u) (simp_all add: K none with_weekday_def unit_value_def obj_of_cal_def)
qed

text \<open>The fields that are read from the text of a date.\<close>

lemma read_fields:
  fixes c :: cal
  assumes "list_all plain_token ts" "complete_keys (token_keys ts)"
  defines "ms \<equiv> fold (read_token c) ts []"
  shows "dateTimeFromMatches E ms = (matched_fields ms, None, None)"
    "\<exists>n b. normalizeObject (matched_fields ms) normalizeUnit = Ok n \<and> map_of n = with_weekday c b \<and>
      map_of (matched_fields ms) ''weekday'' = (if b then Some (VNum (iso_day (day_no c))) else None)"
    "fst ` set ms = token_keys ts"
proof -
  have map: "map_of ms k = (if k \<in> token_keys ts then Some (MVal (VNum (char_value c k))) else None)" for k
    unfolding ms_def by (simp add: read_tokens)
  have dist: "distinct (map fst ms)" unfolding ms_def by (rule read_tokens_distinct) simp
  show keys: "fst ` set ms = token_keys ts"
    unfolding dom_map_of_conv_image_fst [symmetric] by (auto simp: map dom_def)
  have chars: "token_keys ts \<subseteq> token_chars" using token_keys_plain [OF assms(1)] by blast
  then have "map_of ms k = None" if "k \<notin> token_chars" for k using that by (auto simp: map)
  then show "dateTimeFromMatches E ms = (matched_fields ms, None, None)"
    by (simp add: dateTimeFromMatches_def with_quarter_def with_meridiem_def with_era_def
        with_fraction_digits_def token_chars_def split: option.split)
  let ?fs = "matched_fields ms"
  have entry: "k \<in> token_chars \<and> m = MVal (VNum (char_value c k))" if "(k, m) \<in> set ms" for k m
  proof -
    have "map_of ms k = Some m" using that dist by simp
    then show ?thesis using chars by (auto simp: map split: if_splits)
  qed
  have fields: "map_of ?fs f = (if \<exists>k\<in>token_keys ts. toField k = Some f then Some (VNum (field_value c f)) else None)" for f
  proof -
    have "map_of (fold add_field ms []) f
        = (if \<exists>k\<in>fst ` set ms. toField k = Some f then Some (VNum (field_value c f)) else map_of [] f)"
      by (rule add_fields) (rule entry)
    then show ?thesis by (simp only: keys matched_fields_fold map_of.simps)
  qed
  have fs: "v = VNum (field_value c f) \<and> (\<exists>u. normalizeUnit f = Ok u)" if "(f, v) \<in> set ?fs" for f v
  proof -
    have "distinct (map fst ?fs)" unfolding matched_fields_fold by (rule add_fields_distinct) simp
    then have "map_of ?fs f = Some v" using that by simp
    then obtain k where k: "k \<in> token_keys ts" "toField k = Some f" "v = VNum (field_value c f)"
      by (auto simp: fields split: if_splits)
    then show ?thesis using key_unit(1) [of k] chars by auto
  qed
  have units: "(\<exists>f\<in>fst ` set ?fs. normalizeUnit f = Ok u) \<longleftrightarrow> u \<in> key_unit ` token_keys ts" for u
  proof -
    have "(\<exists>f\<in>fst ` set ?fs. normalizeUnit f = Ok u)
        \<longleftrightarrow> (\<exists>f. \<exists>k\<in>token_keys ts. toField k = Some f \<and> normalizeUnit f = Ok u)"
      unfolding dom_map_of_conv_image_fst [symmetric] dom_def fields by auto
    also have "\<dots> \<longleftrightarrow> (\<exists>k\<in>token_keys ts. key_unit k = u)"
    proof -
      have "(\<exists>f. toField k = Some f \<and> normalizeUnit f = Ok u) \<longleftrightarrow> key_unit k = u" if "k \<in> token_keys ts" for k
        using key_unit(1) [of k] chars that by auto
      then show ?thesis by blast
    qed
    finally show ?thesis by blast
  qed
  have "map_of ?fs ''weekday''
      = (if UWeekday \<in> key_unit ` token_keys ts then Some (VNum (iso_day (day_no c))) else None)"
  proof -
    have "(\<exists>k\<in>token_keys ts. toField k = Some ''weekday'') \<longleftrightarrow> UWeekday \<in> key_unit ` token_keys ts"
    proof -
      have "toField k = Some ''weekday'' \<longleftrightarrow> key_unit k = UWeekday" if "k \<in> token_keys ts" for k
        using key_unit(1) [of k] key_unit(2) [of k] chars that by auto
      then show ?thesis unfolding image_iff by metis
    qed
    then show ?thesis by (simp add: fields field_value_def unit_value_def unit_names_dt)
  qed
  with normalize_fields [of ?fs, OF fs] show "\<exists>n b. normalizeObject ?fs normalizeUnit = Ok n \<and>
      map_of n = with_weekday c b \<and> map_of ?fs ''weekday'' = (if b then Some (VNum (iso_day (day_no c))) else None)"
    unfolding units complete_obj [OF assms(2) chars] by blast
qed

subsection \<open>Round trip\<close>

lemma from_units_weekday:
  assumes "valid_cal c"
  shows "from_units (with_weekday c b) now = Inl (with_weekday c b)"
proof -
  let ?n = "with_weekday c b"
  have "fst (fold (fill_units defaultUnitValues ob) orderedUnits (?n, False)) = ?n" for ob
    by (auto simp: orderedUnits_def fill_units_def Let_def with_weekday_def obj_of_cal_def fun_eq_iff)
  moreover have "?n UOrdinal = None" "?n UWeekYear = None" "?n UWeekNumber = None" "?n UYear \<noteq> None"
    by (simp_all add: with_weekday_def obj_of_cal_def)
  moreover have "hasInvalidGregorianData ?n = None" "hasInvalidTimeData ?n = None"
    using valid_calD [OF assms]
    by (simp_all add: hasInvalidGregorianData_def hasInvalidTimeData_def with_weekday_def obj_of_cal_def
        integerBetween_def Let_def)
  ultimately show ?thesis by (simp add: from_units_def Let_def truthy_def)
qed

context const_zone
begin

lemma fromObject_fields:
  assumes z: "normalizeZone E (fo_zone opts) (defaultZone E) = z" "fo_specificOffset opts = None"
    and l: "Locale_fromObject E (fo_locale opts) = Ok l" and now: "stamp_ok (st_now E)"
    and c: "valid_cal c" "modern (c_year c)" "in_range off (cal_ms c)"
    and n: "normalizeObject fs normalizeUnit = Ok n" "map_of n = with_weekday c b"
    and w: "map_of fs ''weekday'' = (if b then Some (VNum (iso_day (day_no c))) else None)"
  shows "fromObject E fs opts = Ok (dt_at z off l c)"
proof -
  let ?n = "with_weekday c b"
  have off: "zone_offset E z (Some (of_int (st_now E))) = Some (of_int off)" using offset [OF now] .
  have conf: "conflicting ?n = None" by (simp add: conflicting_def with_weekday_def obj_of_cal_def truthy_def)
  have "stamp_ok (cal_ms c - off * 60000)" using c(3) by (simp add: in_range_def)
  moreover have "objToLocalTS ?n = objToLocalTS (obj_of_cal c)" by (simp add: objToLocalTS_def with_weekday_def)
  ultimately have ts: "objToTS E ?n (Some (of_int off)) z = (Some (of_int (cal_ms c - off * 60000)), Some (of_int off))"
    by (simp add: objToTS_def objToLocalTS_in_range [OF c(1) modern_not_lost [OF c(2)] c(3)] fixOffset_const)
  have new: "DateTime_new E (no_config\<lparr>cf_ts := Some (Some (of_int (cal_ms c - off * 60000))),
      cf_zone := Some z, cf_loc := Some l\<rparr>) = Ok (dt_at z off l c)"
    using new_const [OF c(3)] c(1) by (simp add: no_config_def)
  have day: "\<not> (truthy (?n UWeekday) \<and> (?n UYear \<noteq> None \<or> ?n UMonth \<noteq> None \<or> ?n UDay \<noteq> None) \<and>
      \<not> (\<exists>w\<in>set (case map_of fs ''weekday'' of Some (VNum w) \<Rightarrow> [w] | _ \<Rightarrow> []).
            weekday (dt_at z off l c) = Some w))"
    by (simp add: w weekday_dt_at [OF c(1,2)]) (simp add: with_weekday_def truthy_def)
  show ?thesis
    unfolding fromObject_def z(1) Let_def
    using valid day by (simp only: n z(2) off l conf from_units_weekday [OF c(1)] ts new rbind.simps option.case
        sum.case fst_conv if_False simp_thms not_False_eq_True if_True)
qed

lemma from_matches:
  assumes z: "normalizeZone E (fo_zone opts) (defaultZone E) = z"
    and l: "Locale_fromObject E (fo_locale opts) = Ok l" and now: "stamp_ok (st_now E)"
    and c: "valid_cal c" "modern (c_year c)" "in_range off (cal_ms c)"
    and ts: "list_all plain_token ts" "complete_keys (token_keys ts)"
  shows "parseDataToDateTime E (Some (matched_fields (fold (read_token c) ts []))) None opts format txt None
    = Ok (dt_at z off l c)"
proof -
  let ?fs = "matched_fields (fold (read_token c) ts [])"
  obtain n b where n: "normalizeObject ?fs normalizeUnit = Ok n" "map_of n = with_weekday c b"
    "map_of ?fs ''weekday'' = (if b then Some (VNum (iso_day (day_no c))) else None)"
    using read_fields(2) [OF ts, of c] by blast
  have "?fs \<noteq> []" using n(1,2) by (auto simp: normalizeObject_def with_weekday_def obj_of_cal_def dest: fun_cong [where x = UYear])
  moreover have "fromObject E ?fs (opts\<lparr>fo_zone := fo_zone opts, fo_specificOffset := None\<rparr>) = Ok (dt_at z off l c)"
    by (rule fromObject_fields [OF _ _ _ now c n]) (simp_all add: z l)
  moreover have "setZone E (dt_at z off l c) (fo_zone opts) False = Ok (dt_at z off l c)"
  proof -
    have "const_zone E z off" by unfold_locales
    then show ?thesis using setZone_at [OF _ z, of z off c l] c by simp
  qed
  ultimately show ?thesis by (simp add: parseDataToDateTime_def)
qed

end

lemma expand_plain:
  assumes "list_all plain_token ts"
  shows "expandMacroTokens E I loc ts = Ok ts"
proof -
  have "maybeExpandMacroToken E I loc t = Ok [t]" if "plain_token t" for t
    using that
  proof (cases rule: plain_cases [where c = undefined])
    case verbatim
    then show ?thesis by (auto simp: maybeExpandMacroToken_def verbatim_def no_letter_lookups)
  next
    case (padded k)
    moreover have "list_all (\<lambda>(v, _). macroTokenToFormatOpts v = None) TokenLaws.padded"
      by (simp add: TokenLaws.padded_def macroTokenToFormatOpts_def)
    ultimately show ?thesis using list_allD by (fastforce simp: maybeExpandMacroToken_def)
  next
    case (bare k)
    moreover have "list_all (\<lambda>(v, _). macroTokenToFormatOpts v = None) TokenLaws.bare"
      by (simp add: TokenLaws.bare_def macroTokenToFormatOpts_def)
    ultimately show ?thesis using list_allD by (fastforce simp: maybeExpandMacroToken_def)
  next
    case (named ws)
    moreover have "list_all (\<lambda>(v, _). macroTokenToFormatOpts v = None) TokenLaws.named"
      by (simp add: TokenLaws.named_def macroTokenToFormatOpts_def)
    ultimately show ?thesis using list_allD by (fastforce simp: maybeExpandMacroToken_def)
  qed
  then have "mapM (maybeExpandMacroToken E I loc) ts = Ok (map (\<lambda>t. [t]) ts)"
    using assms by (induction ts) auto
  then show ?thesis by (simp add: expandMacroTokens_def)
qed

lemma explain_text:
  assumes "english loc" "valid_cal c" "0 \<le> c_year c" "c_year c < 10000"
    and "list_all plain_token (parseFormat fmt)" "separated (parseFormat fmt)"
    and "complete_keys (token_keys (parseFormat fmt))"
  defines "ts \<equiv> parseFormat fmt"
  shows "\<exists>r g ms. explainFromTokens E I loc (concat (map (token_text c) ts)) fmt
    = Ok (Explained (concat (map (token_text c) ts)) ts r g ms
        (matched_fields (fold (read_token c) ts [])) None None)"
proof -
  let ?us = "map unit_of ts" and ?txt = "concat (map (token_text c) ts)" and ?ms = "fold (read_token c) ts []"
  note plain = assms(5) [folded ts_def]
  obtain G where G: "match_units ?txt ?us = (Some G, ?ms)"
    using match_units_text [OF assms(2-4) plain assms(6) [folded ts_def]] by blast
  note read = read_fields [OF plain assms(7) [folded ts_def], where c = c]
  have "CHR ''a'' \<notin> fst ` set ?ms"
    unfolding read(3) using token_keys_plain [OF plain, of "CHR ''a''"] by (auto simp: token_chars_def)
  moreover have "list_ex Option.is_none (map (\<lambda>t. Some (unit_of t)) ts) = False"
    by (auto simp: list_ex_iff Option.is_none_def)
  moreover have "map the (map (\<lambda>t. Some (unit_of t)) ts) = ?us" by simp
  ultimately show ?thesis
    unfolding explainFromTokens_def ts_def [symmetric]
    by (simp only: expand_plain [OF plain] units_plain [OF assms(1) plain] G read(1) rbind.simps if_False Let_def
        prod.case simp_thms res.inject explanation.inject ex_simps)
qed

text \<open>What a complete format prints, it reads back.\<close>

context sane_zone
begin

lemma fromFormat_toFormat:
  assumes fmt: "complete_format fmt"
    and out: "Locale_clone E l (Some no_locale_opts) True = Ok loc" "english loc"
    and inp: "Locale_create E None None None True = Ok loc'" "english loc'"
    and z: "normalizeZone E zi (defaultZone E) = z"
    and l: "Locale_fromObject E no_locale_opts = Ok l0" and now: "stamp_ok (st_now E)"
    and c: "valid_cal c" "modern (c_year c)" "c_year c < 10000"
  shows "\<exists>s. toFormat E I (dt_at z off l c) fmt no_locale_opts = Ok s \<and>
    fromFormat E I s fmt (no_from_opts\<lparr>fo_zone := zi\<rparr>) = Ok (dt_at z off l0 c)"
proof -
  let ?ts = "parseFormat fmt"
  let ?s = "concat (map (token_text c) ?ts)" and ?opts = "no_from_opts\<lparr>fo_zone := zi\<rparr>"
  have ts: "list_all plain_token ?ts" "separated ?ts" "complete_keys (token_keys ?ts)"
    using fmt by (simp_all add: complete_format_def Let_def)
  have printed: "toFormat E I (dt_at z off l c) fmt no_locale_opts = Ok ?s"
    by (rule toFormat_text [OF out c ts(1)])
  have y: "0 \<le> c_year c" using c(2) by (simp add: modern_def)
  obtain r g ms where ex: "explainFromTokens E I loc' ?s fmt
      = Ok (Explained ?s ?ts r g ms (matched_fields (fold (read_token c) ?ts [])) None None)"
    using explain_text [OF inp(2) c(1) y c(3) ts, of E I] by blast
  have "fromFormatExplain E I ?s fmt no_locale_opts = explainFromTokens E I loc' ?s fmt"
    by (simp add: fromFormatExplain_def no_locale_opts_def inp(1))
  moreover have "parseDataToDateTime E (Some (matched_fields (fold (read_token c) ?ts []))) None ?opts
      (''format '' @ fmt) ?s None = Ok (dt_at z off l0 c)"
    by (rule from_matches [OF _ _ now c(1,2) modern_in_range [OF c(1,2) small] ts(1,3)])
      (simp_all add: z l no_from_opts_def)
  ultimately have "fromFormat E I ?s fmt ?opts = Ok (dt_at z off l0 c)"
    by (simp add: fromFormat_def no_from_opts_def ex)
  with printed show ?thesis by blast
qed

end

end
