(* ===== verification/RelativeLaws.thy ===== *)
theory RelativeLaws
  imports LuxonRelative SpanLaws TokenLaws
begin

text \<open>
  Relative times in English for a choice among hours, minutes and seconds: the phrase that is
  printed as a function of the difference in milliseconds.
\<close>

definition word_units :: "(string \<times> string \<times> dunit \<times> int) list" where
  "word_units = [(''hours'', (''hour'', Hours, 3600000)), (''minutes'', (''minute'', Minutes, 60000)),
     (''seconds'', (''second'', Seconds, 1000))]"

definition unit_size :: "string \<Rightarrow> int" where
  "unit_size u = (case map_of word_units u of Some (_, _, k) \<Rightarrow> k | None \<Rightarrow> 1)"

definition unit_one :: "string \<Rightarrow> string" where
  "unit_one u = (case map_of word_units u of Some (one, _) \<Rightarrow> one | None \<Rightarrow> [])"

text \<open>A count of a unit in words, ago or ahead.\<close>

definition phrase :: "string \<Rightarrow> int \<Rightarrow> string" where
  "phrase u d = (let n = \<bar>d\<bar> div unit_size u; w = show_int n @ '' '' @ (if n = 1 then unit_one u else u)
     in if d < 0 then w @ '' ago'' else ''in '' @ w)"

text \<open>The first unit the difference reaches, or the last one.\<close>

fun relative_words :: "string list \<Rightarrow> int \<Rightarrow> string" where
  "relative_words [] d = []"
| "relative_words [u] d = phrase u d"
| "relative_words (u # us) d = (if unit_size u \<le> \<bar>d\<bar> then phrase u d else relative_words us d)"

lemma word_units:
  assumes "u \<in> {''hours'', ''minutes'', ''seconds''}"
  obtains U where "Duration_normalizeUnit u = Ok U" "U \<in> clock_units" "0 < unit_size u"
    "\<And>v. keys v = {U} \<Longrightarrow> clock_ms v = dval v U * of_int (unit_size u)"
    "\<exists>s. map_of relative_units u = Some (unit_one u, s)"
proof -
  have "\<exists>U. Duration_normalizeUnit u = Ok U \<and> U \<in> clock_units \<and> 0 < unit_size u \<and>
    (\<forall>v. keys v = {U} \<longrightarrow> clock_ms v = dval v U * of_int (unit_size u)) \<and>
    (\<exists>s. map_of relative_units u = Some (unit_one u, s))"
    using assms
    by (auto simp: all_unit_names clock_units_def unit_size_def unit_one_def word_units_def clock_ms_def dval_absent
        relative_units_def)
  then show thesis using that by blast
qed

lemma unit_size_pos: "u \<in> {''hours'', ''minutes'', ''seconds''} \<Longrightarrow> 0 < unit_size u"
  by (auto simp: unit_size_def word_units_def)

text \<open>Whole parts of a quotient.\<close>

lemma round_quotient:
  assumes "0 < k"
  shows "\<bar>roundTo (of_int d / of_int k) 0 True\<bar> = of_int (\<bar>d\<bar> div k)"
proof (cases "0 \<le> d")
  case True
  then have "0 \<le> (of_int d / of_int k :: rat)" using assms by simp
  then show ?thesis
    using True assms by (simp add: roundTo_def js_trunc_def floor_divide_of_int_eq pos_imp_zdiv_nonneg_iff)
next
  case False
  then have neg: "\<not> 0 \<le> (of_int d / of_int k :: rat)" using assms by (simp add: divide_less_0_iff not_le)
  have "\<lceil>of_int d / of_int k :: rat\<rceil> = - (- d div k)"
    using floor_divide_of_int_eq [of "- d" k, where ?'a = rat] by (simp add: ceiling_def)
  moreover have "0 \<le> - d div k" using False assms by (simp add: pos_imp_zdiv_nonneg_iff)
  ultimately show ?thesis using False neg by (simp add: roundTo_def js_trunc_def)
qed

lemma formatRelative_phrase:
  assumes "u \<in> {''hours'', ''minutes'', ''seconds''}" "\<bar>c\<bar> = of_int (\<bar>d\<bar> div unit_size u)" "p = (d < 0)"
  shows "formatRelativeTime u p (Some c) ''always'' False = Ok (phrase u d)"
proof -
  obtain s where s: "map_of relative_units u = Some (unit_one u, s)" using word_units [OF assms(1)] by metis
  define n where "n = \<bar>d\<bar> div unit_size u"
  have c: "\<bar>c\<bar> = of_int n" using assms(2) by (simp only: n_def)
  have "0 \<le> n" unfolding n_def using unit_size_pos [OF assms(1)] by (simp add: pos_imp_zdiv_nonneg_iff)
  then have n: "show_rat (of_int n) = show_int n" by (simp add: show_rat_def)
  have "(Some (of_int n :: rat) = Some 1) = (n = 1)" by simp
  then show ?thesis
    unfolding assms(3) formatRelativeTime_def phrase_def Let_def n_def [symmetric] s option.map option.case c n
    by simp
qed

context sane_zone
begin

lemma plus_nothing:
  assumes "valid_cal c" "modern (c_year c)" "Locale_fromObject E no_locale_opts = Ok l0"
  shows "plus E (dt_at z off l c) (DNumber (Some 0)) = Ok (dt_at z off l c)"
proof -
  let ?d = "\<lparr>d_values = [(Milliseconds, 0)], d_loc = l0, d_longterm = False, d_invalid = None\<rparr>"
  have "Duration_fromMillis E (Some 0) no_locale_opts False = Ok ?d"
    by (simp add: Duration_fromMillis_def Duration_fromObject_def assms(3) uval_of_num_def
        normalizeObject_one [where normalizer = Duration_normalizeUnit, OF all_unit_names(9)])
  then have "plus E (dt_at z off l c) (DNumber (Some 0)) = plus E (dt_at z off l c) (DDuration ?d)"
    by (simp add: plus_def fromDurationLike_def)
  also have "\<dots> = Ok (dt_at z off l (cal_of_ms (cal_ms c + 0)))"
    using modern_in_range [OF assms(1,2) small]
    by (intro plus_clock [OF assms(1,2) _ _ _ _ assms(3)])
      (simp_all add: Duration_isValid_def keys_def clock_units_def clock_ms_def dval_def)
  finally show ?thesis using assms(1) by simp
qed

lemma differ_clock:
  assumes "u \<in> {''hours'', ''minutes'', ''seconds''}"
    and "Locale_fromObject E (diff_opts (dt_at z off l c) no_locale_opts) = Ok l1"
  shows "rel_differ E (dt_at z off l' c') (dt_at z off l c) False u
    = Ok (Some (of_int (cal_ms c - cal_ms c') / of_int (unit_size u)))"
proof -
  obtain U where U: "Duration_normalizeUnit u = Ok U" "U \<in> clock_units" "0 < unit_size u"
    "\<And>v. keys v = {U} \<Longrightarrow> clock_ms v = dval v U * of_int (unit_size u)"
    using word_units [OF assms(1)] by metis
  have good: "good (dt_at z off l c)" for l c by (simp add: good_def dt_at_def isValid_def)
  have "\<exists>d. DateTime_diff E (dt_at z off l c) (dt_at z off l' c') [u] no_locale_opts False = Ok d \<and>
    Duration_isValid d \<and> clock_ms (d_values d) = stamp (dt_at z off l c) - stamp (dt_at z off l' c') \<and>
    keys (d_values d) = set [U]"
    by (rule diff_clock [OF good good _ _ _ assms(2)]) (simp_all add: U)
  then obtain d where d: "DateTime_diff E (dt_at z off l c) (dt_at z off l' c') [u] no_locale_opts False = Ok d"
    "Duration_isValid d" "clock_ms (d_values d) = stamp (dt_at z off l c) - stamp (dt_at z off l' c')"
    "keys (d_values d) = {U}" by auto
  have "dval (d_values d) U = of_int (cal_ms c - cal_ms c') / of_int (unit_size u)"
    using U(3) U(4) [OF d(4)] d(3) by (simp add: stamp_def dt_at_def field_simps)
  then show ?thesis by (simp add: rel_differ_def d(1,2) Duration_get_def U(1) dget_def)
qed

lemma rel_format_clock:
  assumes "u \<in> {''hours'', ''minutes'', ''seconds''}" "ro_round opts" "ro_style opts = None"
    and "Locale_clone E l (Some (ro_locale opts)) False = Ok loc" "english loc"
    and "\<bar>roundTo x 0 True\<bar> = of_int (\<bar>d\<bar> div unit_size u)" "p = (d < 0)"
  shows "rel_format E I (dt_at z off l c) opts ''always'' False p (Some x) u = Ok (phrase u d)"
proof -
  have "isEnglish I loc = Ok True"
  proof -
    have "toLowerCase ''en-US'' = ''en-us''" by code_simp
    then show ?thesis using assms(5) by (simp add: isEnglish_def english_def)
  qed
  with assms(2-4) formatRelative_phrase [OF assms(1,6,7)] show ?thesis
    by (simp add: rel_format_def PolyRel_format_def)
qed

lemma relative_pick:
  fixes c' :: cal and l' :: locale_obj
  assumes "us \<noteq> []" "set us \<subseteq> {''hours'', ''minutes'', ''seconds''}"
    and D: "Locale_fromObject E (diff_opts (dt_at z off l c) no_locale_opts) = Ok l1"
  defines "d \<equiv> cal_ms c - cal_ms c'"
  shows "(\<exists>u x. rel_pick (rel_differ E (dt_at z off l' c') (dt_at z off l c) False) us = Ok (Some (u, Some x)) \<and>
      u \<in> set us \<and> x = of_int d / of_int (unit_size u) \<and> relative_words us d = phrase u d) \<or>
    rel_pick (rel_differ E (dt_at z off l' c') (dt_at z off l c) False) us = Ok None \<and>
      relative_words us d = phrase (last us) d \<and> \<bar>d\<bar> < unit_size (last us)"
  using assms(1,2)
proof (induction us)
  case (Cons u us)
  let ?x = "of_int d / of_int (unit_size u) :: rat"
  have u: "u \<in> {''hours'', ''minutes'', ''seconds''}" "0 < unit_size u"
    using Cons.prems(2) unit_size_pos by auto
  have diff: "rel_differ E (dt_at z off l' c') (dt_at z off l c) False u = Ok (Some ?x)"
    unfolding d_def by (rule differ_clock [OF u(1) D])
  have reach: "1 \<le> \<bar>?x\<bar> \<longleftrightarrow> unit_size u \<le> \<bar>d\<bar>"
  proof -
    have "\<bar>?x\<bar> = of_int \<bar>d\<bar> / of_int (unit_size u)" using u(2) by simp
    then show ?thesis using u(2) by (simp add: le_divide_eq flip: of_int_abs)
  qed
  show ?case
  proof (cases "unit_size u \<le> \<bar>d\<bar>")
    case True
    then have "relative_words (u # us) d = phrase u d" by (cases us) simp_all
    with True reach show ?thesis by (simp add: diff nle_def)
  next
    case False
    then have pick: "rel_pick (rel_differ E (dt_at z off l' c') (dt_at z off l c) False) (u # us)
        = rel_pick (rel_differ E (dt_at z off l' c') (dt_at z off l c) False) us"
      using reach by (simp add: diff nle_def)
    show ?thesis
    proof (cases us)
      case Nil
      with False pick show ?thesis by simp
    next
      case (Cons v vs)
      then have "relative_words (u # us) d = relative_words us d" using False by simp
      moreover have "us \<noteq> []" "set us \<subseteq> {''hours'', ''minutes'', ''seconds''}"
        using Cons \<open>set (u # us) \<subseteq> _\<close> by (simp, simp)
      moreover have "last (u # us) = last us" using Cons by simp
      ultimately show ?thesis unfolding pick using Cons.IH by (metis list.set_intros(2))
    qed
  qed
qed simp

text \<open>The text of a relative time.\<close>

lemma toRelative_words:
  assumes us: "us \<noteq> []" "set us \<subseteq> {''hours'', ''minutes'', ''seconds''}"
    and c: "valid_cal c" "modern (c_year c)" and L: "Locale_fromObject E no_locale_opts = Ok l0"
    and D: "Locale_fromObject E (diff_opts (dt_at z off l c) no_locale_opts) = Ok l1"
    and loc: "Locale_clone E l (Some no_locale_opts) False = Ok loc" "english loc"
  shows "toRelative E I (dt_at z off l c)
      (no_rel_opts\<lparr>ro_base := Some (dt_at z off l' c'), ro_unit := Units us\<rparr>)
    = Ok (Some (relative_words us (cal_ms c - cal_ms c')))"
proof -
  let ?opts = "no_rel_opts\<lparr>ro_base := Some (dt_at z off l' c'), ro_unit := Units us\<rparr>"
  let ?a = "dt_at z off l c" and ?b = "dt_at z off l' c'"
  define d where "d = cal_ms c - cal_ms c'"
  have opts: "ro_round ?opts" "ro_style ?opts = None" "ro_locale ?opts = no_locale_opts" "ro_padding ?opts = 0"
    "ro_unit ?opts = Units us" "ro_base ?opts = Some ?b"
    by (simp_all add: no_rel_opts_def)
  have clone: "Locale_clone E l (Some (ro_locale ?opts)) False = Ok loc" using loc(1) opts(3) by simp
  note fmt = rel_format_clock [OF _ opts(1,2) clone loc(2)]
  have "diffRelative E I ?b ?a ?opts ''always'' False us = Ok (relative_words us d)"
    using relative_pick [OF us D, of l' c', folded d_def]
  proof (elim disjE exE conjE)
    fix u x
    assume p: "rel_pick (rel_differ E ?b ?a False) us = Ok (Some (u, Some x))" "u \<in> set us"
      "x = of_int d / of_int (unit_size u)" "relative_words us d = phrase u d"
    have u: "u \<in> {''hours'', ''minutes'', ''seconds''}" "0 < unit_size u" using p(2) us(2) unit_size_pos by auto
    have "rel_format E I ?a ?opts ''always'' False (negative_count (Some x)) (Some x) u = Ok (phrase u d)"
      by (rule fmt [OF u(1)])
        (use u(2) in \<open>simp_all add: p(3) round_quotient negative_count_def nless_def divide_less_0_iff\<close>)
    then show ?thesis by (simp add: diffRelative_def opts p Let_def)
  next
    assume p: "rel_pick (rel_differ E ?b ?a False) us = Ok None"
      "relative_words us d = phrase (last us) d" "\<bar>d\<bar> < unit_size (last us)"
    have u: "last us \<in> {''hours'', ''minutes'', ''seconds''}" using us last_in_set [OF us(1)] by blast
    have ts: "(cal_ms c < cal_ms c') = (d < 0)" by (auto simp: d_def)
    have "rel_format E I ?a ?opts ''always'' False (d < 0) (Some 0) (last us) = Ok (phrase (last us) d)"
      by (rule fmt [OF u]) (use p(3) in \<open>simp_all add: roundTo_def js_trunc_def\<close>)
    then show ?thesis using us(1) by (simp add: diffRelative_def opts p Let_def nless_def ts)
  qed
  then show ?thesis
    by (simp add: toRelative_def rel_base_def opts plus_nothing [OF c L] Let_def d_def)
qed

end

end
