(* ===== verification/FormatProperties.thy ===== *)
theory FormatProperties
  imports RelativeLaws Sample
begin

text \<open>
  The properties of formats: how a format is cut into tokens, and that what a format prints is read back
  by it.
\<close>

text \<open>A browser without any of the services of \<open>Intl\<close> that the formats of the samples do not need.\<close>

definition sample_intl :: intl where
  "sample_intl = \<lparr>in_format = (\<lambda>_ _ _. None), in_parts = (\<lambda>_ _ _. None), in_locale = (\<lambda>_. None),
     in_numbering = (\<lambda>_. None), in_number = (\<lambda>_ _ _. None), in_relative = None, in_list = (\<lambda>_ _ _. None)\<rparr>"

text \<open>Cutting a format into tokens loses nothing but the quotes, and each token that is not quoted is a run of one character.\<close>

theorem format_tokens:
  "concat (map tk_val (parseFormat fmt)) = unquoted fmt \<and> list_all run_token (parseFormat fmt)"
  by (simp add: parseFormat_text list_all_iff parseFormat_tokens)


definition long_format :: string where
  "long_format = ''cccc, d LLLL yyyy'' @ [CHR 0x27] @ '' at '' @ [CHR 0x27] @ ''HH:m:ss.SSS''"

abbreviation tok :: "string \<Rightarrow> token" where
  "tok v \<equiv> \<lparr>tk_literal = False, tk_val = v\<rparr>"

lemma long_format_tokens:
  "parseFormat long_format = [tok ''cccc'', tok '','', tok '' '', tok ''d'', tok '' '', tok ''LLLL'', tok '' '',
     tok ''yyyy'', \<lparr>tk_literal = True, tk_val = '' at ''\<rparr>, tok ''HH'', tok '':'', tok ''m'', tok '':'', tok ''ss'',
     tok ''.'', tok ''SSS'']"
  by (simp add: parseFormat_def long_format_def push_token_def)

lemma long_format: "complete_format long_format"
  by (simp add: complete_format_def long_format_tokens plain_token_def verbatim_def letter_def padded_def bare_def
      named_def starts_apart_def is_digit_def complete_keys_def)




lemma sample_diff_locale:
  "Locale_fromObject sample (diff_opts (dt_at utc_zone 0 sample_locale c) no_locale_opts)
    = Locale_create sample (Some (l_locale sample_locale)) (l_numberingSystem sample_locale) None False"
  by (simp add: diff_opts_def Locale_fromObject_def no_locale_opts_def dt_at_def)


subsection \<open>What the model shows of the code\<close>

text \<open>The digits of \<open>hanidec\<close> are written with bars between them in a character class, so a bar is a digit,
  with the value -1.\<close>

lemma hanidec_bar:
  "rmatch (digitRegex \<lparr>l_locale = ''zh'', l_numberingSystem = Some ''hanidec'', l_outputCalendar = None,
      l_intl = ''zh'', l_specifiedLocale = None\<rparr> 1 1) ''|'' Map.empty (\<lambda>s g. Some s) = Some [] \<and>
    parseDigits ''|'' = VNum (-1)"
  by code_simp

text \<open>The token \<open>z\<close> prints names of zones with digits and colons, and does not read them.\<close>

lemma zone_token_digits:
  "\<exists>u. unitForToken sample sample_intl sample_locale \<lparr>tk_literal = False, tk_val = ''z''\<rparr> = Ok (Some u) \<and>
    zone_name sample (FixedOffsetZone 330) = ''UTC+5:30'' \<and> exec_full (buildRegex [u]) ''UTC+5:30'' = None"
proof -
  let ?t = "\<lparr>tk_literal = False, tk_val = ''z''\<rparr>"
  let ?u = "simple_unit ?t (ClsLazy zone_char 1 256)"
  have "unitForToken sample sample_intl sample_locale ?t = Ok (Some ?u)"
    by (simp add: unitForToken_def number_tokens_def name_token_def)
  moreover have "zone_name sample (FixedOffsetZone 330) = ''UTC+5:30''" by code_simp
  moreover have "takeWhile zone_char ''UTC+5:30'' = ''UTC+''" by (simp add: zone_char_def)
  then have "rmatch (ClsLazy zone_char 1 256) ''UTC+5:30'' g k = try_up k ''UTC+5:30'' g 1 (Suc (Suc (Suc (Suc 0))))"
    for g and k :: "string \<Rightarrow> groups \<Rightarrow> groups option"
    by simp
  then have "exec_full (buildRegex [?u]) ''UTC+5:30'' = None"
    by (simp add: exec_full_def buildRegex_def simple_unit_def del: rmatch.simps(2))
  ultimately show ?thesis by blast
qed

text \<open>The offset of a zone that does not exist is \<open>NaN\<close>, which differs from itself: \<open>Info.hasDST\<close> says yes.\<close>

lemma hasDST_unknown_zone: "Info_hasDST sample (ZString ''Nowhere'') = Ok True"
  by code_simp

end
