(* ===== verification/LuxonCache.thy ===== *)
theory LuxonCache
  imports LuxonZone
begin

text \<open>
  The caches of the date library of \<open>ui/js/bundle.js\<close>: the formatters of \<open>Intl\<close>, kept under the JSON
  text of a locale and options, the locale of the system, and the time zones with their formatters; and the setters of
  \<open>Settings\<close>, whose fields are in \<open>LuxonZone\<close>.
  The other theories compute what a cache would give; \<open>CacheLaws\<close> shows that this makes no difference.

  A cache is a JavaScript object, so a name that every object inherits (\<open>constructor\<close> and others) is
  found in an empty cache as well. The texts that are made by \<open>JSON.stringify\<close> are no such names; the
  names of time zones can be.
\<close>

subsection \<open>JSON\<close>

datatype json = JNull | JBool bool | JNum int | JStr string | JArr "json list" | JObj "(string \<times> json) list"

definition hex_char :: "nat \<Rightarrow> char" where
  [js_defs]: "hex_char n = ''0123456789abcdef'' ! n"

definition short_escapes :: "(char \<times> char) list" where
  [js_defs]: "short_escapes = [(CHR 0x22, CHR 0x22), (CHR 0x5C, CHR 0x5C), (CHR 0x08, CHR ''b''),
     (CHR 0x0C, CHR ''f''), (CHR 0x0A, CHR ''n''), (CHR 0x0D, CHR ''r''), (CHR 0x09, CHR ''t'')]"

definition json_char :: "char \<Rightarrow> string" where
  [js_defs]: "json_char c = (case map_of short_escapes c of
       Some d \<Rightarrow> [CHR 0x5C, d]
     | None \<Rightarrow> if code c < 32
         then CHR 0x5C # ''u00'' @ [hex_char (code c div 16), hex_char (code c mod 16)]
         else [c])"

definition json_string :: "string \<Rightarrow> string" where
  [js_defs]: "json_string s = CHR 0x22 # concat (map json_char s) @ [CHR 0x22]"

fun commas :: "string list \<Rightarrow> string" where
  "commas [] = []"
| "commas [x] = x"
| "commas (x # y # ys) = x @ CHR '','' # commas (y # ys)"

fun stringify :: "json \<Rightarrow> string" where
  "stringify JNull = ''null''"
| "stringify (JBool b) = (if b then ''true'' else ''false'')"
| "stringify (JNum n) = show_int n"
| "stringify (JStr s) = json_string s"
| "stringify (JArr xs) = CHR ''['' # commas (map stringify xs) @ '']''"
| "stringify (JObj ms) =
     CHR 0x7B # commas (map (\<lambda>(k, v). json_string k @ CHR '':'' # stringify v) ms) @ [CHR 0x7D]"

subsection \<open>Caches\<close>

type_synonym js_opts = "(string \<times> json) list"

text \<open>What the constructors of \<open>Intl\<close> return or throw for a locale and options, and the locale of the
  system; \<open>'f\<close> are the formatters.\<close>

record 'f services =
  sv_list :: "string \<Rightarrow> js_opts \<Rightarrow> 'f res"
  sv_date :: "string \<Rightarrow> js_opts \<Rightarrow> 'f res"
  sv_number :: "string \<Rightarrow> js_opts \<Rightarrow> 'f res"
  sv_relative :: "string \<Rightarrow> js_opts \<Rightarrow> 'f res"
  sv_locale :: string

record 'f caches =
  ch_list :: "string \<rightharpoonup> 'f"
  ch_date :: "string \<rightharpoonup> 'f"
  ch_number :: "string \<rightharpoonup> 'f"
  ch_relative :: "string \<rightharpoonup> 'f"
  ch_sysLocale :: "string option"
  ch_dtf :: "string \<rightharpoonup> 'f"
  ch_zones :: "string \<rightharpoonup> zone"

definition no_caches :: "'f caches" where
  [luxon_defs]: "no_caches = \<lparr>ch_list = Map.empty, ch_date = Map.empty, ch_number = Map.empty,
     ch_relative = Map.empty, ch_sysLocale = None, ch_dtf = Map.empty, ch_zones = Map.empty\<rparr>"

text \<open>The names an empty object has from \<open>Object.prototype\<close>.\<close>

definition object_keys :: "string list" where
  [js_defs]: "object_keys = [''constructor'', ''hasOwnProperty'', ''isPrototypeOf'', ''propertyIsEnumerable'',
     ''toLocaleString'', ''toString'', ''valueOf'', ''__proto__'', ''__defineGetter__'', ''__defineSetter__'',
     ''__lookupGetter__'', ''__lookupSetter__'']"

text \<open>What reading a cache gives: an object that was put there, or what the name inherits.\<close>

datatype 'f entry = Own 'f | Inherited string

definition cached :: "(string \<rightharpoonup> 'f) \<Rightarrow> string \<Rightarrow> 'f res \<Rightarrow> 'f entry res \<times> (string \<rightharpoonup> 'f)" where
  [luxon_defs]: "cached c key fresh =
     (if key \<in> set object_keys then (Ok (Inherited key), c)
      else case c key of
        Some f \<Rightarrow> (Ok (Own f), c)
      | None \<Rightarrow> (rmap Own fresh, case fresh of Ok f \<Rightarrow> c(key \<mapsto> f) | _ \<Rightarrow> c))"

definition format_key :: "string \<Rightarrow> js_opts \<Rightarrow> string" where
  [luxon_defs]: "format_key locString opts = stringify (JArr [JStr locString, JObj opts])"

definition getCachedLF :: "'f services \<Rightarrow> string \<Rightarrow> js_opts \<Rightarrow> 'f caches \<Rightarrow> 'f entry res \<times> 'f caches" where
  [luxon_defs]: "getCachedLF S locString opts ch =
     (let (r, c) = cached (ch_list ch) (format_key locString opts) (sv_list S locString opts)
      in (r, ch\<lparr>ch_list := c\<rparr>))"

definition getCachedDTF :: "'f services \<Rightarrow> string \<Rightarrow> js_opts \<Rightarrow> 'f caches \<Rightarrow> 'f entry res \<times> 'f caches" where
  [luxon_defs]: "getCachedDTF S locString opts ch =
     (let (r, c) = cached (ch_date ch) (format_key locString opts) (sv_date S locString opts)
      in (r, ch\<lparr>ch_date := c\<rparr>))"

definition getCachedINF :: "'f services \<Rightarrow> string \<Rightarrow> js_opts \<Rightarrow> 'f caches \<Rightarrow> 'f entry res \<times> 'f caches" where
  [luxon_defs]: "getCachedINF S locString opts ch =
     (let (r, c) = cached (ch_number ch) (format_key locString opts) (sv_number S locString opts)
      in (r, ch\<lparr>ch_number := c\<rparr>))"

text \<open>The key of a relative formatter leaves out \<open>base\<close>; the constructor is given all options.\<close>

definition without_base :: "js_opts \<Rightarrow> js_opts" where
  [luxon_defs]: "without_base opts = filter (\<lambda>(k, v). k \<noteq> ''base'') opts"

definition getCachedRTF :: "'f services \<Rightarrow> string \<Rightarrow> js_opts \<Rightarrow> 'f caches \<Rightarrow> 'f entry res \<times> 'f caches" where
  [luxon_defs]: "getCachedRTF S locString opts ch =
     (let cacheKeyOpts = without_base opts;
          (r, c) = cached (ch_relative ch) (format_key locString cacheKeyOpts) (sv_relative S locString opts)
      in (r, ch\<lparr>ch_relative := c\<rparr>))"

definition systemLocale :: "'f services \<Rightarrow> 'f caches \<Rightarrow> string \<times> 'f caches" where
  [luxon_defs]: "systemLocale S ch = (case ch_sysLocale ch of
       Some (c # cs) \<Rightarrow> (c # cs, ch)
     | _ \<Rightarrow> (sv_locale S, ch\<lparr>ch_sysLocale := Some (sv_locale S)\<rparr>))"

definition dtf_options :: "string \<Rightarrow> js_opts" where
  [luxon_defs]: "dtf_options zone = [(''hour12'', JBool False), (''timeZone'', JStr zone),
     (''year'', JStr ''numeric''), (''month'', JStr ''2-digit''), (''day'', JStr ''2-digit''),
     (''hour'', JStr ''2-digit''), (''minute'', JStr ''2-digit''), (''second'', JStr ''2-digit''),
     (''era'', JStr ''short'')]"

definition makeDTF :: "'f services \<Rightarrow> string \<Rightarrow> 'f caches \<Rightarrow> 'f entry res \<times> 'f caches" where
  [luxon_defs]: "makeDTF S zone ch =
     (let (r, c) = cached (ch_dtf ch) zone (sv_date S ''en-US'' (dtf_options zone))
      in (r, ch\<lparr>ch_dtf := c\<rparr>))"

text \<open>\<open>IANAZone.create\<close>; the theories of dates use \<open>IANAZone_create\<close>, which always makes a new zone.\<close>

definition create_zone :: "'a platform_scheme \<Rightarrow> string \<Rightarrow> 'f caches \<Rightarrow> zone entry res \<times> 'f caches" where
  [luxon_defs]: "create_zone E name ch =
     (let (r, c) = cached (ch_zones ch) name (Ok (IANAZone_create E name))
      in (r, ch\<lparr>ch_zones := c\<rparr>))"

definition Locale_resetCache :: "'f caches \<Rightarrow> 'f caches" where
  [luxon_defs]: "Locale_resetCache ch = ch\<lparr>ch_sysLocale := None, ch_date := Map.empty,
     ch_number := Map.empty, ch_relative := Map.empty\<rparr>"

definition IANAZone_resetCache :: "'f caches \<Rightarrow> 'f caches" where
  [luxon_defs]: "IANAZone_resetCache ch = ch\<lparr>ch_zones := Map.empty, ch_dtf := Map.empty\<rparr>"

definition resetCaches :: "'f caches \<Rightarrow> 'f caches" where
  [luxon_defs]: "resetCaches ch = IANAZone_resetCache (Locale_resetCache ch)"

subsection \<open>The setters of \<open>Settings\<close>\<close>

text \<open>The clock is a function the caller sets; \<open>st_now\<close> is what it shows.\<close>

definition set_now :: "int \<Rightarrow> settings \<Rightarrow> settings" where
  [luxon_defs]: "set_now n E = E\<lparr>st_now := n\<rparr>"

definition set_defaultZone :: "zone_input \<Rightarrow> settings \<Rightarrow> settings" where
  [luxon_defs]: "set_defaultZone z E = E\<lparr>st_defaultZone := z\<rparr>"

definition set_defaultLocale :: "string option \<Rightarrow> settings \<Rightarrow> settings" where
  [luxon_defs]: "set_defaultLocale l E = E\<lparr>st_defaultLocale := l\<rparr>"

definition set_defaultNumberingSystem :: "string option \<Rightarrow> settings \<Rightarrow> settings" where
  [luxon_defs]: "set_defaultNumberingSystem n E = E\<lparr>st_defaultNumberingSystem := n\<rparr>"

definition set_defaultOutputCalendar :: "string option \<Rightarrow> settings \<Rightarrow> settings" where
  [luxon_defs]: "set_defaultOutputCalendar c E = E\<lparr>st_defaultOutputCalendar := c\<rparr>"

definition set_throwOnInvalid :: "bool \<Rightarrow> settings \<Rightarrow> settings" where
  [luxon_defs]: "set_throwOnInvalid t E = E\<lparr>st_throwOnInvalid := t\<rparr>"

subsection \<open>Sequences of calls\<close>

datatype request =
    List_format string js_opts
  | Date_format string js_opts
  | Number_format string js_opts
  | Relative_format string js_opts
  | System_locale
  | Zone_format string
  | Zone string
  | Reset_locales
  | Reset_zones
  | Reset_all

datatype 'f answer = Formatter "'f entry" | Locale_name string | Zone_object "zone entry" | Done

fun answer_call :: "'a platform_scheme \<Rightarrow> 'f services \<Rightarrow> request \<Rightarrow> 'f caches \<Rightarrow> 'f answer res \<times> 'f caches" where
  "answer_call E S (List_format l opts) ch = apfst (rmap Formatter) (getCachedLF S l opts ch)"
| "answer_call E S (Date_format l opts) ch = apfst (rmap Formatter) (getCachedDTF S l opts ch)"
| "answer_call E S (Number_format l opts) ch = apfst (rmap Formatter) (getCachedINF S l opts ch)"
| "answer_call E S (Relative_format l opts) ch = apfst (rmap Formatter) (getCachedRTF S l opts ch)"
| "answer_call E S System_locale ch = apfst (\<lambda>l. Ok (Locale_name l)) (systemLocale S ch)"
| "answer_call E S (Zone_format z) ch = apfst (rmap Formatter) (makeDTF S z ch)"
| "answer_call E S (Zone z) ch = apfst (rmap Zone_object) (create_zone E z ch)"
| "answer_call E S Reset_locales ch = (Ok Done, Locale_resetCache ch)"
| "answer_call E S Reset_zones ch = (Ok Done, IANAZone_resetCache ch)"
| "answer_call E S Reset_all ch = (Ok Done, resetCaches ch)"

text \<open>The answers to a sequence of calls, each with the caches the calls before it left.\<close>

fun answers :: "'a platform_scheme \<Rightarrow> 'f services \<Rightarrow> request list \<Rightarrow> 'f caches \<Rightarrow> 'f answer res list" where
  "answers E S [] ch = []"
| "answers E S (r # rs) ch = (let (a, ch') = answer_call E S r ch in a # answers E S rs ch')"

text \<open>The answers of a library without caches.\<close>

fun fresh_answer :: "'a platform_scheme \<Rightarrow> 'f services \<Rightarrow> request \<Rightarrow> 'f answer res" where
  "fresh_answer E S (List_format l opts) = rmap (\<lambda>f. Formatter (Own f)) (sv_list S l opts)"
| "fresh_answer E S (Date_format l opts) = rmap (\<lambda>f. Formatter (Own f)) (sv_date S l opts)"
| "fresh_answer E S (Number_format l opts) = rmap (\<lambda>f. Formatter (Own f)) (sv_number S l opts)"
| "fresh_answer E S (Relative_format l opts) = rmap (\<lambda>f. Formatter (Own f)) (sv_relative S l opts)"
| "fresh_answer E S System_locale = Ok (Locale_name (sv_locale S))"
| "fresh_answer E S (Zone_format z) = rmap (\<lambda>f. Formatter (Own f)) (sv_date S ''en-US'' (dtf_options z))"
| "fresh_answer E S (Zone z) = Ok (Zone_object (Own (IANAZone_create E z)))"
| "fresh_answer E S _ = Ok Done"

end
