(* ===== verification/CacheLaws.thy ===== *)
theory CacheLaws
  imports LuxonCache
begin

text \<open>
  JSON texts determine the values they are made from, so a cache that is kept under them holds, under
  the key of a call, what the call would compute. The locale \<open>memo\<close> says what a cache relies on.
\<close>

subsection \<open>JSON texts\<close>

lemma short_escapes_inj:
  "map_of short_escapes c = Some x \<Longrightarrow> map_of short_escapes d = Some x \<Longrightarrow> c = d"
  "map_of short_escapes c \<noteq> Some CHR ''u''"
  by (auto simp: short_escapes_def split: if_splits)

lemma hex_char_inj: "m < 16 \<Longrightarrow> n < 16 \<Longrightarrow> hex_char m = hex_char n \<longleftrightarrow> m = n"
  unfolding hex_char_def by (subst nth_eq_iff_index_eq) simp_all

lemma json_char_cases:
  obtains (short) x where "map_of short_escapes c = Some x" "json_char c = [CHR 0x5C, x]"
  | (control) "code c < 32" "json_char c = CHR 0x5C # ''u00'' @ [hex_char (code c div 16), hex_char (code c mod 16)]"
  | (plain) "json_char c = [c]" "c \<noteq> CHR 0x5C" "c \<noteq> CHR 0x22"
proof (cases "map_of short_escapes c")
  case None
  then have "c \<noteq> CHR 0x5C" "c \<noteq> CHR 0x22" by (auto simp: short_escapes_def)
  with None control plain show thesis by (cases "code c < 32") (auto simp: json_char_def)
qed (use short in \<open>simp add: json_char_def\<close>)

lemma code_hex: "hex_char (code c div 16) = hex_char (code d div 16) \<Longrightarrow>
    hex_char (code c mod 16) = hex_char (code d mod 16) \<Longrightarrow> c = d"
  if "code c < 32" "code d < 32"
proof -
  assume h: "hex_char (code c div 16) = hex_char (code d div 16)" "hex_char (code c mod 16) = hex_char (code d mod 16)"
  have "code c div 16 = code d div 16" "code c mod 16 = code d mod 16"
    using h that hex_char_inj [of "code c div 16" "code d div 16"] hex_char_inj [of "code c mod 16" "code d mod 16"]
    by simp_all
  then have "code c = code d" by (metis div_mult_mod_eq)
  then show "c = d" by simp
qed

lemma json_char_apart: "json_char c @ r = json_char d @ r' \<longleftrightarrow> c = d \<and> r = r'"
proof
  assume e: "json_char c @ r = json_char d @ r'"
  show "c = d \<and> r = r'"
  proof (cases c rule: json_char_cases)
    case c: (short x)
    show ?thesis
      by (cases d rule: json_char_cases) (use e c short_escapes_inj in \<open>auto\<close>)
  next
    case c: control
    show ?thesis
      by (cases d rule: json_char_cases) (use e c short_escapes_inj code_hex [of c d] in \<open>auto\<close>)
  next
    case c: plain
    show ?thesis
      by (cases d rule: json_char_cases) (use e c in \<open>auto\<close>)
  qed
qed simp

lemma json_char_quote: "json_char c \<noteq> CHR 0x22 # s" "json_char c \<noteq> []"
  by (cases c rule: json_char_cases; auto)+

lemma json_string_apart: "json_string s @ r = json_string s' @ r' \<longleftrightarrow> s = s' \<and> r = r'"
proof -
  have "concat (map json_char s) @ CHR 0x22 # r = concat (map json_char s') @ CHR 0x22 # r' \<Longrightarrow> s = s' \<and> r = r'"
  proof (induction s arbitrary: s')
    case Nil
    then show ?case using json_char_quote json_char_quote [symmetric] by (cases s') (auto simp: Cons_eq_append_conv)
  next
    case (Cons c s)
    then show ?case using json_char_quote json_char_quote [symmetric]
      by (cases s') (auto simp: append_eq_Cons_conv Cons_eq_append_conv json_char_apart)
  qed
  then show ?thesis by (auto simp: json_string_def)
qed

text \<open>A text that ends a value: nothing, or the characters that can follow one.\<close>

definition closes :: "string \<Rightarrow> bool" where
  "closes r \<longleftrightarrow> r = [] \<or> hd r \<in> {CHR '','', CHR '']'', CHR 0x7D}"

lemma closes_simps [simp]:
  "closes []" "closes (CHR '','' # r)" "closes (CHR '']'' # r)" "closes (CHR 0x7D # r)"
  by (simp_all add: closes_def)

lemma show_int_apart:
  assumes "show_int m @ r = show_int n @ r'" "closes r" "closes r'"
  shows "m = n \<and> r = r'"
proof -
  let ?P = "\<lambda>c. is_digit c \<or> c = CHR ''-''"
  have i: "takeWhile ?P (show_int k @ q) = show_int k" if "closes q" for k q
  proof -
    have "?P c" if "c \<in> set (show_int k)" for c
      using that by (auto simp: show_int_def dest: show_nat_digits split: if_splits)
    moreover have "takeWhile ?P q = []"
      using \<open>closes q\<close> by (cases q) (auto simp: closes_def is_digit_def)
    ultimately show ?thesis by simp
  qed
  have "show_int m = show_int n" using i [OF assms(2), of m] i [OF assms(3), of n] assms(1) by simp
  moreover from this have "m = n" by (metis parseInt_show_int option.inject)
  ultimately show ?thesis using assms(1) by simp
qed

text \<open>The elements of a list, each after a comma.\<close>

definition tail_text :: "('a \<Rightarrow> string) \<Rightarrow> 'a list \<Rightarrow> string" where
  "tail_text f xs = concat (map (\<lambda>x. CHR '','' # f x) xs)"

lemma tail_text_simps [simp]:
  "tail_text f [] = []" "tail_text f (x # xs) = CHR '','' # f x @ tail_text f xs"
  by (simp_all add: tail_text_def)

lemma commas_tail: "commas (map f (x # xs)) = f x @ tail_text f xs"
  by (induction xs arbitrary: x) simp_all

lemma closes_tail: "closes (t # r) \<Longrightarrow> closes (tail_text f xs @ t # r)"
  by (cases xs) simp_all

lemma tail_text_apart:
  assumes "\<And>x y q q'. x \<in> set xs \<Longrightarrow> closes q \<Longrightarrow> closes q' \<Longrightarrow> f x @ q = f y @ q' \<Longrightarrow> x = y \<and> q = q'"
    and t: "t = CHR '']'' \<or> t = CHR 0x7D"
    and "tail_text f xs @ t # r = tail_text f ys @ t # r'"
  shows "xs = ys \<and> r = r'"
  using assms(1,3)
proof (induction xs arbitrary: ys)
  case Nil
  then show ?case using t by (cases ys) auto
next
  case (Cons x xs)
  from Cons.prems(2) t obtain y zs where ys: "ys = y # zs" by (cases ys) auto
  have c: "closes (tail_text f us @ t # q)" for us q using t by (intro closes_tail) auto
  have "x = y \<and> tail_text f xs @ t # r = tail_text f zs @ t # r'"
    using Cons.prems(2) by (intro Cons.prems(1) c) (simp_all add: ys)
  moreover from this have "xs = zs \<and> r = r'"
    by (intro Cons.IH Cons.prems(1)) auto
  ultimately show ?case by (simp add: ys)
qed

lemma commas_apart:
  assumes el: "\<And>x y q q'. x \<in> set xs \<Longrightarrow> closes q \<Longrightarrow> closes q' \<Longrightarrow> f x @ q = f y @ q' \<Longrightarrow> x = y \<and> q = q'"
    and t: "t = CHR '']'' \<or> t = CHR 0x7D" and f: "\<And>x. \<exists>d ds. f x = d # ds \<and> d \<noteq> t"
    and e: "commas (map f xs) @ t # r = commas (map f ys) @ t # r'"
  shows "xs = ys \<and> r = r'"
proof -
  have start: "commas (map f (u # us)) @ q \<noteq> t # q'" for u us q q'
    using f [of u] by (auto simp: commas_tail simp del: list.map commas.simps)
  show ?thesis
  proof (cases "xs = [] \<or> ys = []")
    case True
    then show ?thesis using e start start [symmetric] by (cases xs; cases ys) (simp_all del: list.map(2))
  next
    case False
    then obtain x us y vs where l: "xs = x # us" "ys = y # vs" by (meson neq_Nil_conv)
    have c: "closes (tail_text f ws @ t # q)" for ws q using t by (intro closes_tail) auto
    have "x = y \<and> tail_text f us @ t # r = tail_text f vs @ t # r'"
      using e by (intro el c) (simp_all add: l commas_tail del: list.map commas.simps)
    moreover from this have "us = vs \<and> r = r'"
      by (intro tail_text_apart [OF _ t, of us f]) (use el in \<open>auto simp: l\<close>)
    ultimately show ?thesis by (simp add: l)
  qed
qed

definition member_text :: "string \<times> json \<Rightarrow> string" where
  "member_text m = json_string (fst m) @ CHR '':'' # stringify (snd m)"

lemma stringify_members: "stringify (JObj ms) = CHR 0x7B # commas (map member_text ms) @ [CHR 0x7D]"
  by (simp add: member_text_def [abs_def] case_prod_beta')

text \<open>The first characters tell the kinds of values apart.\<close>

lemma show_int_start: "\<exists>d ds. show_int n = d # ds \<and> (is_digit d \<or> d = CHR ''-'')"
proof -
  have "show_int n \<noteq> []" by (simp add: show_int_def)
  then obtain d ds where "show_int n = d # ds" by (meson neq_Nil_conv)
  moreover from this have "d \<in> set (show_int n)" by simp
  then have "is_digit d \<or> d = CHR ''-''" by (auto simp: show_int_def dest: show_nat_digits split: if_splits)
  ultimately show ?thesis by blast
qed

lemma stringify_start:
  "\<exists>d ds. stringify v = d # ds \<and> (case v of JNull \<Rightarrow> d = CHR ''n''
     | JBool b \<Rightarrow> d = (if b then CHR ''t'' else CHR ''f'') | JNum n \<Rightarrow> is_digit d \<or> d = CHR ''-''
     | JStr s \<Rightarrow> d = CHR 0x22 | JArr xs \<Rightarrow> d = CHR ''['' | JObj ms \<Rightarrow> d = CHR 0x7B)"
  using show_int_start by (cases v) (auto simp: json_string_def)

lemma stringify_apart:
  "stringify v @ r = stringify w @ r' \<Longrightarrow> closes r \<Longrightarrow> closes r' \<Longrightarrow> v = w \<and> r = r'"
proof (induction v arbitrary: w r r')
  case JNull
  then show ?case using stringify_start [of w] by (cases w) (auto simp: is_digit_def split: if_splits)
next
  case (JBool b)
  then show ?case using stringify_start [of w] by (cases w; cases b) (auto simp: is_digit_def split: if_splits)
next
  case (JNum n)
  then obtain m where w: "w = JNum m"
    using stringify_start [of w] show_int_start [of n] by (cases w) (auto simp: is_digit_def split: if_splits)
  then show ?case using JNum show_int_apart [of n r m r'] by simp
next
  case (JStr s)
  then obtain s' where w: "w = JStr s'"
    using stringify_start [of w] stringify_start [of "JStr s"] by (cases w) (auto simp: is_digit_def split: if_splits)
  then show ?case using JStr json_string_apart by simp
next
  case (JArr xs)
  then obtain ys where w: "w = JArr ys"
    using stringify_start [of w] by (cases w) (auto simp: is_digit_def split: if_splits)
  have f: "\<exists>d ds. stringify x = d # ds \<and> d \<noteq> CHR '']''" for x
    using stringify_start [of x] by (cases x) (auto simp: is_digit_def split: if_splits)
  have "xs = ys \<and> r = r'"
    by (rule commas_apart [where t = "CHR '']''" and f = stringify]) (use JArr f w in \<open>auto\<close>)
  then show ?case by (simp add: w)
next
  case (JObj ms)
  then obtain ns where w: "w = JObj ns"
    using stringify_start [of w] by (cases w) (auto simp: is_digit_def split: if_splits)
  have f: "\<exists>d ds. member_text x = d # ds \<and> d \<noteq> CHR 0x7D" for x
    by (simp add: member_text_def json_string_def)
  have el: "x = y \<and> q = q'"
    if "x \<in> set ms" "closes q" "closes q'" "member_text x @ q = member_text y @ q'" for x y q q'
  proof -
    have "fst x = fst y \<and> stringify (snd x) @ q = stringify (snd y) @ q'"
      using that(4) by (simp add: member_text_def json_string_apart)
    moreover have "snd x \<in> Basic_BNFs.snds x" by (cases x) simp
    ultimately show ?thesis using JObj.IH [OF that(1) _ _ that(2,3)] by (metis prod.expand)
  qed
  have "ms = ns \<and> r = r'"
    by (rule commas_apart [where t = "CHR 0x7D" and f = member_text])
      (use JObj.prems(1) el f w in \<open>auto simp: stringify_members simp del: stringify.simps(6)\<close>)
  then show ?case by (simp add: w)
qed

lemma stringify_inj: "stringify v = stringify w \<longleftrightarrow> v = w"
  using stringify_apart [of v "[]" w "[]"] by auto

lemma format_key_inj: "format_key l opts = format_key l' opts' \<longleftrightarrow> l = l' \<and> opts = opts'"
  by (simp add: format_key_def stringify_inj del: stringify.simps)

lemma format_key_own: "format_key l opts \<notin> set object_keys"
  by (simp add: format_key_def object_keys_def)

subsection \<open>Caches\<close>

text \<open>A cache holds, under the key of a call, what the call would make again.\<close>

definition holds :: "('a \<Rightarrow> string) \<Rightarrow> ('a \<Rightarrow> 'f res) \<Rightarrow> (string \<rightharpoonup> 'f) \<Rightarrow> bool" where
  "holds key compute c \<longleftrightarrow> (\<forall>x f. c (key x) = Some f \<longrightarrow> compute x = Ok f)"

lemma holds_empty [simp]: "holds key compute Map.empty"
  by (simp add: holds_def)

text \<open>What a cache relies on: calls with the same key compute the same.\<close>

locale memo =
  fixes key :: "'a \<Rightarrow> string" and compute :: "'a \<Rightarrow> 'f res"
  assumes same_key: "key x = key y \<Longrightarrow> compute x = compute y"
begin

lemma cached_holds: "holds key compute c \<Longrightarrow> holds key compute (snd (cached c (key x) (compute x)))"
  unfolding holds_def
proof (intro allI impI)
  fix y f
  assume h: "\<forall>x f. c (key x) = Some f \<longrightarrow> compute x = Ok f" "snd (cached c (key x) (compute x)) (key y) = Some f"
  show "compute y = Ok f"
  proof (cases "key y = key x")
    case True
    then have "compute y = compute x" by (rule same_key)
    then show ?thesis using h True by (auto simp: cached_def split: option.splits if_splits res.splits)
  qed (use h in \<open>auto simp: cached_def split: option.splits if_splits res.splits\<close>)
qed

lemma cached_fresh:
  "holds key compute c \<Longrightarrow> key x \<notin> set object_keys \<Longrightarrow> fst (cached c (key x) (compute x)) = rmap Own (compute x)"
  by (auto simp: holds_def cached_def split: option.split)

end

text \<open>A cache whose keys are never names that objects inherit.\<close>

locale own_memo = memo +
  assumes own_key: "key x \<notin> set object_keys"
begin

lemma cached_call: "holds key compute c \<Longrightarrow> fst (cached c (key x) (compute x)) = rmap Own (compute x)"
  by (rule cached_fresh [OF _ own_key])

end

abbreviation call_key :: "string \<times> js_opts \<Rightarrow> string" where
  "call_key \<equiv> \<lambda>(l, opts). format_key l opts"

interpretation by_json: own_memo call_key "\<lambda>(l, opts). compute l opts" for compute
  by unfold_locales (auto simp: format_key_inj format_key_own)

interpretation zone_formats: memo "\<lambda>z. z" "\<lambda>z. sv_date S ''en-US'' (dtf_options z)" for S
  by unfold_locales simp

interpretation zones: memo "\<lambda>z. z" "\<lambda>z. Ok (IANAZone_create E z)" for E
  by unfold_locales simp

text \<open>\<open>Intl.RelativeTimeFormat\<close> does not read the option \<open>base\<close>, which is the library's own.\<close>

definition base_ignored :: "'f services \<Rightarrow> bool" where
  "base_ignored S \<longleftrightarrow> (\<forall>l opts. sv_relative S l opts = sv_relative S l (without_base opts))"

abbreviation relative_key :: "string \<times> js_opts \<Rightarrow> string" where
  "relative_key \<equiv> \<lambda>(l, opts). format_key l (without_base opts)"

lemma relative_memo:
  "base_ignored S \<Longrightarrow> own_memo relative_key (\<lambda>(l, opts). sv_relative S l opts)"
  by unfold_locales (auto simp: format_key_inj format_key_own, metis base_ignored_def)

text \<open>The caches of the library hold what would be computed again.\<close>

definition coherent :: "'a platform_scheme \<Rightarrow> 'f services \<Rightarrow> 'f caches \<Rightarrow> bool" where
  "coherent E S ch \<longleftrightarrow> holds call_key (\<lambda>(l, opts). sv_list S l opts) (ch_list ch) \<and>
     holds call_key (\<lambda>(l, opts). sv_date S l opts) (ch_date ch) \<and>
     holds call_key (\<lambda>(l, opts). sv_number S l opts) (ch_number ch) \<and>
     holds relative_key (\<lambda>(l, opts). sv_relative S l opts) (ch_relative ch) \<and>
     (\<forall>l. ch_sysLocale ch = Some l \<longrightarrow> l = sv_locale S) \<and>
     holds (\<lambda>z. z) (\<lambda>z. sv_date S ''en-US'' (dtf_options z)) (ch_dtf ch) \<and>
     holds (\<lambda>z. z) (\<lambda>z. Ok (IANAZone_create E z)) (ch_zones ch)"

text \<open>What a call that returns makes.\<close>

definition made :: "'f res \<Rightarrow> 'f option" where
  "made r = (case r of Ok f \<Rightarrow> Some f | _ \<Rightarrow> None)"

lemma made_simps [simp]: "made (Ok f) = Some f" "made (Throw e) = None"
  by (simp_all add: made_def)

lemma holdsD: "holds key compute c \<Longrightarrow> c (key x) \<in> {None, made (compute x)}"
  by (cases "c (key x)") (auto simp: holds_def made_def)

lemma coherent_lookup:
  assumes "coherent E S ch"
  shows "ch_date ch (format_key l opts) \<in> {None, made (sv_date S l opts)}"
    and "ch_number ch (format_key l opts) \<in> {None, made (sv_number S l opts)}"
    and "ch_list ch (format_key l opts) \<in> {None, made (sv_list S l opts)}"
    and "ch_relative ch (format_key l (without_base opts)) \<in> {None, made (sv_relative S l opts)}"
    and "ch_dtf ch name \<in> {None, made (sv_date S ''en-US'' (dtf_options name))}"
    and "ch_zones ch name \<in> {None, Some (IANAZone name (isValidZone E name))}"
    and "ch_sysLocale ch \<in> {None, Some (sv_locale S)}"
  using assms holdsD [where x = "(l, opts)" and key = call_key] holdsD [where x = "(l, opts)" and key = relative_key]
    holdsD [where x = name and key = "\<lambda>z. z"]
  by (cases "ch_sysLocale ch"; fastforce simp: coherent_def IANAZone_create_def)+

lemma coherent_empty: "coherent E S no_caches"
  by (simp add: coherent_def no_caches_def)

lemmas call_defs = getCachedLF_def getCachedDTF_def getCachedINF_def getCachedRTF_def systemLocale_def
  makeDTF_def create_zone_def Locale_resetCache_def IANAZone_resetCache_def resetCaches_def

lemma call_eqs:
  "getCachedLF S l opts ch = (let x = cached (ch_list ch) (format_key l opts) (sv_list S l opts)
     in (fst x, ch\<lparr>ch_list := snd x\<rparr>))"
  "getCachedDTF S l opts ch = (let x = cached (ch_date ch) (format_key l opts) (sv_date S l opts)
     in (fst x, ch\<lparr>ch_date := snd x\<rparr>))"
  "getCachedINF S l opts ch = (let x = cached (ch_number ch) (format_key l opts) (sv_number S l opts)
     in (fst x, ch\<lparr>ch_number := snd x\<rparr>))"
  "getCachedRTF S l opts ch = (let x = cached (ch_relative ch) (format_key l (without_base opts)) (sv_relative S l opts)
     in (fst x, ch\<lparr>ch_relative := snd x\<rparr>))"
  "makeDTF S z ch = (let x = cached (ch_dtf ch) z (sv_date S ''en-US'' (dtf_options z))
     in (fst x, ch\<lparr>ch_dtf := snd x\<rparr>))"
  "create_zone E z ch = (let x = cached (ch_zones ch) z (Ok (IANAZone_create E z))
     in (fst x, ch\<lparr>ch_zones := snd x\<rparr>))"
  by (simp_all add: call_defs Let_def split_beta)

lemma by_json_call:
  assumes "holds call_key (\<lambda>(l, opts). f l opts) c"
  shows "holds call_key (\<lambda>(l, opts). f l opts) (snd (cached c (format_key l opts) (f l opts)))"
    and "fst (cached c (format_key l opts) (f l opts)) = rmap Own (f l opts)"
  using by_json.cached_holds [OF assms, of "(l, opts)"] by_json.cached_call [OF assms, of "(l, opts)"] by simp_all

lemma relative_call:
  assumes "base_ignored S" "holds relative_key (\<lambda>(l, opts). sv_relative S l opts) c"
  shows "holds relative_key (\<lambda>(l, opts). sv_relative S l opts)
      (snd (cached c (format_key l (without_base opts)) (sv_relative S l opts)))"
    and "fst (cached c (format_key l (without_base opts)) (sv_relative S l opts)) = rmap Own (sv_relative S l opts)"
  using memo.cached_holds [OF own_memo.axioms(1) [OF relative_memo [OF assms(1)]] assms(2), of "(l, opts)"]
    own_memo.cached_call [OF relative_memo [OF assms(1)] assms(2), of "(l, opts)"] by simp_all

lemma answer_coherent:
  assumes "base_ignored S" "coherent E S ch"
  shows "coherent E S (snd (answer_call E S r ch))"
proof (cases r)
  case System_locale
  then show ?thesis using assms(2) by (simp add: coherent_def systemLocale_def split: option.split list.split)
qed (use assms(2) in \<open>simp_all add: coherent_def call_eqs Let_def by_json_call relative_call [OF assms(1)]
    zone_formats.cached_holds zones.cached_holds Locale_resetCache_def IANAZone_resetCache_def resetCaches_def\<close>)

text \<open>The names of time zones a call gives are no names that objects inherit.\<close>

fun named_apart :: "request \<Rightarrow> bool" where
  "named_apart (Zone_format z) \<longleftrightarrow> z \<notin> set object_keys"
| "named_apart (Zone z) \<longleftrightarrow> z \<notin> set object_keys"
| "named_apart _ \<longleftrightarrow> True"

lemma answer_fresh:
  assumes "base_ignored S" "coherent E S ch" "named_apart r"
  shows "fst (answer_call E S r ch) = fresh_answer E S r"
proof (cases r)
  case System_locale
  then show ?thesis using assms(2) by (auto simp: coherent_def systemLocale_def split: option.split list.split)
next
  case (Zone_format z)
  then show ?thesis
    using assms(2,3) zone_formats.cached_fresh [of S "ch_dtf ch" z] by (simp add: coherent_def call_eqs Let_def rmap_rmap)
next
  case (Zone z)
  then show ?thesis
    using assms(2,3) zones.cached_fresh [of E "ch_zones ch" z] by (simp add: coherent_def call_eqs Let_def)
qed (use assms(2) in \<open>simp_all add: coherent_def call_eqs Let_def by_json_call relative_call [OF assms(1)] rmap_rmap\<close>)

lemma answers_fresh:
  assumes "base_ignored S" "coherent E S ch" "list_all named_apart rs"
  shows "answers E S rs ch = map (fresh_answer E S) rs"
  using assms(2,3)
proof (induction rs arbitrary: ch)
  case (Cons r rs)
  have "answers E S rs (snd (answer_call E S r ch)) = map (fresh_answer E S) rs"
    using Cons.prems answer_coherent [OF assms(1)] by (intro Cons.IH) auto
  then show ?case using Cons.prems by (simp add: Let_def split_beta answer_fresh [OF assms(1)])
qed simp

text \<open>The states of the caches that calls lead to.\<close>

inductive reachable_caches :: "'a platform_scheme \<Rightarrow> 'f services \<Rightarrow> 'f caches \<Rightarrow> bool" for E S where
  start: "reachable_caches E S no_caches"
| call: "reachable_caches E S ch \<Longrightarrow> reachable_caches E S (snd (answer_call E S r ch))"

lemma reachable_coherent: "reachable_caches E S ch \<Longrightarrow> base_ignored S \<Longrightarrow> coherent E S ch"
  by (induction rule: reachable_caches.induct) (simp_all add: coherent_empty answer_coherent)

text \<open>Names that objects inherit are never stored.\<close>

lemma inherited_zone: "name \<in> set object_keys \<Longrightarrow> fst (create_zone E name ch) = Ok (Inherited name)"
  by (simp add: create_zone_def cached_def)

end
