(* ===== verification/LuxonNameCache.thy ===== *)
theory LuxonNameCache
  imports LuxonFormat CacheLaws
begin

text \<open>
  What a locale object keeps for itself: the lists of names of months, weekdays, halves of the day and
  eras, by their length, and whether its numbers are plain digits (\<open>monthsCache\<close> and the like in
  \<open>ui/js/bundle.js\<close>). The calls are those of \<open>LuxonFormat\<close>, which computes the lists each time; the last
  lemma shows that the answers are the same.
\<close>

subsection \<open>State and calls\<close>

text \<open>The first argument says whether the names are those of a format.\<close>

record locale_caches =
  lc_months :: "bool \<Rightarrow> string \<rightharpoonup> string option list"
  lc_weekdays :: "bool \<Rightarrow> string \<rightharpoonup> string option list"
  lc_meridiems :: "string option list option"
  lc_eras :: "string \<rightharpoonup> string option list"
  lc_fastNumbers :: "bool option"

definition new_locale_caches :: locale_caches where
  [luxon_defs]: "new_locale_caches = \<lparr>lc_months = (\<lambda>_. Map.empty), lc_weekdays = (\<lambda>_. Map.empty),
     lc_meridiems = None, lc_eras = Map.empty, lc_fastNumbers = None\<rparr>"

text \<open>\<open>listStuff\<close> with a function that reads and writes the caches.\<close>

definition listStuff_cached :: "intl \<Rightarrow> locale_obj \<Rightarrow> string list option \<Rightarrow>
  string option list entry res \<times> locale_caches \<Rightarrow> locale_caches \<Rightarrow> names entry res \<times> locale_caches" where
  [luxon_defs]: "listStuff_cached I loc english intlFn ch = (case listing_en I loc of
       Ok en \<Rightarrow> if en then (Ok (Own (map_option (map Some) english)), ch)
         else apfst (rmap (map_entry Some)) intlFn
     | Throw e \<Rightarrow> (Throw e, ch)
     | Hang \<Rightarrow> (Hang, ch))"

definition intl_months :: "settings \<Rightarrow> intl \<Rightarrow> locale_obj \<Rightarrow> bool \<Rightarrow> string \<Rightarrow> string option list res" where
  [luxon_defs]: "intl_months E I loc format len = mapMonths E (\<lambda>dt. Locale_extract E I loc dt
     (if format then [(''month'', len), (''day'', ''numeric'')] else [(''month'', len)]) ''month'')"

definition cached_months :: "settings \<Rightarrow> intl \<Rightarrow> locale_obj \<Rightarrow> string \<Rightarrow> bool \<Rightarrow> locale_caches \<Rightarrow>
  names entry res \<times> locale_caches" where
  [luxon_defs]: "cached_months E I loc len format ch = listStuff_cached I loc (months len)
     (let (r, c) = cached (lc_months ch format) len (intl_months E I loc format len)
      in (r, ch\<lparr>lc_months := (lc_months ch)(format := c)\<rparr>)) ch"

definition intl_weekdays :: "settings \<Rightarrow> intl \<Rightarrow> locale_obj \<Rightarrow> bool \<Rightarrow> string \<Rightarrow> string option list res" where
  [luxon_defs]: "intl_weekdays E I loc format len = mapWeekdays E (\<lambda>dt. Locale_extract E I loc dt
     (if format then [(''weekday'', len), (''year'', ''numeric''), (''month'', ''long''), (''day'', ''numeric'')]
      else [(''weekday'', len)]) ''weekday'')"

definition cached_weekdays :: "settings \<Rightarrow> intl \<Rightarrow> locale_obj \<Rightarrow> string \<Rightarrow> bool \<Rightarrow> locale_caches \<Rightarrow>
  names entry res \<times> locale_caches" where
  [luxon_defs]: "cached_weekdays E I loc len format ch = listStuff_cached I loc (weekdays len)
     (let (r, c) = cached (lc_weekdays ch format) len (intl_weekdays E I loc format len)
      in (r, ch\<lparr>lc_weekdays := (lc_weekdays ch)(format := c)\<rparr>)) ch"

definition intl_meridiems :: "settings \<Rightarrow> intl \<Rightarrow> locale_obj \<Rightarrow> string option list res" where
  [luxon_defs]: "intl_meridiems E I loc =
     mapM (\<lambda>args. rbind (utc_day E args) (\<lambda>dt. Locale_extract E I loc dt
        [(''hour'', ''numeric''), (''hourCycle'', ''h12'')] ''dayperiod''))
       [[2016, 11, 13, 9], [2016, 11, 13, 19]]"

definition cached_meridiems :: "settings \<Rightarrow> intl \<Rightarrow> locale_obj \<Rightarrow> locale_caches \<Rightarrow>
  names entry res \<times> locale_caches" where
  [luxon_defs]: "cached_meridiems E I loc ch = listStuff_cached I loc (Some meridiems)
     (case lc_meridiems ch of Some l \<Rightarrow> (Ok (Own l), ch)
      | None \<Rightarrow> (rmap Own (intl_meridiems E I loc), case intl_meridiems E I loc of
            Ok l \<Rightarrow> ch\<lparr>lc_meridiems := Some l\<rparr> | _ \<Rightarrow> ch)) ch"

definition intl_eras :: "settings \<Rightarrow> intl \<Rightarrow> locale_obj \<Rightarrow> string \<Rightarrow> string option list res" where
  [luxon_defs]: "intl_eras E I loc len =
     mapM (\<lambda>args. rbind (utc_day E args) (\<lambda>dt. Locale_extract E I loc dt [(''era'', len)] ''era''))
       [[-40, 1, 1], [2017, 1, 1]]"

definition cached_eras :: "settings \<Rightarrow> intl \<Rightarrow> locale_obj \<Rightarrow> string \<Rightarrow> locale_caches \<Rightarrow>
  names entry res \<times> locale_caches" where
  [luxon_defs]: "cached_eras E I loc len ch = listStuff_cached I loc (eras len)
     (let (r, c) = cached (lc_eras ch) len (intl_eras E I loc len) in (r, ch\<lparr>lc_eras := c\<rparr>)) ch"

definition fastNumbers :: "intl \<Rightarrow> locale_obj \<Rightarrow> locale_caches \<Rightarrow> bool res \<times> locale_caches" where
  [luxon_defs]: "fastNumbers I loc ch = (case lc_fastNumbers ch of
       Some b \<Rightarrow> (Ok b, ch)
     | None \<Rightarrow> (supportsFastNumbers I loc, case supportsFastNumbers I loc of
           Ok b \<Rightarrow> ch\<lparr>lc_fastNumbers := Some b\<rparr> | _ \<Rightarrow> ch))"

datatype name_call = Months string bool | Weekdays string bool | Meridiems | Eras string | Fast_numbers

datatype name_answer = Names "names entry" | Fast bool

fun call_names :: "settings \<Rightarrow> intl \<Rightarrow> locale_obj \<Rightarrow> name_call \<Rightarrow> locale_caches \<Rightarrow>
  name_answer res \<times> locale_caches" where
  "call_names E I loc (Months len format) ch = apfst (rmap Names) (cached_months E I loc len format ch)"
| "call_names E I loc (Weekdays len format) ch = apfst (rmap Names) (cached_weekdays E I loc len format ch)"
| "call_names E I loc Meridiems ch = apfst (rmap Names) (cached_meridiems E I loc ch)"
| "call_names E I loc (Eras len) ch = apfst (rmap Names) (cached_eras E I loc len ch)"
| "call_names E I loc Fast_numbers ch = apfst (rmap Fast) (fastNumbers I loc ch)"

fun name_answers :: "settings \<Rightarrow> intl \<Rightarrow> locale_obj \<Rightarrow> name_call list \<Rightarrow> locale_caches \<Rightarrow>
  name_answer res list" where
  "name_answers E I loc [] ch = []"
| "name_answers E I loc (c # cs) ch =
     (let (a, ch') = call_names E I loc c ch in a # name_answers E I loc cs ch')"

text \<open>The same calls without caches.\<close>

fun fresh_names :: "settings \<Rightarrow> intl \<Rightarrow> locale_obj \<Rightarrow> name_call \<Rightarrow> name_answer res" where
  "fresh_names E I loc (Months len format) = rmap (\<lambda>n. Names (Own n)) (Locale_months E I loc len format)"
| "fresh_names E I loc (Weekdays len format) = rmap (\<lambda>n. Names (Own n)) (Locale_weekdays E I loc len format)"
| "fresh_names E I loc Meridiems = rmap (\<lambda>n. Names (Own n)) (Locale_meridiems E I loc)"
| "fresh_names E I loc (Eras len) = rmap (\<lambda>n. Names (Own n)) (Locale_eras E I loc len)"
| "fresh_names E I loc Fast_numbers = rmap Fast (supportsFastNumbers I loc)"

fun proper_length :: "name_call \<Rightarrow> bool" where
  "proper_length (Months len _) \<longleftrightarrow> len \<notin> set object_keys"
| "proper_length (Weekdays len _) \<longleftrightarrow> len \<notin> set object_keys"
| "proper_length (Eras len) \<longleftrightarrow> len \<notin> set object_keys"
| "proper_length _ \<longleftrightarrow> True"

subsection \<open>The caches change no answer\<close>

interpretation by_length: memo "\<lambda>len. len" "\<lambda>len. compute len" for compute :: "string \<Rightarrow> string option list res"
  by unfold_locales simp

definition names_coherent :: "settings \<Rightarrow> intl \<Rightarrow> locale_obj \<Rightarrow> locale_caches \<Rightarrow> bool" where
  "names_coherent E I loc ch \<longleftrightarrow>
     (\<forall>format. holds (\<lambda>len. len) (intl_months E I loc format) (lc_months ch format)) \<and>
     (\<forall>format. holds (\<lambda>len. len) (intl_weekdays E I loc format) (lc_weekdays ch format)) \<and>
     (\<forall>l. lc_meridiems ch = Some l \<longrightarrow> intl_meridiems E I loc = Ok l) \<and>
     holds (\<lambda>len. len) (intl_eras E I loc) (lc_eras ch) \<and>
     (\<forall>b. lc_fastNumbers ch = Some b \<longrightarrow> supportsFastNumbers I loc = Ok b)"

lemma names_coherent_new: "names_coherent E I loc new_locale_caches"
  by (simp add: names_coherent_def new_locale_caches_def)

lemmas name_call_defs = cached_months_def cached_weekdays_def cached_meridiems_def cached_eras_def fastNumbers_def
  listStuff_cached_def

lemma name_call_coherent:
  assumes "names_coherent E I loc ch"
  shows "names_coherent E I loc (snd (call_names E I loc c ch))"
  using assms by_length.cached_holds
  by (cases c) (auto simp: names_coherent_def name_call_defs split_beta Let_def split: res.split option.split)

lemma listStuff_cached_fresh:
  "fst intlFn = rmap Own fresh \<Longrightarrow>
    fst (listStuff_cached I loc english intlFn ch) = rmap Own (listStuff I loc english fresh)"
  by (cases "listing_en I loc") (auto simp: listStuff_cached_def listStuff_def rmap_rmap)

lemma locale_lists:
  "Locale_months E I loc len format = listStuff I loc (months len) (intl_months E I loc format len)"
  "Locale_weekdays E I loc len format = listStuff I loc (weekdays len) (intl_weekdays E I loc format len)"
  "Locale_meridiems E I loc = listStuff I loc (Some meridiems) (intl_meridiems E I loc)"
  "Locale_eras E I loc len = listStuff I loc (eras len) (intl_eras E I loc len)"
  by (simp_all only: Locale_months_def Locale_weekdays_def Locale_meridiems_def Locale_eras_def intl_months_def
      intl_weekdays_def intl_meridiems_def intl_eras_def)

lemma name_call_fresh:
  assumes "names_coherent E I loc ch" "proper_length c"
  shows "fst (call_names E I loc c ch) = fresh_names E I loc c"
proof -
  note h = assms(1) [unfolded names_coherent_def]
  note fresh = by_length.cached_fresh and stuff = listStuff_cached_fresh
  show ?thesis
  proof (cases c)
    case (Months len format)
    then show ?thesis
      using assms(2) h fresh [of "intl_months E I loc format" "lc_months ch format" len]
      by (simp add: cached_months_def locale_lists split_beta Let_def stuff rmap_rmap)
  next
    case (Weekdays len format)
    then show ?thesis
      using assms(2) h fresh [of "intl_weekdays E I loc format" "lc_weekdays ch format" len]
      by (simp add: cached_weekdays_def locale_lists split_beta Let_def stuff rmap_rmap)
  next
    case Meridiems
    have "fst (case lc_meridiems ch of Some l \<Rightarrow> (Ok (Own l), ch)
        | None \<Rightarrow> (rmap Own (intl_meridiems E I loc), case intl_meridiems E I loc of
            Ok l \<Rightarrow> ch\<lparr>lc_meridiems := Some l\<rparr> | _ \<Rightarrow> ch)) = rmap Own (intl_meridiems E I loc)"
      using h by (cases "lc_meridiems ch") simp_all
    then show ?thesis
      by (simp add: Meridiems cached_meridiems_def locale_lists stuff rmap_rmap)
  next
    case (Eras len)
    then show ?thesis
      using assms(2) h fresh [of "intl_eras E I loc" "lc_eras ch" len]
      by (simp add: cached_eras_def locale_lists split_beta Let_def stuff rmap_rmap)
  next
    case Fast_numbers
    then show ?thesis using h by (cases "lc_fastNumbers ch") (simp_all add: fastNumbers_def)
  qed
qed

lemma name_answers_fresh:
  "names_coherent E I loc ch \<Longrightarrow> list_all proper_length cs \<Longrightarrow>
    name_answers E I loc cs ch = map (fresh_names E I loc) cs"
proof (induction cs arbitrary: ch)
  case (Cons c cs)
  have "name_answers E I loc cs (snd (call_names E I loc c ch)) = map (fresh_names E I loc) cs"
    using Cons.prems name_call_coherent by (intro Cons.IH) auto
  then show ?case using Cons.prems by (simp add: Let_def split_beta name_call_fresh)
qed simp

end
