(* ===== verification/LuxonOffset.thy ===== *)
theory LuxonOffset
  imports LuxonZone JsRegex
begin

text \<open>
  The fallback of the date library for browsers whose formatters have no \<open>formatToParts\<close>: the offset
  of a time zone is read off a formatted text with a regular expression (\<open>hackyOffset\<close> in
  \<open>ui/js/bundle.js\<close>). The other branch of \<open>IANAZone.offset\<close> is \<open>iana_offset\<close>.
\<close>

text \<open>A regular expression without anchors: the first place where it matches.\<close>

fun exec_search :: "rx \<Rightarrow> string \<Rightarrow> groups option" where
  "exec_search r [] = rmatch r [] Map.empty (\<lambda>s g. Some g)"
| "exec_search r (c # cs) = (case rmatch r (c # cs) Map.empty (\<lambda>s g. Some g) of
     Some g \<Rightarrow> Some g | None \<Rightarrow> exec_search r cs)"

text \<open>The expression for a text of \<open>n\<close> characters, so that \<open>n\<close> repetitions are as good as unbounded ones.\<close>

definition number_group :: "nat \<Rightarrow> nat \<Rightarrow> rx" where
  [luxon_defs]: "number_group n i = Grp i (digits 1 n)"

definition hacky_rx :: "nat \<Rightarrow> rx" where
  [luxon_defs]: "hacky_rx n = seq [number_group n 1, Lit ''/'', number_group n 2, Lit ''/'', number_group n 3,
     Lit '' '', Grp 4 (Alt (Lit ''AD'') (Lit ''BC'')), maybe (CHR '',''), Lit '' '',
     number_group n 5, Lit '':'', number_group n 6, Lit '':'', number_group n 7]"

text \<open>The groups in the order of \<open>partsOffset\<close>; all of them are texts. (The mark \<open>\\u200E\<close>, which the
  code removes first, is outside the characters of the model.)\<close>

definition hackyOffset :: "string \<Rightarrow> string option list res" where
  [luxon_defs]: "hackyOffset formatted =
     (case exec_search (hacky_rx (length formatted)) formatted of
        None \<Rightarrow> Throw (TypeError ''Cannot read properties of null'')
      | Some parsed \<Rightarrow> Ok (map parsed [3, 1, 2, 4, 5, 6, 7]))"

text \<open>What arithmetic makes of a text of digits.\<close>

definition to_number :: "string option \<Rightarrow> int option" where
  [luxon_defs]: "to_number s = map_option (\<lambda>d. int (digits_val 0 d)) s"

text \<open>\<open>IANAZone.offset\<close> with the fallback, of a formatter that writes \<open>text\<close>. The hour is a text, so the
  test \<open>hour === 24\<close> never holds.\<close>

definition hacky_offset :: "(int \<Rightarrow> string) \<Rightarrow> num \<Rightarrow> num res" where
  [luxon_defs]: "hacky_offset txt ts = (case date_of ts of None \<Rightarrow> Ok None
     | Some date \<Rightarrow> rbind (hackyOffset (txt date)) (\<lambda>f.
       let year = (if f ! 3 = Some ''BC'' then map_option (\<lambda>y. - \<bar>y\<bar> + 1) (to_number (f ! 0)) else to_number (f ! 0));
           asUTC = objToLocalTS (Map.empty(UYear := year, UMonth := to_number (f ! 1), UDay := to_number (f ! 2),
             UHour := to_number (f ! 4), UMinute := to_number (f ! 5), USecond := to_number (f ! 6),
             UMillisecond := Some 0));
           over = js_rem date 1000;
           asTS = date - (if over \<ge> 0 then over else 1000 + over)
       in Ok (map_option (\<lambda>u. of_int (u - asTS) / (60 * 1000)) asUTC)))"

text \<open>The text of a local time in the format the code asks for, of a browser that writes midnight as
  hour 0.\<close>

definition us_text :: "cal \<Rightarrow> string" where
  "us_text c = padStart (c_month c) 2 @ ''/'' @ padStart (c_day c) 2 @ ''/'' @ show_int (c_year c) @ '' AD, '' @
     padStart (c_hour c) 2 @ '':'' @ padStart (c_minute c) 2 @ '':'' @ padStart (c_second c) 2"

end
