(* ===== verification/OffsetLaws.thy ===== *)
theory OffsetLaws
  imports LuxonOffset TokenLaws ZoneLaws
begin

text \<open>
  The fallback for the offset of a time zone reads the fields back from the text.
\<close>

lemma seq_number:
  fixes k :: "string \<Rightarrow> groups \<Rightarrow> groups option"
  assumes "(\<forall>c\<in>set w. is_digit c) \<and> w \<noteq> [] \<and> length w \<le> n" "rest = [] \<or> \<not> is_digit (hd rest)"
    and "rmatch (seq rs) rest (g(i := Some w)) k = Some v"
  shows "rmatch (seq (number_group n i # rs)) (w @ rest) g k = Some v"
proof -
  let ?k = "\<lambda>s' g'. rmatch (seq rs) s' (g'(i := Some (take (length (w @ rest) - length s') (w @ rest)))) k"
  have "rmatch (digits 1 n) (w @ rest) g ?k = Some v"
    by (rule takesD [OF takes_digits, where k = ?k]) (use assms in \<open>simp_all\<close>)
  then show ?thesis by (simp add: number_group_def rmatch_seq_Cons del: seq.simps(3))
qed

lemma seq_lit: "rmatch (seq rs) rest g k = Some v \<Longrightarrow> rmatch (seq (Lit w # rs)) (w @ rest) g k = Some v"
  by (simp add: rmatch_seq_Cons del: seq.simps(3))

lemma seq_era:
  "rmatch (seq rs) rest (g(4 := Some ''AD'')) k = Some v \<Longrightarrow>
    rmatch (seq (Grp 4 (Alt (Lit ''AD'') (Lit ''BC'')) # rs)) (''AD'' @ rest) g k = Some v"
  by (simp add: rmatch_seq_Cons del: seq.simps(3))

lemma seq_comma:
  "rmatch (seq rs) rest g k = Some v \<Longrightarrow> rmatch (seq (maybe (CHR '','') # rs)) ('','' @ rest) g k = Some v"
  by (simp add: rmatch_seq_Cons del: seq.simps(3))

lemma digit_texts:
  assumes "valid_cal c" "0 < c_year c"
  defines "ws \<equiv> [padStart (c_month c) 2, padStart (c_day c) 2, show_int (c_year c), padStart (c_hour c) 2,
    padStart (c_minute c) 2, padStart (c_second c) 2]"
  shows "list_all (\<lambda>w. (\<forall>d\<in>set w. is_digit d) \<and> w \<noteq> [] \<and> length w \<le> length (us_text c)) ws"
    and "map (\<lambda>w. int (digits_val 0 w)) ws = [c_month c, c_day c, c_year c, c_hour c, c_minute c, c_second c]"
proof -
  have two: "(\<forall>d\<in>set (padStart n 2). is_digit d) \<and> length (padStart n 2) = 2 \<and> int (digits_val 0 (padStart n 2)) = n"
    if "0 \<le> n" "n < 100" for n
    using run_padStart [of n 2] that by (simp add: run_def)
  have y: "\<forall>d\<in>set (show_int (c_year c)). is_digit d" "show_int (c_year c) \<noteq> []"
    "int (digits_val 0 (show_int (c_year c))) = c_year c"
    using assms(2) show_int_sign_digits [of "c_year c"] by (auto simp: show_int_def)
  note v = valid_calD [OF assms(1)]
  have "c_day c < 100" using v(4) daysInMonth_bounds [of "c_year c" "c_month c"] by simp
  note two = two [of "c_month c"] two [of "c_day c"] two [of "c_hour c"] two [of "c_minute c"] two [of "c_second c"]
  show "list_all (\<lambda>w. (\<forall>d\<in>set w. is_digit d) \<and> w \<noteq> [] \<and> length w \<le> length (us_text c)) ws"
    using two y v \<open>c_day c < 100\<close> by (auto simp: ws_def us_text_def)
  show "map (\<lambda>w. int (digits_val 0 w)) ws = [c_month c, c_day c, c_year c, c_hour c, c_minute c, c_second c]"
    using two y v \<open>c_day c < 100\<close> by (simp add: ws_def)
qed


lemma hacky_text:
  assumes "valid_cal c" "0 < c_year c"
  shows "hackyOffset (us_text c) = Ok [Some (show_int (c_year c)), Some (padStart (c_month c) 2),
    Some (padStart (c_day c) 2), Some ''AD'', Some (padStart (c_hour c) 2), Some (padStart (c_minute c) 2),
    Some (padStart (c_second c) 2)]"
proof -
  let ?n = "length (us_text c)"
  let ?g = "Map.empty(1 := Some (padStart (c_month c) 2), 2 := Some (padStart (c_day c) 2),
    3 := Some (show_int (c_year c)), 4 := Some ''AD'', 5 := Some (padStart (c_hour c) 2),
    6 := Some (padStart (c_minute c) 2), 7 := Some (padStart (c_second c) 2)) :: groups"
  let ?t = "padStart (c_month c) 2 @ ''/'' @ padStart (c_day c) 2 @ ''/'' @ show_int (c_year c) @ '' '' @ ''AD'' @
      '','' @ '' '' @ padStart (c_hour c) 2 @ '':'' @ padStart (c_minute c) 2 @ '':'' @ padStart (c_second c) 2 @ []"
  have t: "us_text c = ?t" by (simp add: us_text_def)
  have "rmatch (hacky_rx n) ?t Map.empty (\<lambda>s g. Some g) = Some ?g" if n: "n = ?n" for n
    unfolding hacky_rx_def
    by (intro seq_number seq_lit seq_era seq_comma)
      (use digit_texts(1) [OF assms] in \<open>simp_all add: n is_digit_def\<close>)
  then have "rmatch (hacky_rx ?n) (us_text c) Map.empty (\<lambda>s g. Some g) = Some ?g" unfolding t [symmetric] by blast
  then have "exec_search (hacky_rx ?n) (us_text c) = Some ?g"
    by (cases "us_text c") simp_all
  then show ?thesis by (simp add: hackyOffset_def)
qed

lemma hacky_offset_parts:
  assumes "valid_cal c" "0 < c_year c" "txt t = us_text c" "parts t = parts_of c" "stamp_ok t"
  shows "hacky_offset txt (Some (of_int t)) = Ok (iana_offset parts (Some (of_int t)))"
proof -
  have date: "TimeClip t = Some t" using assms(5) by (simp only: TimeClip_Some_iff) (auto simp: stamp_ok_def)
  obtain filled era where p: "partsOffset (parts t) = (filled, era)" by force
  have r: "era = Some ''AD''" "filled 0 = Some (c_year c)" "filled 1 = Some (c_month c)"
    "filled 2 = Some (c_day c)" "filled 4 = Some (c_hour c)" "filled 5 = Some (c_minute c)" "filled 6 = Some (c_second c)"
    using p by (auto simp: assms(4) partsOffset_def parts_of_def typeToPos_def)
  have "c_hour c \<noteq> 24" using valid_calD(6) [OF assms(1)] by simp
  moreover note hacky_text [OF assms(1,2), folded assms(3)]
  ultimately show ?thesis
    using digit_texts(2) [OF assms(1,2)]
    by (simp add: hacky_offset_def iana_offset_def date p r r(1,3) [simplified] Let_def to_number_def)
qed

text \<open>A browser that writes midnight as hour 24: the main branch takes it for 0, the fallback does not.\<close>

lemma hacky_midnight:
  "hacky_offset (\<lambda>_. ''02/01/2024 AD, 24:00:00'') (Some 1706745600000) = Ok (Some 1440)"
  "iana_offset (\<lambda>_. parts_of \<lparr>c_year = 2024, c_month = 2, c_day = 1, c_hour = 24, c_minute = 0, c_second = 0,
     c_millisecond = 0\<rparr>) (Some 1706745600000) = Some 0"
  by code_simp+

end
