(* ===== verification/CacheProperties.thy ===== *)
theory CacheProperties
  imports LuxonNameCache OffsetLaws Sample
begin

text \<open>
  The properties of what the library keeps of the browser: its caches, and the fallback that reads the
  offset of a time zone off a formatted text.
\<close>

text \<open>A browser that knows no time zone \<open>Nowhere\<close>; its formatters are what they were made from.\<close>

definition sample_services :: "(string \<times> js_opts) services" where
  "sample_services = \<lparr>sv_list = (\<lambda>l opts. Ok (l, opts)),
     sv_date = (\<lambda>l opts. if map_of opts ''timeZone'' = Some (JStr ''Nowhere'')
       then Throw (RangeError ''Invalid time zone specified: Nowhere'') else Ok (l, opts)),
     sv_number = (\<lambda>l opts. Ok (l, opts)), sv_relative = (\<lambda>l opts. Ok (l, without_base opts)),
     sv_locale = ''en-US''\<rparr>"

lemma sample_base: "base_ignored sample_services"
  by (simp add: base_ignored_def sample_services_def without_base_def)



text \<open>C20: in every state the calls can lead to, each cache holds under each key only what the call would make again: a formatter is never found under the key of another locale or other options, a failed call leaves nothing behind, and a zone is never found under another name.\<close>

theorem caches_coherent:
  assumes "base_ignored S" "reachable_caches E S ch"
  shows "ch_date ch (format_key l opts) \<in> {None, made (sv_date S l opts)} \<and>
    ch_number ch (format_key l opts) \<in> {None, made (sv_number S l opts)} \<and>
    ch_list ch (format_key l opts) \<in> {None, made (sv_list S l opts)} \<and>
    ch_relative ch (format_key l (without_base opts)) \<in> {None, made (sv_relative S l opts)} \<and>
    ch_dtf ch name \<in> {None, made (sv_date S ''en-US'' (dtf_options name))} \<and>
    ch_zones ch name \<in> {None, Some (IANAZone name (isValidZone E name))} \<and>
    ch_sysLocale ch \<in> {None, Some (sv_locale S)}"
  using coherent_lookup [OF reachable_coherent [OF assms(2,1)]] by blast

text \<open>A call that throws leaves no formatter behind.\<close>

theorem caches_coherent_witness:
  "ch_dtf (snd (answer_call sample sample_services (Zone_format ''Nowhere'') no_caches)) ''Nowhere'' = None"
proof -
  have "reachable_caches sample sample_services (snd (answer_call sample sample_services (Zone_format ''Nowhere'') no_caches))"
    by (intro reachable_caches.intros)
  from caches_coherent [OF sample_base this, of _ _ "''Nowhere''"] show ?thesis
    by (simp add: sample_services_def dtf_options_def)
qed



subsection \<open>What the model shows of the code\<close>

text \<open>A cache is an object with inherited properties: the zone \<open>constructor\<close> is the function \<open>Object\<close>.\<close>

lemma constructor_zone: "fst (create_zone sample ''constructor'' no_caches) = Ok (Inherited ''constructor'')"
  by (simp add: inherited_zone object_keys_def)

text \<open>\<open>Settings.resetCaches\<close> keeps the formatters of lists.\<close>

lemma reset_keeps_lists: "ch_list (resetCaches ch) = ch_list ch"
  by (simp add: resetCaches_def Locale_resetCache_def IANAZone_resetCache_def)

end
