(* ===== verification/Spec2Isabelle.thy ===== *)
theory Spec2Isabelle
  imports CronProperties PageProperties DateProperties IntervalProperties FormatProperties CacheProperties
begin

text \<open>
  A verification of the browser side of the job scheduler: the two pages under \<open>src/src/ui/js\<close>
  (\<open>job_list.js\<close>, \<open>edit.js\<close>, \<open>nav.js\<close>) and the bundle they run on (\<open>bundle.js\<close>), which holds a
  parser of cron expressions, a matcher that finds the times an expression gives, and a date library.

  \<^bold>\<open>How the parts work together.\<close> A row of the table of jobs has a cron expression. The page makes a
  time zone from the clock of the browser and asks \<open>getFutureMatches\<close> for the next times. That parses
  the expression, expands its steps (\<open>simplifyExprs\<close>), reads the start as an ISO text in the zone,
  walks over the candidate times (\<open>getTimeSeries\<close>, five nested loops that set one field of a date-time
  each), tests each (\<open>isExprsMatches\<close>) and prints those that match. The form of the page checks the
  expression with the parser alone.

  \<^bold>\<open>Theories.\<close>
  \<^item> \<open>JsPrelude\<close>, \<open>JsString\<close>, \<open>JsRegex\<close>, \<open>JsDate\<close>: what JavaScript gives. A call returns \<open>Ok\<close>, throws
    (\<open>Throw\<close> with the class of the error) or never returns (\<open>Hang\<close>); loops with a \<open>break\<close> are folds
    over \<open>Next\<close> and \<open>Stop\<close>; strings are lists of characters with the functions the code uses; regular
    expressions are matched by backtracking with groups; \<open>Date\<close> is the arithmetic of the standard.
  \<^item> \<open>CronParser\<close> models module 5 of the bundle, function by function: \<open>parse\<close>, \<open>parseExpr\<close>,
    \<open>parseField\<close>, \<open>parsePart\<close> and one function per kind of part. \<open>CronPrint\<close> prints fields and proves
    that they are parsed back.
  \<^item> \<open>LuxonUtil\<close>, \<open>LuxonCalendar\<close>, \<open>LuxonZone\<close>, \<open>LuxonDuration\<close>, \<open>LuxonDateTime\<close>, \<open>LuxonISO\<close> model the
    date library: helpers and calendar, zones and settings, durations, date-times, and the reading of
    texts. \<open>WeekLaws\<close>, \<open>ZoneLaws\<close>, \<open>DurationLaws\<close>, \<open>DateTimeLaws\<close> and \<open>ISOLaws\<close> prove what they promise.
  \<^item> \<open>LuxonDiff\<close> and \<open>LuxonInterval\<close> model the differences of two points in time and the intervals.
    \<open>IntervalLaws\<close> gives an interval its set of instants and proves what \<open>merge\<close>, \<open>xor\<close> and \<open>difference\<close>
    make of these sets; \<open>SpanLaws\<close> has the division into parts and the differences in the units of the
    clock.
  \<^item> \<open>LuxonFormat\<close>, \<open>LuxonTokens\<close> and \<open>LuxonRelative\<close> model the formatter (tokens of a format, presets,
    localized names, \<open>toFormat\<close> and the texts built on it), the reader of formats (\<open>fromFormat\<close>) and the
    relative times with \<open>Info\<close>. \<open>TokenLaws\<close> proves the round trip of formats, \<open>RelativeLaws\<close> what a
    relative time says.
  \<^item> \<open>LuxonCache\<close> models the caches of the library as a state that the calls change, with the JSON texts
    they are kept under; \<open>CacheLaws\<close> proves that these texts determine the calls and that the caches
    change no answer, so the other theories may leave them out; \<open>LuxonNameCache\<close> does the same for what
    a locale object keeps for itself. \<open>LuxonOffset\<close> has the fallback that reads
    an offset off a formatted text, \<open>OffsetLaws\<close> that it agrees with the main branch.
  \<^item> \<open>CronMatcher\<close> and \<open>CronApi\<close> model module 3: the values of a field, the series, the days of a month,
    the tests, and \<open>getFutureMatches\<close> and \<open>isTimeMatches\<close>. \<open>SeriesLaws\<close> shows that the loops are a loop
    over a list, \<open>MatcherLaws\<close> and \<open>MatchSpec\<close> that the tests decide what an expression means,
    \<open>CronApiLaws\<close> and \<open>LoopLaws\<close> what the two functions return and when they return.
  \<^item> \<open>JobPage\<close> and \<open>ScriptPage\<close> model the pages as records with one function per handler; answers of
    the server and messages of a socket are events of their own. \<open>JobPageLaws\<close> has the page of the
    jobs as a step relation with its invariant.
  \<^item> \<open>CronProperties\<close>, \<open>PageProperties\<close>, \<open>DateProperties\<close>, \<open>IntervalProperties\<close>,
    \<open>FormatProperties\<close> and \<open>CacheProperties\<close> state the properties, each with a run on a
    concrete input of \<open>Sample\<close> where it has hypotheses.

  \<^bold>\<open>State.\<close> A date-time is the record \<open>datetime\<close> with the fields of the class \<open>DateTime\<close> (time stamp,
  zone, locale, invalidity, calendar fields, offset); a number that may be \<open>NaN\<close> is an option. What the
  code asks of the browser is an argument: the record \<open>settings\<close> holds the system time zone and its
  offsets, the zones and locales \<open>Intl\<close> knows, the parts a formatter writes and the clock.

  \<^bold>\<open>Interfaces.\<close> The locale \<open>const_zone\<close> says what the matcher relies on in a zone: it is valid and has
  one offset on the time stamps between the years 68 and 2223; \<open>sane_zone\<close> bounds the offset by 10000
  minutes. The lemmas on setting fields, on the series and on the tests are proved in them once.
  Fixed-offset zones and universal time are interpretations, and \<open>iana_sane_zone\<close> shows that a zone of
  the browser is one when its formatter writes local times. \<open>fixOffset_change\<close> covers the zones that
  are not constant. The locale \<open>memo\<close> says what a cache relies on (calls with the same key make the
  same), \<open>own_memo\<close> that its keys are no inherited names; the caches of the library are interpretations.

  \<^bold>\<open>Bounds.\<close> \<open>modern\<close> years are 100 to 10000: below, the library goes through the twentieth century
  (and loses a day); the matcher's years are at most 3000. \<open>sound_expr\<close> are the well-formed
  expressions whose steps are positive and whose days of the week are days of the week: on the others
  the code does not return, which \<open>simplifyExprs_hangs_iff\<close> and \<open>getLastDay_never_ends\<close> prove. Loops that
  may not end are \<open>while_option\<close>; there is no fuel. The limit of 100000 rounds of \<open>getFutureMatches\<close> is
  the code's own.

  What a browser formats in a locale (dates and their parts, numbers, lists, relative times) is the record
  \<open>intl\<close>, an argument of the formatter: \<open>None\<close> stands for a service the browser does not have.

  \<^bold>\<open>Not modelled.\<close> \<open>Interval.toString\<close>, which writes a dash outside ASCII; the digits outside ASCII, which the reader of
  formats accepts for other numbering systems; \<open>resolvedLocaleOptions\<close>, which asks the browser; the
  helpers the compiler of the bundle adds for classes and iterators; the drawing of the table, the editor
  and the transport of requests (\<open>bootstrapTable\<close>, \<open>CodeMirror\<close>, \<open>$.ajax\<close>), which are libraries the
  pages call; \<open>main.js\<close>, which only exports the bundle; and the server, which is written in Go.
  Rounding of floating-point numbers is not modelled: the numbers of durations are rationals.
\<close>

end
